(* ===== verification/Gateway_Prelude.thy ===== *)
theory Gateway_Prelude
  imports Complex_Main "HOL-Library.AList"
begin

text \<open>
  Shared ground of the development. It fixes how the Go values of the data plane are read in HOL:
  a Go map is an association list with distinct keys (its order stands for the unspecified
  iteration order), an \<open>int64\<close> is an \<open>int\<close> with the two's complement wrap-around written out,
  a \<open>time.Time\<close> counts nanoseconds from Go's zero time, a \<open>[]byte\<close> or \<open>string\<close> is a list of bytes.
  It holds the loops with early return, the string functions of the standard library the code
  calls, decimal numbers as \<open>strconv\<close> writes them, and the lemmas about them that the component
  theories share.
\<close>

named_theorems go_map_simps \<open>lookups in updated Go maps\<close>
named_theorems go_loop_simps \<open>unfolding loops with early return\<close>

section \<open>Go maps\<close>

type_synonym ('k, 'v) gomap = "('k \<times> 'v) list"

abbreviation gomap_keys :: "('k, 'v) gomap \<Rightarrow> 'k list" where
  "gomap_keys m \<equiv> map fst m"

abbreviation gomap_wf :: "('k, 'v) gomap \<Rightarrow> bool" where
  "gomap_wf m \<equiv> distinct (map fst m)"

definition gomap_get :: "'v \<Rightarrow> ('k, 'v) gomap \<Rightarrow> 'k \<Rightarrow> 'v" where
  \<comment> \<open>\<open>m[k]\<close> with the zero value \<open>z\<close> of the element type.\<close>
  "gomap_get z m k = (case map_of m k of None \<Rightarrow> z | Some v \<Rightarrow> v)"

lemma map_of_update [simp, go_map_simps]:
  "map_of (AList.update k v m) k' = (if k' = k then Some v else map_of m k')"
  by (simp add: update_conv')

lemma map_of_delete [simp, go_map_simps]:
  "map_of (AList.delete k m) k' = (if k' = k then None else map_of m k')"
  by (simp add: delete_conv')

lemma gomap_get_update [simp, go_map_simps]:
  "gomap_get z (AList.update k v m) k' = (if k' = k then v else gomap_get z m k')"
  by (simp add: gomap_get_def)

lemma gomap_get_Nil [simp]: "gomap_get z [] k = z"
  by (simp add: gomap_get_def)

lemma gomap_wf_update [simp, intro]: "gomap_wf m \<Longrightarrow> gomap_wf (AList.update k v m)"
  by (rule distinct_update)

lemma gomap_wf_delete [simp, intro]: "gomap_wf m \<Longrightarrow> gomap_wf (AList.delete k m)"
  by (rule distinct_delete)

lemma gomap_keys_update: "set (gomap_keys (AList.update k v m)) = insert k (set (gomap_keys m))"
  using dom_update[of k v m] by (simp add: image_image)

lemma gomap_keys_iff: "k \<in> set (gomap_keys m) \<longleftrightarrow> (\<exists>v. map_of m k = Some v)"
  by (induction m) auto

lemma map_of_in_set: "map_of m k = Some v \<Longrightarrow> (k, v) \<in> set m"
  by (rule map_of_SomeD)

lemma set_map_of: "gomap_wf m \<Longrightarrow> (k, v) \<in> set m \<longleftrightarrow> map_of m k = Some v"
  by (simp add: map_of_eq_Some_iff)

section \<open>Loops with early return\<close>

text \<open>
  \<open>for _, x := range xs\<close> whose body may return an error: the state after the whole loop, or the
  first error.
\<close>

fun loop_err :: "('s \<Rightarrow> 'a \<Rightarrow> 'e + 's) \<Rightarrow> 's \<Rightarrow> 'a list \<Rightarrow> 'e + 's" where
  "loop_err f s [] = Inr s"
| "loop_err f s (x # xs) = (case f s x of Inl e \<Rightarrow> Inl e | Inr s' \<Rightarrow> loop_err f s' xs)"

text \<open>A loop that appends what its body produces for each element.\<close>

fun map_err :: "('a \<Rightarrow> 'e + 'b) \<Rightarrow> 'a list \<Rightarrow> 'e + 'b list" where
  "map_err f [] = Inr []"
| "map_err f (x # xs) =
     (case f x of Inl e \<Rightarrow> Inl e
      | Inr y \<Rightarrow> (case map_err f xs of Inl e \<Rightarrow> Inl e | Inr ys \<Rightarrow> Inr (y # ys)))"

lemma loop_err_Cons_Inr [go_loop_simps]:
  "loop_err f s (x # xs) = Inr t \<longleftrightarrow> (\<exists>s'. f s x = Inr s' \<and> loop_err f s' xs = Inr t)"
  by (auto split: sum.splits)

lemma loop_err_append:
  "loop_err f s (xs @ ys) = (case loop_err f s xs of Inl e \<Rightarrow> Inl e | Inr s' \<Rightarrow> loop_err f s' ys)"
  by (induction xs arbitrary: s) (auto split: sum.splits)

text \<open>Invariant rule for such a loop; \<open>I\<close> may mention the elements already consumed.\<close>

lemma loop_err_invariant:
  assumes "loop_err f s xs = Inr t" and "I [] s"
    and "\<And>done x rest s s'. xs = done @ x # rest \<Longrightarrow> I done s \<Longrightarrow> f s x = Inr s' \<Longrightarrow> I (done @ [x]) s'"
  shows "I xs t"
proof -
  have "loop_err f s' rest = Inr t \<Longrightarrow> xs = before @ rest \<Longrightarrow> I before s' \<Longrightarrow> I xs t"
    for before rest s'
  proof (induction rest arbitrary: before s')
    case Nil
    then show ?case by simp
  next
    case (Cons x rest)
    from Cons.prems(1) obtain s'' where step: "f s' x = Inr s''" and rest: "loop_err f s'' rest = Inr t"
      by (auto split: sum.splits)
    from assms(3)[OF Cons.prems(2,3) step] have "I (before @ [x]) s''" .
    with Cons.IH[OF rest, of "before @ [x]"] Cons.prems(2) show ?case by simp
  qed
  from this[of s xs "[]"] assms(1,2) show ?thesis by simp
qed

lemma loop_err_success_all:
  assumes "loop_err f s xs = Inr t" and "\<And>s x s'. f s x = Inr s' \<Longrightarrow> P x"
  shows "\<forall>x \<in> set xs. P x"
  using assms(1)
proof (induction xs arbitrary: s)
  case (Cons x xs)
  then obtain s' where "f s x = Inr s'" "loop_err f s' xs = Inr t"
    by (auto split: sum.splits)
  with Cons.IH assms(2) show ?case by auto
qed simp

lemma map_err_Inr_iff: "map_err f xs = Inr ys \<longleftrightarrow> list_all2 (\<lambda>x y. f x = Inr y) xs ys"
proof (induction xs arbitrary: ys)
  case (Cons x xs)
  show ?case
  proof (cases "f x")
    case (Inr y)
    then show ?thesis
      by (cases "map_err f xs") (auto simp: list_all2_Cons1 Cons.IH[symmetric])
  qed (simp add: list_all2_Cons1)
qed auto

lemma map_err_Inl: "map_err f xs = Inl e \<Longrightarrow> \<exists>x \<in> set xs. f x = Inl e"
  by (induction xs) (auto split: sum.splits)

section \<open>Machine integers\<close>

definition i64 :: "int \<Rightarrow> int" where
  \<comment> \<open>The value of an \<open>int64\<close> after wrap-around.\<close>
  "i64 x = signed_take_bit 63 x"

definition go_div :: "int \<Rightarrow> int \<Rightarrow> int" where
  \<comment> \<open>Go's integer division truncates towards zero.\<close>
  "go_div a b = sgn a * sgn b * (\<bar>a\<bar> div \<bar>b\<bar>)"

lemma i64_id: "- (2 ^ 63) \<le> x \<Longrightarrow> x < 2 ^ 63 \<Longrightarrow> i64 x = x"
  unfolding i64_def by (rule signed_take_bit_int_eq_self)

lemma i64_id_nonneg: "0 \<le> x \<Longrightarrow> x < 2 ^ 63 \<Longrightarrow> i64 x = x"
  by (rule i64_id) auto

lemma i64_range: "- (2 ^ 63) \<le> i64 x \<and> i64 x < 2 ^ 63"
  unfolding i64_def
  using signed_take_bit_int_greater_eq_minus_exp[of 63 x] signed_take_bit_int_less_exp[of 63 x] by simp

lemma go_div_nonneg: "0 \<le> a \<Longrightarrow> 0 < b \<Longrightarrow> go_div a b = a div b"
  by (cases "a = 0") (auto simp: go_div_def)

section \<open>Time\<close>

text \<open>
  \<open>time.Time\<close> and \<open>time.Duration\<close> in nanoseconds. Times count from Go's zero time (1 January of
  year 1), so \<open>IsZero\<close> is equality with 0 and \<open>Truncate\<close>, which Go defines from the zero time,
  is a remainder.
\<close>

type_synonym gotime = int
type_synonym duration = int

abbreviation millisecond :: duration where "millisecond \<equiv> 1000000"
abbreviation second :: duration where "second \<equiv> 1000000000"
abbreviation minute :: duration where "minute \<equiv> 60000000000"

definition time_Truncate :: "gotime \<Rightarrow> duration \<Rightarrow> gotime" where
  "time_Truncate t d = t - t mod d"

definition Milliseconds :: "duration \<Rightarrow> int" where
  "Milliseconds d = go_div d millisecond"

definition time_Unix :: "gotime \<Rightarrow> int" where
  \<comment> \<open>Seconds since 1970; 62135596800 seconds separate year 1 from it.\<close>
  "time_Unix t = t div second - 62135596800"

lemma time_Truncate_le: "0 < d \<Longrightarrow> time_Truncate t d \<le> t"
  by (simp add: time_Truncate_def)

lemma time_Truncate_window: "0 < d \<Longrightarrow> t < time_Truncate t d + d"
  by (simp add: time_Truncate_def)

section \<open>Strings\<close>

definition HasPrefix :: "string \<Rightarrow> string \<Rightarrow> bool" where
  "HasPrefix s p = (take (length p) s = p)"

definition HasSuffix :: "string \<Rightarrow> string \<Rightarrow> bool" where
  "HasSuffix s p = (length p \<le> length s \<and> drop (length s - length p) s = p)"

fun Index :: "string \<Rightarrow> string \<Rightarrow> nat option" where
  \<comment> \<open>\<open>strings.Index\<close>: the first occurrence, None for -1.\<close>
  "Index [] p = (if p = [] then Some 0 else None)"
| "Index (c # s) p = (if HasPrefix (c # s) p then Some 0 else map_option Suc (Index s p))"

fun LastIndex :: "string \<Rightarrow> string \<Rightarrow> nat option" where
  "LastIndex [] p = (if p = [] then Some 0 else None)"
| "LastIndex (c # s) p =
     (case LastIndex s p of Some i \<Rightarrow> Some (Suc i)
      | None \<Rightarrow> if HasPrefix (c # s) p then Some 0 else None)"

definition Contains :: "string \<Rightarrow> string \<Rightarrow> bool" where
  "Contains s p = (Index s p \<noteq> None)"

definition CutPrefix :: "string \<Rightarrow> string \<Rightarrow> string option" where
  "CutPrefix s p = (if HasPrefix s p then Some (drop (length p) s) else None)"

definition Cut :: "string \<Rightarrow> char \<Rightarrow> string \<times> string \<times> bool" where
  \<comment> \<open>\<open>strings.Cut\<close> at a one-byte separator.\<close>
  "Cut s c = (if c \<in> set s then (takeWhile (\<lambda>x. x \<noteq> c) s, tl (dropWhile (\<lambda>x. x \<noteq> c) s), True)
              else (s, [], False))"

lemma HasPrefix_append [simp]: "HasPrefix (p @ s) p"
  by (simp add: HasPrefix_def)

lemma HasPrefix_iff: "HasPrefix s p \<longleftrightarrow> (\<exists>r. s = p @ r)"
  by (metis HasPrefix_def HasPrefix_append append_take_drop_id)

lemma HasPrefix_Cons_Cons [simp]: "HasPrefix (a # s) (b # p) \<longleftrightarrow> a = b \<and> HasPrefix s p"
  by (auto simp: HasPrefix_def)

lemma HasPrefix_Nil_right [simp]: "HasPrefix s []"
  by (simp add: HasPrefix_def)

lemma HasPrefix_Nil_left [simp]: "HasPrefix [] p \<longleftrightarrow> p = []"
  by (auto simp: HasPrefix_def)

lemma HasSuffix_iff: "HasSuffix s p \<longleftrightarrow> (\<exists>r. s = r @ p)"
proof
  assume "HasSuffix s p"
  then have "s = take (length s - length p) s @ p"
    by (metis HasSuffix_def append_take_drop_id)
  then show "\<exists>r. s = r @ p" ..
qed (auto simp: HasSuffix_def)

lemma Index_NoneD: "Index s p = None \<Longrightarrow> i \<le> length s \<Longrightarrow> \<not> HasPrefix (drop i s) p"
proof (induction s arbitrary: i)
  case Nil
  then show ?case by (auto split: if_splits)
next
  case (Cons c s)
  then show ?case by (cases i) (auto split: if_splits)
qed

lemma Index_SomeD: "Index s p = Some i \<Longrightarrow> HasPrefix (drop i s) p \<and> i \<le> length s"
  by (induction s arbitrary: i) (auto split: if_splits)

lemma Contains_iff: "Contains s p \<longleftrightarrow> (\<exists>i \<le> length s. HasPrefix (drop i s) p)"
  by (metis Contains_def Index_NoneD Index_SomeD not_Some_eq)

lemma LastIndex_SomeD: "LastIndex s p = Some i \<Longrightarrow> HasPrefix (drop i s) p \<and> i \<le> length s"
  by (induction s arbitrary: i) (auto split: if_splits option.splits)

lemma LastIndex_last:
  "LastIndex s p = Some i \<Longrightarrow> i < j \<Longrightarrow> j \<le> length s \<Longrightarrow> \<not> HasPrefix (drop j s) p"
  "LastIndex s p = None \<Longrightarrow> j \<le> length s \<Longrightarrow> \<not> HasPrefix (drop j s) p"
proof (induction s arbitrary: i j)
  case Nil
  { case 1 then show ?case by (auto split: if_splits) }
  { case 2 then show ?case by (auto split: if_splits) }
next
  case (Cons c s)
  { case 1
    then obtain j' where j': "j = Suc j'" by (cases j) auto
    from 1 j' Cons.IH show ?case
      by (auto split: option.splits if_splits) }
  { case 2
    then show ?case using Cons.IH(2)
      by (cases j) (auto split: option.splits if_splits) }
qed

lemma Cut_join: "c \<notin> set p \<Longrightarrow> Cut (p @ c # s) c = (p, s, True)"
  by (simp add: Cut_def takeWhile_append dropWhile_append)

lemma Cut_found: "Cut s c = (p, r, True) \<Longrightarrow> s = p @ c # r \<and> c \<notin> set p"
proof -
  assume a: "Cut s c = (p, r, True)"
  then have "c \<in> set s" by (auto simp: Cut_def split: if_splits)
  then obtain xs ys where s: "s = xs @ c # ys" and "c \<notin> set xs"
    by (metis split_list_first)
  with a Cut_join[of c xs ys] show ?thesis by simp
qed

section \<open>Hexadecimal and decimal text\<close>

definition hex_digit :: "nat \<Rightarrow> char" where
  "hex_digit n = (if n < 10 then char_of (48 + n) else char_of (87 + n))"

definition hex_encode :: "string \<Rightarrow> string" where
  "hex_encode s = concat (map (\<lambda>c. [hex_digit (of_char c div 16), hex_digit (of_char c mod 16)]) s)"

text \<open>\<open>strconv.FormatInt(v, 10)\<close> and \<open>strconv.ParseInt(s, 10, 64)\<close>, None for its error.\<close>

definition digit_char :: "nat \<Rightarrow> char" where
  "digit_char d = char_of (48 + d)"

definition is_digit :: "char \<Rightarrow> bool" where
  "is_digit c = (48 \<le> (of_char c :: nat) \<and> (of_char c :: nat) \<le> 57)"

definition digit_val :: "char \<Rightarrow> nat" where
  "digit_val c = of_char c - 48"

fun format_nat :: "nat \<Rightarrow> string" where
  "format_nat n = (if n < 10 then [digit_char n] else format_nat (n div 10) @ [digit_char (n mod 10)])"

declare format_nat.simps [simp del]

definition FormatInt :: "int \<Rightarrow> string" where
  "FormatInt v = (if v < 0 then CHR ''-'' # format_nat (nat (- v)) else format_nat (nat v))"

definition parse_nat :: "string \<Rightarrow> nat option" where
  "parse_nat s = (if s = [] \<or> \<not> list_all is_digit s then None
                  else Some (foldl (\<lambda>n c. n * 10 + digit_val c) 0 s))"

definition ParseInt :: "string \<Rightarrow> int option" where
  "ParseInt s =
     (case s of [] \<Rightarrow> None
      | c # r \<Rightarrow>
         (if c = CHR ''-'' then
            (case parse_nat r of None \<Rightarrow> None
             | Some n \<Rightarrow> if n \<le> 2 ^ 63 then Some (- int n) else None)
          else
            (case parse_nat (if c = CHR ''+'' then r else s) of None \<Rightarrow> None
             | Some n \<Rightarrow> if n < 2 ^ 63 then Some (int n) else None)))"

lemma digit_char_facts:
  assumes "d < 10"
  shows "is_digit (digit_char d)" "digit_val (digit_char d) = d"
    "digit_char d \<noteq> CHR ''-''" "digit_char d \<noteq> CHR ''+''"
proof -
  have v: "(of_char (digit_char d) :: nat) = 48 + d"
    using assms by (simp add: digit_char_def)
  then show "is_digit (digit_char d)" "digit_val (digit_char d) = d"
    using assms by (simp_all add: is_digit_def digit_val_def)
  show "digit_char d \<noteq> CHR ''-''" "digit_char d \<noteq> CHR ''+''"
    using v assms by auto
qed

lemma format_nat_digits: "format_nat n \<noteq> [] \<and> list_all is_digit (format_nat n)"
proof (induction n rule: format_nat.induct)
  case (1 n)
  then show ?case
    by (subst format_nat.simps, subst (2) format_nat.simps) (simp add: digit_char_facts)
qed

lemma format_nat_value: "foldl (\<lambda>n c. n * 10 + digit_val c) 0 (format_nat n) = n"
proof (induction n rule: format_nat.induct)
  case (1 n)
  then show ?case
    by (subst format_nat.simps) (simp add: digit_char_facts)
qed

lemma parse_format_nat [simp]: "parse_nat (format_nat n) = Some n"
  by (simp add: parse_nat_def format_nat_digits format_nat_value)

lemma format_nat_head: "\<exists>d < 10. \<exists>r. format_nat n = digit_char d # r"
proof (induction n rule: format_nat.induct)
  case (1 n)
  show ?case
  proof (cases "n < 10")
    case True
    then show ?thesis by (subst format_nat.simps) auto
  next
    case False
    with 1 obtain d r where "d < 10" "format_nat (n div 10) = digit_char d # r" by blast
    with False show ?thesis by (subst format_nat.simps) auto
  qed
qed

lemma ParseInt_FormatInt:
  assumes "- (2 ^ 63) \<le> v" "v < 2 ^ 63"
  shows "ParseInt (FormatInt v) = Some v"
proof (cases "v < 0")
  case True
  then show ?thesis using assms by (auto simp: ParseInt_def FormatInt_def nat_le_iff)
next
  case False
  obtain d r where d: "d < 10" and r: "format_nat (nat v) = digit_char d # r"
    using format_nat_head by blast
  have p: "parse_nat (digit_char d # r) = Some (nat v)"
    using r parse_format_nat by metis
  from False assms have "nat v < 2 ^ 63" by (simp add: nat_less_iff)
  with False p digit_char_facts[OF d] show ?thesis
    by (simp add: ParseInt_def FormatInt_def r)
qed

end
