(* ===== verification/Core_Errors.thy ===== *)
theory Core_Errors
  imports Gateway_Prelude
begin

text \<open>
  The error type of \<open>dataplane/internal/core/errors.go\<close>: codes, constructors, and the two readers
  every other component uses, \<open>CodeOf\<close> and \<open>IsRetryable\<close>, which follow the wrap chain as
  \<open>errors.As\<close> does. A message is kept as its format and arguments; turning it into text is
  \<open>fmt.Sprintf\<close>, a parameter of the one definition that needs it. An error from outside
  the gateway is \<open>Foreign\<close>, with its text and what it wraps.
\<close>

section \<open>Codes and errors\<close>

datatype code =
    CodeNone
  | CodeUnauthenticated
  | CodeForbidden
  | CodeInvalidRequest
  | CodeModelNotFound
  | CodeNoCandidates
  | CodeTrustTierDenied
  | CodeRateLimited
  | CodeBudgetExhausted
  | CodeEndpointUnsupported
  | CodeGuardrailDenied
  | CodeUpstreamError
  | CodeUpstreamTimeout
  | CodeUnavailable
  | CodeInternal

text \<open>\<open>CodeNone\<close> is the empty string, which \<open>CodeOf\<close> returns for a nil error.\<close>

fun code_string :: "code \<Rightarrow> string" where
  "code_string CodeNone = ''''"
| "code_string CodeUnauthenticated = ''unauthenticated''"
| "code_string CodeForbidden = ''forbidden''"
| "code_string CodeInvalidRequest = ''invalid_request''"
| "code_string CodeModelNotFound = ''model_not_found''"
| "code_string CodeNoCandidates = ''no_candidates''"
| "code_string CodeTrustTierDenied = ''trust_tier_denied''"
| "code_string CodeRateLimited = ''rate_limited''"
| "code_string CodeBudgetExhausted = ''budget_exhausted''"
| "code_string CodeEndpointUnsupported = ''endpoint_unsupported''"
| "code_string CodeGuardrailDenied = ''guardrail_denied''"
| "code_string CodeUpstreamError = ''upstream_error''"
| "code_string CodeUpstreamTimeout = ''upstream_timeout''"
| "code_string CodeUnavailable = ''unavailable''"
| "code_string CodeInternal = ''internal''"

datatype msg_arg = AStr string | AInt int | ADur duration

datatype message = Msg string "msg_arg list"

abbreviation no_message :: message where "no_message \<equiv> Msg '''' []"

datatype go_error =
    GwError (err_Code: code) (err_Message: message) (err_Retryable: bool) (err_cause: "go_error option")
  | Foreign (foreign_text: string) (foreign_cause: "go_error option")

section \<open>Constructors\<close>

definition err_New :: "code \<Rightarrow> string \<Rightarrow> go_error" where
  "err_New c m = GwError c (Msg m []) False None"

definition err_Newf :: "code \<Rightarrow> string \<Rightarrow> msg_arg list \<Rightarrow> go_error" where
  "err_Newf c fmt args = GwError c (Msg fmt args) False None"

definition err_Wrap :: "code \<Rightarrow> go_error option \<Rightarrow> string \<Rightarrow> go_error option" where
  "err_Wrap c cause m =
     (case cause of None \<Rightarrow> None | Some e \<Rightarrow> Some (GwError c (Msg m []) False (Some e)))"

definition err_WrapRetryable :: "code \<Rightarrow> go_error option \<Rightarrow> string \<Rightarrow> go_error option" where
  "err_WrapRetryable c cause m =
     (case cause of None \<Rightarrow> None | Some e \<Rightarrow> Some (GwError c (Msg m []) True (Some e)))"

definition err_Wrapf :: "code \<Rightarrow> go_error option \<Rightarrow> string \<Rightarrow> msg_arg list \<Rightarrow> go_error option" where
  "err_Wrapf c cause fmt args =
     (case cause of None \<Rightarrow> None | Some e \<Rightarrow> Some (GwError c (Msg fmt args) False (Some e)))"

text \<open>\<open>AsRetryable\<close> is a method of \<open>*Error\<close>; a foreign error has no such method.\<close>

fun AsRetryable :: "go_error \<Rightarrow> go_error" where
  "AsRetryable (GwError c m _ cause) = GwError c m True cause"
| "AsRetryable (Foreign t cause) = Foreign t cause"

definition sentinel :: "code \<Rightarrow> go_error" where
  "sentinel c = GwError c no_message False None"

section \<open>Reading an error\<close>

fun Unwrap :: "go_error \<Rightarrow> go_error option" where
  "Unwrap (GwError _ _ _ cause) = cause"
| "Unwrap (Foreign _ cause) = cause"

text \<open>\<open>errors.As(err, &e)\<close> for \<open>e *Error\<close>: the first gateway error along the chain.\<close>

fun errors_As :: "go_error \<Rightarrow> (code \<times> message \<times> bool) option" where
  "errors_As (GwError c m r _) = Some (c, m, r)"
| "errors_As (Foreign _ None) = None"
| "errors_As (Foreign _ (Some e)) = errors_As e"

text \<open>The \<open>Is\<close> method compares codes with the first gateway error of the target.\<close>

fun err_Is :: "go_error \<Rightarrow> go_error \<Rightarrow> bool" where
  "err_Is (GwError c _ _ _) target =
     (case errors_As target of None \<Rightarrow> False | Some (c', _, _) \<Rightarrow> c = c')"
| "err_Is (Foreign _ _) target = False"

text \<open>\<open>errors.Is\<close>: some error of the chain equals the target or says it is the target.\<close>

fun errors_Is :: "go_error \<Rightarrow> go_error \<Rightarrow> bool" where
  "errors_Is (GwError c m r None) t = (GwError c m r None = t \<or> err_Is (GwError c m r None) t)"
| "errors_Is (GwError c m r (Some e)) t =
     (GwError c m r (Some e) = t \<or> err_Is (GwError c m r (Some e)) t \<or> errors_Is e t)"
| "errors_Is (Foreign s None) t = (Foreign s None = t)"
| "errors_Is (Foreign s (Some e)) t = (Foreign s (Some e) = t \<or> errors_Is e t)"

definition CodeOf :: "go_error option \<Rightarrow> code" where
  "CodeOf err = (case err of None \<Rightarrow> CodeNone
                 | Some e \<Rightarrow> (case errors_As e of Some (c, _, _) \<Rightarrow> c | None \<Rightarrow> CodeInternal))"

definition IsRetryable :: "go_error option \<Rightarrow> bool" where
  "IsRetryable err = (case err of None \<Rightarrow> False
                      | Some e \<Rightarrow> (case errors_As e of Some (_, _, r) \<Rightarrow> r | None \<Rightarrow> False))"

text \<open>\<open>Error()\<close>; \<open>sprintf\<close> renders a message.\<close>

fun Error_text :: "(message \<Rightarrow> string) \<Rightarrow> go_error \<Rightarrow> string" where
  "Error_text sprintf (GwError c m r None) =
     (if sprintf m = '''' then code_string c else code_string c @ '': '' @ sprintf m)"
| "Error_text sprintf (GwError c m r (Some e)) =
     (if sprintf m = '''' then code_string c @ '': '' @ Error_text sprintf e
      else code_string c @ '': '' @ sprintf m @ '': '' @ Error_text sprintf e)"
| "Error_text sprintf (Foreign t _) = t"

section \<open>Laws\<close>

lemmas err_constructors = err_New_def err_Newf_def err_Wrap_def err_WrapRetryable_def err_Wrapf_def

fun chain_codes :: "go_error \<Rightarrow> code list" where
  \<comment> \<open>The codes of the gateway errors along the wrap chain, outermost first.\<close>
  "chain_codes (GwError c _ _ None) = [c]"
| "chain_codes (GwError c _ _ (Some e)) = c # chain_codes e"
| "chain_codes (Foreign _ None) = []"
| "chain_codes (Foreign _ (Some e)) = chain_codes e"

lemma CodeOf_simps [simp]:
  "CodeOf None = CodeNone"
  "CodeOf (Some (GwError c m r cause)) = c"
  "CodeOf (Some (err_New c s)) = c"
  "CodeOf (Some (err_Newf c s args)) = c"
  by (simp_all add: CodeOf_def err_constructors)

lemma IsRetryable_simps [simp]:
  "IsRetryable None = False"
  "IsRetryable (Some (GwError c m r cause)) = r"
  "IsRetryable (Some (err_New c s)) = False"
  "IsRetryable (Some (err_Newf c s args)) = False"
  by (simp_all add: IsRetryable_def err_constructors)

lemma errors_As_chain: "map_option fst (errors_As e) = (case chain_codes e of [] \<Rightarrow> None | c # _ \<Rightarrow> Some c)"
  by (induction e rule: chain_codes.induct) simp_all

lemma CodeOf_chain: "CodeOf (Some e) = (case chain_codes e of [] \<Rightarrow> CodeInternal | c # _ \<Rightarrow> c)"
  using errors_As_chain[of e] by (auto simp: CodeOf_def split: option.splits list.splits)

lemma errors_Is_sentinel_chain: "errors_Is e (sentinel c) \<longleftrightarrow> c \<in> set (chain_codes e)"
  by (induction e rule: chain_codes.induct) (auto simp: sentinel_def)

lemma code_string_inj: "code_string a = code_string b \<longleftrightarrow> a = b"
  by (cases a; cases b; simp)

end
