(* ===== verification/Core_Catalog.thy ===== *)
theory Core_Catalog
  imports Core_Errors
begin

text \<open>
  \<open>dataplane/internal/core\<close>: trust tiers (\<open>trust.go\<close>), the model catalog with its prices
  (\<open>catalog.go\<close>), token usage (\<open>ports.go\<close>) and spend limits (\<open>budget.go\<close>). Money and tokens are
  \<open>int64\<close> and every arithmetic step wraps as Go's does; the lemmas say under which bounds the
  results are the mathematical ones.
\<close>

section \<open>Trust tiers\<close>

datatype trust_tier = TrustUnset | TrustExternal | TrustPrivateCloud | TrustInternal

fun tier_rank :: "trust_tier \<Rightarrow> nat" where
  "tier_rank TrustUnset = 0"
| "tier_rank TrustExternal = 1"
| "tier_rank TrustPrivateCloud = 2"
| "tier_rank TrustInternal = 3"

lemma tier_rank_inj [simp]: "tier_rank a = tier_rank b \<longleftrightarrow> a = b"
  by (cases a; cases b; simp)

instantiation trust_tier :: linorder
begin

definition less_eq_trust_tier :: "trust_tier \<Rightarrow> trust_tier \<Rightarrow> bool" where
  "less_eq_trust_tier a b = (tier_rank a \<le> tier_rank b)"

definition less_trust_tier :: "trust_tier \<Rightarrow> trust_tier \<Rightarrow> bool" where
  "less_trust_tier a b = (tier_rank a < tier_rank b)"

instance
  by standard (auto simp: less_eq_trust_tier_def less_trust_tier_def)

end

lemmas tier_order = less_eq_trust_tier_def less_trust_tier_def

lemma tier_bounds [simp]: "TrustUnset \<le> t" "t \<le> TrustInternal"
  by (cases t; simp add: tier_order)+

fun trust_tier_String :: "trust_tier \<Rightarrow> string" where
  "trust_tier_String TrustUnset = ''unset''"
| "trust_tier_String TrustExternal = ''external''"
| "trust_tier_String TrustPrivateCloud = ''private_cloud''"
| "trust_tier_String TrustInternal = ''internal''"

definition tier_Valid :: "trust_tier \<Rightarrow> bool" where
  "tier_Valid t = (TrustExternal \<le> t \<and> t \<le> TrustInternal)"

definition AtLeast :: "trust_tier \<Rightarrow> trust_tier \<Rightarrow> bool" where
  "AtLeast t m = (m \<le> t)"

lemma tier_Valid_iff: "tier_Valid t \<longleftrightarrow> t \<noteq> TrustUnset"
  by (cases t) (simp_all add: tier_Valid_def tier_order)

type_synonym data_class = string

abbreviation DataClassPublic :: data_class where "DataClassPublic \<equiv> ''public''"
abbreviation DataClassInternal :: data_class where "DataClassInternal \<equiv> ''internal''"
abbreviation DataClassConfidential :: data_class where "DataClassConfidential \<equiv> ''confidential''"
abbreviation DataClassRestricted :: data_class where "DataClassRestricted \<equiv> ''restricted''"

section \<open>Catalog\<close>

type_synonym micro_usd = int
type_synonym capability = string

abbreviation CapabilityStreaming :: capability where "CapabilityStreaming \<equiv> ''streaming''"

record routing_key =
  BaseModel :: string
  AdapterID :: string

record token_usage =
  tu_Input :: int
  tu_CachedInput :: int
  tu_CacheWrite :: int
  tu_Output :: int

abbreviation no_usage :: token_usage where
  "no_usage \<equiv> \<lparr>tu_Input = 0, tu_CachedInput = 0, tu_CacheWrite = 0, tu_Output = 0\<rparr>"

record cost =
  InputPer1K :: micro_usd
  OutputPer1K :: micro_usd
  CachedInputPer1K :: micro_usd
  CacheWritePer1K :: micro_usd

record deployment =
  dep_ID :: string
  dep_Key :: routing_key
  dep_Provider :: string
  dep_Endpoint :: string
  dep_Region :: string
  dep_TrustTier :: trust_tier
  dep_CredentialRef :: string
  dep_Weight :: nat
  dep_ShadowPercent :: nat
  dep_Cost :: cost
  dep_Capabilities :: "capability list"

record model_alias =
  alias_Name :: string
  alias_Targets :: "routing_key list"

definition IsAdapter :: "routing_key \<Rightarrow> bool" where
  "IsAdapter k = (AdapterID k \<noteq> '''')"

definition routing_key_String :: "routing_key \<Rightarrow> string" where
  "routing_key_String k =
     (if AdapterID k = '''' then BaseModel k else BaseModel k @ ''+'' @ AdapterID k)"

definition usage_Total :: "token_usage \<Rightarrow> int" where
  "usage_Total u = i64 (i64 (i64 (tu_Input u + tu_CachedInput u) + tu_CacheWrite u) + tu_Output u)"

definition usage_TotalInput :: "token_usage \<Rightarrow> int" where
  "usage_TotalInput u = i64 (i64 (tu_Input u + tu_CachedInput u) + tu_CacheWrite u)"

definition cost_For :: "cost \<Rightarrow> token_usage \<Rightarrow> micro_usd" where
  "cost_For c usage =
     (let cached = (if CachedInputPer1K c = 0 then InputPer1K c else CachedInputPer1K c);
          wr = (if CacheWritePer1K c = 0 then InputPer1K c else CacheWritePer1K c);
          total = i64 (i64 (i64 (i64 (tu_Input usage * InputPer1K c)
                                 + i64 (tu_CachedInput usage * cached))
                            + i64 (tu_CacheWrite usage * wr))
                       + i64 (tu_Output usage * OutputPer1K c))
      in go_div total 1000)"

definition Supports :: "deployment \<Rightarrow> capability list \<Rightarrow> bool" where
  "Supports d required = list_all (\<lambda>want. want \<in> set (dep_Capabilities d)) required"

definition Serving :: "deployment \<Rightarrow> bool" where
  "Serving d = (dep_Weight d > 0)"

definition Shadowing :: "deployment \<Rightarrow> bool" where
  "Shadowing d = (dep_ShadowPercent d > 0 \<and> IsAdapter (dep_Key d))"

section \<open>Budgets\<close>

datatype budget_scope =
    BudgetScopeUnset | BudgetScopeKey | BudgetScopeApp | BudgetScopeUser
  | BudgetScopeTeam | BudgetScopeOrg | BudgetScopeModel | BudgetScopeTraining

record budget_ref =
  ref_ID :: string
  ref_Scope :: budget_scope

record budget_state =
  bud_ID :: string
  bud_Scope :: budget_scope
  LimitMicroUSD :: micro_usd
  SpentMicroUSD :: micro_usd
  bud_Hard :: bool
  HeadroomBasisPoints :: nat

definition basisPointsPerUnit :: int where
  "basisPointsPerUnit = 10000"

definition Available :: "budget_state \<Rightarrow> micro_usd" where
  "Available b =
     (let reserved = go_div (i64 (LimitMicroUSD b * int (HeadroomBasisPoints b))) basisPointsPerUnit;
          remaining = i64 (i64 (LimitMicroUSD b - reserved) - SpentMicroUSD b)
      in if remaining < 0 then 0 else remaining)"

definition Denies :: "budget_state \<Rightarrow> bool" where
  "Denies b = (bud_Hard b \<and> Available b = 0)"

section \<open>Prices and limits in exact arithmetic\<close>

definition exact_cost :: "cost \<Rightarrow> token_usage \<Rightarrow> int" where
  \<comment> \<open>A thousand times the price, over the integers.\<close>
  "exact_cost c u =
     tu_Input u * InputPer1K c
   + tu_CachedInput u * (if CachedInputPer1K c = 0 then InputPer1K c else CachedInputPer1K c)
   + tu_CacheWrite u * (if CacheWritePer1K c = 0 then InputPer1K c else CacheWritePer1K c)
   + tu_Output u * OutputPer1K c"

definition cost_wf :: "cost \<Rightarrow> bool" where
  "cost_wf c = (0 \<le> InputPer1K c \<and> 0 \<le> OutputPer1K c \<and> 0 \<le> CachedInputPer1K c \<and> 0 \<le> CacheWritePer1K c)"

definition usage_wf :: "token_usage \<Rightarrow> bool" where
  "usage_wf u = (0 \<le> tu_Input u \<and> 0 \<le> tu_CachedInput u \<and> 0 \<le> tu_CacheWrite u \<and> 0 \<le> tu_Output u)"

definition exact_available :: "budget_state \<Rightarrow> int" where
  "exact_available b =
     max 0 (LimitMicroUSD b - LimitMicroUSD b * int (HeadroomBasisPoints b) div 10000 - SpentMicroUSD b)"

lemma cost_For_exact:
  assumes "cost_wf c" "usage_wf u" "exact_cost c u < 2 ^ 63"
  shows "cost_For c u = exact_cost c u div 1000"
proof -
  define a where "a = tu_Input u * InputPer1K c"
  define b where "b = tu_CachedInput u * (if CachedInputPer1K c = 0 then InputPer1K c else CachedInputPer1K c)"
  define w where "w = tu_CacheWrite u * (if CacheWritePer1K c = 0 then InputPer1K c else CacheWritePer1K c)"
  define d where "d = tu_Output u * OutputPer1K c"
  have nn: "0 \<le> a" "0 \<le> b" "0 \<le> w" "0 \<le> d"
    using assms(1,2) by (auto simp: cost_wf_def usage_wf_def a_def b_def w_def d_def)
  have sum: "exact_cost c u = a + b + w + d"
    by (simp add: exact_cost_def a_def b_def w_def d_def)
  have "i64 (i64 (i64 (i64 a + i64 b) + i64 w) + i64 d) = a + b + w + d"
    using nn assms(3) sum by (simp add: i64_id_nonneg)
  then show ?thesis
    using nn sum
    by (simp add: cost_For_def Let_def a_def[symmetric] b_def[symmetric] w_def[symmetric]
        d_def[symmetric] go_div_nonneg)
qed

lemma exact_cost_mono:
  assumes "cost_wf c" "tu_Input u \<le> tu_Input v" "tu_CachedInput u \<le> tu_CachedInput v"
    "tu_CacheWrite u \<le> tu_CacheWrite v" "tu_Output u \<le> tu_Output v"
  shows "exact_cost c u \<le> exact_cost c v"
  using assms unfolding exact_cost_def cost_wf_def
  by (intro add_mono mult_right_mono) auto

lemma Available_exact:
  assumes "0 \<le> LimitMicroUSD b" "0 \<le> SpentMicroUSD b" "SpentMicroUSD b < 2 ^ 63"
    and "HeadroomBasisPoints b \<le> 10000" and "LimitMicroUSD b * int (HeadroomBasisPoints b) < 2 ^ 63"
    and "LimitMicroUSD b < 2 ^ 63"
  shows "Available b = exact_available b"
proof -
  let ?L = "LimitMicroUSD b" and ?h = "int (HeadroomBasisPoints b)" and ?S = "SpentMicroUSD b"
  let ?r = "?L * ?h div 10000"
  have r: "go_div (i64 (?L * ?h)) 10000 = ?r"
    using assms by (simp add: i64_id_nonneg go_div_nonneg)
  have "0 \<le> ?r" using assms(1) by (simp add: pos_imp_zdiv_nonneg_iff)
  moreover have "?r \<le> ?L"
  proof -
    have "?L * ?h \<le> ?L * 10000" using assms(1,4) by (intro mult_left_mono) auto
    then show ?thesis by simp
  qed
  ultimately have "i64 (?L - ?r) = ?L - ?r" "i64 (?L - ?r - ?S) = ?L - ?r - ?S"
    using assms by (auto intro!: i64_id)
  with r show ?thesis
    by (simp add: Available_def exact_available_def basisPointsPerUnit_def Let_def)
qed

section \<open>Properties\<close>

text \<open>Claim C31. Money is exact within 64 bits: a price is the exact sum of the four token classes at their rates, rounded down once,
  and what a budget has left is the exact limit less headroom and spending, never negative, as long as the products stay below
  \<open>2 ^ 63\<close>. Nothing checks that they do: a usage report large enough makes the price negative.\<close>

theorem money_is_exact_in_range:
  assumes "cost_wf c" "usage_wf u" "exact_cost c u < 2 ^ 63"
    and "0 \<le> LimitMicroUSD b" "0 \<le> SpentMicroUSD b" "SpentMicroUSD b < 2 ^ 63" "HeadroomBasisPoints b \<le> 10000"
    and "LimitMicroUSD b * int (HeadroomBasisPoints b) < 2 ^ 63" "LimitMicroUSD b < 2 ^ 63"
  shows "cost_For c u = exact_cost c u div 1000 \<and> Available b = exact_available b \<and> 0 \<le> Available b \<and>
    cost_For \<lparr>InputPer1K = 2, OutputPer1K = 0, CachedInputPer1K = 0, CacheWritePer1K = 0\<rparr>
      \<lparr>tu_Input = 2 ^ 62 + 1000, tu_CachedInput = 0, tu_CacheWrite = 0, tu_Output = 0\<rparr> < 0"
proof -
  have "cost_For \<lparr>InputPer1K = 2, OutputPer1K = 0, CachedInputPer1K = 0, CacheWritePer1K = 0\<rparr>
      \<lparr>tu_Input = 2 ^ 62 + 1000, tu_CachedInput = 0, tu_CacheWrite = 0, tu_Output = 0\<rparr> < 0" by code_simp
  with cost_For_exact[OF assms(1-3)] Available_exact[OF assms(4-9)] show ?thesis by (simp add: exact_available_def)
qed

theorem money_is_exact_witness:
  "cost_For \<lparr>InputPer1K = 1000, OutputPer1K = 2000, CachedInputPer1K = 0, CacheWritePer1K = 0\<rparr>
     \<lparr>tu_Input = 7, tu_CachedInput = 1, tu_CacheWrite = 0, tu_Output = 3\<rparr> = 14 \<and>
   Available \<lparr>bud_ID = ''b'', bud_Scope = BudgetScopeKey, LimitMicroUSD = 1000, SpentMicroUSD = 300, bud_Hard = True, HeadroomBasisPoints = 500\<rparr> = 650"
  using money_is_exact_in_range[of "\<lparr>InputPer1K = 1000, OutputPer1K = 2000, CachedInputPer1K = 0, CacheWritePer1K = 0\<rparr>"
      "\<lparr>tu_Input = 7, tu_CachedInput = 1, tu_CacheWrite = 0, tu_Output = 3\<rparr>"
      "\<lparr>bud_ID = ''b'', bud_Scope = BudgetScopeKey, LimitMicroUSD = 1000, SpentMicroUSD = 300, bud_Hard = True, HeadroomBasisPoints = 500\<rparr>"]
  by (simp add: cost_wf_def usage_wf_def exact_cost_def exact_available_def)

end
