(* ===== verification/Core_Identity.thy ===== *)
theory Core_Identity
  imports Core_Catalog "HOL-Library.Word"
begin

text \<open>
  \<open>dataplane/internal/core\<close>: who is calling (\<open>identity.go\<close>), what the request says of itself
  (\<open>request.go\<close>), and the vocabulary of the ports (\<open>ports.go\<close>): guardrail inputs, results and
  bindings, provider calls and chunks. HMAC-SHA256 is a parameter \<open>hmac\<close> wherever a key or a value is hashed;
  no lemma assumes anything of it that the statement does not show.
\<close>

unbundle bit_operations_syntax

section \<open>Addresses\<close>

text \<open>\<open>netip.Addr\<close> and \<open>netip.Prefix\<close>: the zero address is \<open>AddrNone\<close>; an IPv6 address may carry a zone.\<close>

datatype addr = AddrNone | Addr4 "32 word" | Addr6 "128 word" string

datatype ip_prefix = PrefixNone | Prefix4 "32 word" nat | Prefix6 "128 word" nat

fun prefix_Contains :: "ip_prefix \<Rightarrow> addr \<Rightarrow> bool" where
  "prefix_Contains (Prefix4 net bits) (Addr4 a) =
     (bits \<le> 32 \<and> drop_bit (32 - bits) (net XOR a) = 0)"
| "prefix_Contains (Prefix6 net bits) (Addr6 a zone) =
     (zone = '''' \<and> bits \<le> 128 \<and> drop_bit (128 - bits) (net XOR a) = 0)"
| "prefix_Contains _ _ = False"

fun addr_IsValid :: "addr \<Rightarrow> bool" where
  "addr_IsValid AddrNone = False"
| "addr_IsValid _ = True"

section \<open>Identity\<close>

type_synonym hmac_fun = "string \<Rightarrow> string \<Rightarrow> string"
type_synonym key_lookup = string

record model_allowlist =
  AllowAll :: bool
  allow_Names :: "string list"

record rate_limit =
  RequestsPerMinute :: nat
  TokensPerMinute :: nat
  MaxConcurrent :: nat

record principal =
  p_KeyID :: string
  p_Tenant :: string
  p_Org :: string
  p_Team :: string
  p_User :: string
  p_App :: string
  p_Roles :: "string list"
  p_Models :: model_allowlist
  p_Budgets :: "budget_ref list"
  p_DefaultClass :: data_class
  p_MinTrustTier :: trust_tier
  p_Limits :: rate_limit
  p_Deprecated :: bool
  p_NotAfter :: gotime

definition ComputeKeyLookup :: "hmac_fun \<Rightarrow> string \<Rightarrow> string \<Rightarrow> key_lookup" where
  "ComputeKeyLookup hmac pepper secret = take 32 (hmac pepper secret)"

definition ParseAPIKey :: "string \<Rightarrow> go_error + (string \<times> string)" where
  "ParseAPIKey presented =
     (if \<not> HasPrefix presented ''gw_''
      then Inl (err_New CodeUnauthenticated ''api key has an unrecognised scheme'')
      else (case Cut (drop (length ''gw_'') presented) (CHR ''_'') of (prefix, secret, found) \<Rightarrow>
        if \<not> found \<or> prefix = '''' \<or> secret = ''''
        then Inl (err_New CodeUnauthenticated ''api key is malformed'')
        else Inr (prefix, secret)))"

definition Permits :: "model_allowlist \<Rightarrow> string \<Rightarrow> bool" where
  "Permits a name = (AllowAll a \<or> list_ex (\<lambda>n. n = name) (allow_Names a))"

definition Unlimited :: "rate_limit \<Rightarrow> bool" where
  "Unlimited r = (RequestsPerMinute r = 0 \<and> TokensPerMinute r = 0 \<and> MaxConcurrent r = 0)"

definition Validate :: "principal \<Rightarrow> gotime \<Rightarrow> go_error option" where
  "Validate p now =
     (if p_NotAfter p \<noteq> 0 \<and> now > p_NotAfter p
      then Some (err_New CodeUnauthenticated ''api key has expired'') else None)"

section \<open>Requests\<close>

type_synonym endpoint = string

abbreviation EndpointChatCompletions :: endpoint where "EndpointChatCompletions \<equiv> ''chat_completions''"
abbreviation EndpointMessages :: endpoint where "EndpointMessages \<equiv> ''messages''"
abbreviation EndpointEmbeddings :: endpoint where "EndpointEmbeddings \<equiv> ''embeddings''"

datatype priority_class = PriorityInteractive | PriorityBatch

record request_meta =
  RequestID :: string
  m_Model :: string
  m_Endpoint :: endpoint
  m_Stream :: bool
  m_PayloadBytes :: int
  m_SourceIP :: addr
  m_Region :: string
  m_Priority :: priority_class
  m_IdempotencyKey :: string
  m_ReceivedAt :: gotime
  m_Deadline :: gotime

section \<open>Ports\<close>

record credential =
  cred_Ref :: string
  cred_Secret :: string

record provider_call =
  call_Deployment :: deployment
  call_Meta :: request_meta
  call_Body :: string
  call_Credential :: credential

record provider_response =
  resp_StatusCode :: int
  resp_Body :: string
  resp_Usage :: token_usage

record chunk =
  chunk_Body :: string
  chunk_Usage :: token_usage
  chunk_Final :: bool

datatype phase = PhaseRequest | PhaseResponse
datatype verdict = VerdictAllow | VerdictDeny | VerdictMutate
datatype failure_mode = FailOpen | FailClosed

record guardrail_input =
  gi_Phase :: phase
  gi_Meta :: request_meta
  gi_Class :: data_class
  gi_Tier :: trust_tier
  gi_Payload :: string

text \<open>\<open>gr_Payload\<close> is None for a nil slice, which a mutation is checked against.\<close>

record guardrail_result =
  gr_Verdict :: verdict
  gr_Reason :: string
  gr_Payload :: "string option"

record guardrail_budget =
  gb_Timeout :: duration
  gb_Mode :: failure_mode
  gb_Blocking :: bool
  gb_Phases :: "phase list"

record guardrail_binding =
  g_Component :: string
  g_Version :: string
  g_ConfigRef :: string
  g_Execution :: string
  g_Module :: string
  g_Budget :: guardrail_budget

definition Inspects :: "guardrail_binding \<Rightarrow> phase \<Rightarrow> bool" where
  "Inspects b ph = (if gb_Phases (g_Budget b) = [] then ph = PhaseRequest
                    else ph \<in> set (gb_Phases (g_Budget b)))"

section \<open>Laws\<close>

lemma ParseAPIKey_Inr:
  "ParseAPIKey k = Inr (p, s) \<longleftrightarrow>
   k = ''gw_'' @ p @ ''_'' @ s \<and> p \<noteq> '''' \<and> s \<noteq> '''' \<and> CHR ''_'' \<notin> set p"
proof
  assume a: "ParseAPIKey k = Inr (p, s)"
  then have "HasPrefix k ''gw_''"
    by (auto simp: ParseAPIKey_def split: if_splits)
  then obtain r where k: "k = ''gw_'' @ r" by (auto simp: HasPrefix_iff)
  with a have c: "Cut r (CHR ''_'') = (p, s, True)" and ne: "p \<noteq> ''''" "s \<noteq> ''''"
    by (auto simp: ParseAPIKey_def split: if_splits prod.splits)
  from Cut_found[OF c] k ne
  show "k = ''gw_'' @ p @ ''_'' @ s \<and> p \<noteq> '''' \<and> s \<noteq> '''' \<and> CHR ''_'' \<notin> set p" by simp
next
  assume a: "k = ''gw_'' @ p @ ''_'' @ s \<and> p \<noteq> '''' \<and> s \<noteq> '''' \<and> CHR ''_'' \<notin> set p"
  then show "ParseAPIKey k = Inr (p, s)"
    by (simp add: ParseAPIKey_def Cut_join)
qed

lemma ParseAPIKey_Inl_code: "ParseAPIKey k = Inl e \<Longrightarrow> CodeOf (Some e) = CodeUnauthenticated"
  by (auto simp: ParseAPIKey_def split: if_splits prod.splits)

lemma Permits_iff: "Permits a n \<longleftrightarrow> AllowAll a \<or> n \<in> set (allow_Names a)"
  by (auto simp: Permits_def list_ex_iff)

lemma xor_eq_0_iff: "(x XOR y = 0) = (x = y)" for x y :: "'a::len word"
  by (metis xor.assoc xor.right_neutral xor_self_eq)

lemma prefix4_Contains_high_bits:
  assumes "bits \<le> 32"
  shows "prefix_Contains (Prefix4 net bits) (Addr4 a) \<longleftrightarrow>
         drop_bit (32 - bits) net = drop_bit (32 - bits) a"
proof -
  have "drop_bit (32 - bits) (net XOR a) = drop_bit (32 - bits) net XOR drop_bit (32 - bits) a"
    by simp
  then show ?thesis using assms by (simp add: xor_eq_0_iff)
qed

end
