(* ===== verification/Core_Snapshot.thy ===== *)
theory Core_Snapshot
  imports Core_Identity
begin

text \<open>
  \<open>dataplane/internal/core/snapshot.go\<close>: the layers a worker serves from, the builders that
  validate and index a specification (\<open>NewGlobalLayer\<close>, \<open>NewTenantLayer\<close>), their composition, and
  every reader the request path uses. The invariants \<open>global_wf\<close>, \<open>tenant_wf\<close> and \<open>snapshot_wf\<close>
  say what "a layer that exists is a layer that is coherent" means; the builders establish them.
\<close>

section \<open>Specifications and layers\<close>

record layer_version =
  v_Number :: nat
  v_Digest :: string

record plugin_binding =
  pb_Port :: string
  pb_Component :: string
  pb_Version :: string
  pb_ConfigRef :: string

record global_spec =
  gs_Version :: layer_version
  gs_BuiltAt :: gotime
  gs_Deployments :: "deployment list"
  gs_Aliases :: "model_alias list"
  gs_TenantPrefixes :: "(string, string) gomap"
  gs_DefaultPlugins :: "plugin_binding list"
  gs_PolicyBundleRef :: string
  gs_DefaultGuardrails :: "guardrail_binding list"
  gs_DefaultPolicy :: string

record tenant_spec =
  ts_Tenant :: string
  ts_Version :: layer_version
  ts_BuiltAt :: gotime
  ts_Tier :: string
  ts_Principals :: "principal list"
  ts_Keys :: "(key_lookup, string) gomap"
  ts_AliasOverrides :: "model_alias list"
  ts_Budgets :: "budget_state list"
  ts_Plugins :: "plugin_binding list"
  ts_Guardrails :: "guardrail_binding list"
  ts_Policy :: string
  ts_MinTrustTier :: trust_tier

record global_layer =
  gl_version :: layer_version
  gl_builtAt :: gotime
  gl_deployments :: "(string, deployment) gomap"
  gl_shadows :: "(string, deployment list) gomap"
  gl_byRoute :: "(routing_key, deployment list) gomap"
  gl_aliases :: "(string, model_alias) gomap"
  gl_tenantByPrefix :: "(string, string) gomap"
  gl_plugins :: "(string, plugin_binding) gomap"
  gl_guardrails :: "guardrail_binding list"
  gl_policy :: string
  gl_policyBundleRef :: string

record tenant_layer =
  tl_tenant :: string
  tl_version :: layer_version
  tl_builtAt :: gotime
  tl_tier :: string
  tl_principals :: "(string, principal) gomap"
  tl_keys :: "(key_lookup, string) gomap"
  tl_aliases :: "(string, model_alias) gomap"
  tl_budgets :: "(string, budget_state) gomap"
  tl_plugins :: "(string, plugin_binding) gomap"
  tl_guardrails :: "guardrail_binding list"
  tl_policy :: string
  tl_minTrustTier :: trust_tier

record snapshot =
  sn_global :: global_layer
  sn_tenants :: "(string, tenant_layer) gomap"

definition layer_version_String :: "layer_version \<Rightarrow> string" where
  "layer_version_String v = format_nat (v_Number v) @ ''@'' @ v_Digest v"

section \<open>Building the global layer\<close>

abbreviation invalid :: "string \<Rightarrow> msg_arg list \<Rightarrow> go_error" where
  "invalid fmt args \<equiv> err_Newf CodeInvalidRequest fmt args"

text \<open>The body of the loop over deployments: the checks in the order of the source, then the three indexes.\<close>

definition check_deployment :: "global_layer \<Rightarrow> deployment \<Rightarrow> go_error option" where
  "check_deployment g d =
     (if dep_ID d = '''' then Some (err_New CodeInvalidRequest ''deployment has an empty id'')
      else if map_of (gl_deployments g) (dep_ID d) \<noteq> None
        then Some (invalid ''duplicate deployment id %q'' [AStr (dep_ID d)])
      else if BaseModel (dep_Key d) = ''''
        then Some (invalid ''deployment %q has no base model'' [AStr (dep_ID d)])
      else if \<not> tier_Valid (dep_TrustTier d)
        then Some (invalid ''deployment %q has an unset trust tier'' [AStr (dep_ID d)])
      else if dep_Weight d > 100
        then Some (invalid ''deployment %q weight %d exceeds 100'' [AStr (dep_ID d), AInt (int (dep_Weight d))])
      else if dep_ShadowPercent d > 100
        then Some (invalid ''deployment %q shadows %d%% of traffic, which is more than there is''
                     [AStr (dep_ID d), AInt (int (dep_ShadowPercent d))])
      else if dep_ShadowPercent d > 0 \<and> \<not> IsAdapter (dep_Key d)
        then Some (invalid ''deployment %q is not an adapter and cannot shadow'' [AStr (dep_ID d)])
      else None)"

definition index_deployment :: "global_layer \<Rightarrow> deployment \<Rightarrow> global_layer" where
  "index_deployment g d =
     g\<lparr>gl_deployments := AList.update (dep_ID d) d (gl_deployments g),
       gl_byRoute := AList.update (dep_Key d) (gomap_get [] (gl_byRoute g) (dep_Key d) @ [d]) (gl_byRoute g),
       gl_shadows := (if Shadowing d
          then AList.update (BaseModel (dep_Key d))
                 (gomap_get [] (gl_shadows g) (BaseModel (dep_Key d)) @ [d]) (gl_shadows g)
          else gl_shadows g)\<rparr>"

definition add_deployment :: "global_layer \<Rightarrow> deployment \<Rightarrow> go_error + global_layer" where
  "add_deployment g d = (case check_deployment g d of Some e \<Rightarrow> Inl e | None \<Rightarrow> Inr (index_deployment g d))"

definition validateAlias :: "model_alias \<Rightarrow> (routing_key, deployment list) gomap \<Rightarrow> go_error option" where
  "validateAlias a routes =
     (if alias_Name a = '''' then Some (err_New CodeInvalidRequest ''alias has an empty name'')
      else if alias_Targets a = [] then Some (invalid ''alias %q has no targets'' [AStr (alias_Name a)])
      else (case filter (\<lambda>t. gomap_get [] routes t = []) (alias_Targets a) of
          [] \<Rightarrow> None
        | t # _ \<Rightarrow> Some (invalid ''alias %q targets %q, which has no deployment''
                           [AStr (alias_Name a), AStr (routing_key_String t)])))"

definition add_alias :: "global_layer \<Rightarrow> model_alias \<Rightarrow> go_error + global_layer" where
  "add_alias g a =
     (case validateAlias a (gl_byRoute g) of
        Some e \<Rightarrow> Inl e
      | None \<Rightarrow> Inr (g\<lparr>gl_aliases := AList.update (alias_Name a) a (gl_aliases g)\<rparr>))"

definition add_plugin :: "global_layer \<Rightarrow> plugin_binding \<Rightarrow> go_error + global_layer" where
  "add_plugin g p =
     (if map_of (gl_plugins g) (pb_Port p) \<noteq> None
      then Inl (invalid ''two default plugins bound to port %q'' [AStr (pb_Port p)])
      else Inr (g\<lparr>gl_plugins := AList.update (pb_Port p) p (gl_plugins g)\<rparr>))"

definition empty_global :: "global_spec \<Rightarrow> global_layer" where
  "empty_global spec =
     \<lparr>gl_version = gs_Version spec, gl_builtAt = gs_BuiltAt spec, gl_deployments = [],
      gl_shadows = [], gl_byRoute = [], gl_aliases = [], gl_tenantByPrefix = gs_TenantPrefixes spec,
      gl_plugins = [], gl_guardrails = gs_DefaultGuardrails spec, gl_policy = gs_DefaultPolicy spec,
      gl_policyBundleRef = gs_PolicyBundleRef spec\<rparr>"

definition NewGlobalLayer :: "global_spec \<Rightarrow> go_error + global_layer" where
  "NewGlobalLayer spec =
     (if v_Number (gs_Version spec) = 0
      then Inl (err_New CodeInvalidRequest ''global layer version must be non-zero'')
      else (case loop_err add_deployment (empty_global spec) (gs_Deployments spec) of
          Inl e \<Rightarrow> Inl e
        | Inr g1 \<Rightarrow> (case loop_err add_alias g1 (gs_Aliases spec) of
            Inl e \<Rightarrow> Inl e
          | Inr g2 \<Rightarrow> loop_err add_plugin g2 (gs_DefaultPlugins spec))))"

section \<open>Building a tenant layer\<close>

definition add_budget :: "tenant_layer \<Rightarrow> budget_state \<Rightarrow> go_error + tenant_layer" where
  "add_budget t b =
     (if bud_ID b = '''' then Inl (invalid ''tenant %q has a budget with no id'' [AStr (tl_tenant t)])
      else if int (HeadroomBasisPoints b) > basisPointsPerUnit
        then Inl (invalid ''budget %q headroom exceeds 100%%'' [AStr (bud_ID b)])
      else Inr (t\<lparr>tl_budgets := AList.update (bud_ID b) b (tl_budgets t)\<rparr>))"

definition add_principal :: "tenant_layer \<Rightarrow> principal \<Rightarrow> go_error + tenant_layer" where
  "add_principal t p =
     (if p_KeyID p = '''' then Inl (invalid ''tenant %q has a principal with no key id'' [AStr (tl_tenant t)])
      else if p_Tenant p \<noteq> tl_tenant t
        then Inl (invalid ''principal %q belongs to tenant %q, not %q''
                    [AStr (p_KeyID p), AStr (p_Tenant p), AStr (tl_tenant t)])
      else (case filter (\<lambda>ref. map_of (tl_budgets t) (ref_ID ref) = None) (p_Budgets p) of
          ref # _ \<Rightarrow> Inl (invalid ''principal %q references unknown budget %q''
                            [AStr (p_KeyID p), AStr (ref_ID ref)])
        | [] \<Rightarrow> Inr (t\<lparr>tl_principals := AList.update (p_KeyID p) p (tl_principals t)\<rparr>)))"

definition check_keys :: "tenant_layer \<Rightarrow> go_error option" where
  "check_keys t =
     (case filter (\<lambda>(_, keyID). map_of (tl_principals t) keyID = None) (tl_keys t) of
        [] \<Rightarrow> None
      | (_, keyID) # _ \<Rightarrow> Some (invalid ''tenant %q maps a key to unknown principal %q''
                                  [AStr (tl_tenant t), AStr keyID]))"

definition add_override :: "tenant_layer \<Rightarrow> model_alias \<Rightarrow> go_error + tenant_layer" where
  "add_override t a =
     (if alias_Name a = '''' \<or> alias_Targets a = []
      then Inl (invalid ''tenant %q has a malformed alias override'' [AStr (tl_tenant t)])
      else Inr (t\<lparr>tl_aliases := AList.update (alias_Name a) a (tl_aliases t)\<rparr>))"

definition add_tenant_plugin :: "tenant_layer \<Rightarrow> plugin_binding \<Rightarrow> go_error + tenant_layer" where
  "add_tenant_plugin t p =
     (if map_of (tl_plugins t) (pb_Port p) \<noteq> None
      then Inl (invalid ''tenant %q binds two plugins to port %q'' [AStr (tl_tenant t), AStr (pb_Port p)])
      else Inr (t\<lparr>tl_plugins := AList.update (pb_Port p) p (tl_plugins t)\<rparr>))"

definition empty_tenant :: "tenant_spec \<Rightarrow> tenant_layer" where
  "empty_tenant spec =
     \<lparr>tl_tenant = ts_Tenant spec, tl_version = ts_Version spec, tl_builtAt = ts_BuiltAt spec,
      tl_tier = ts_Tier spec, tl_principals = [], tl_keys = ts_Keys spec, tl_aliases = [],
      tl_budgets = [], tl_plugins = [], tl_guardrails = ts_Guardrails spec,
      tl_policy = ts_Policy spec, tl_minTrustTier = ts_MinTrustTier spec\<rparr>"

definition NewTenantLayer :: "tenant_spec \<Rightarrow> go_error + tenant_layer" where
  "NewTenantLayer spec =
     (if ts_Tenant spec = '''' then Inl (err_New CodeInvalidRequest ''tenant layer has no tenant id'')
      else if v_Number (ts_Version spec) = 0
        then Inl (invalid ''tenant %q layer version must be non-zero'' [AStr (ts_Tenant spec)])
      else (case loop_err add_budget (empty_tenant spec) (ts_Budgets spec) of
          Inl e \<Rightarrow> Inl e
        | Inr t1 \<Rightarrow> (case loop_err add_principal t1 (ts_Principals spec) of
            Inl e \<Rightarrow> Inl e
          | Inr t2 \<Rightarrow> (case check_keys t2 of
              Some e \<Rightarrow> Inl e
            | None \<Rightarrow> (case loop_err add_override t2 (ts_AliasOverrides spec) of
                Inl e \<Rightarrow> Inl e
              | Inr t3 \<Rightarrow> loop_err add_tenant_plugin t3 (ts_Plugins spec))))))"

section \<open>Composition\<close>

text \<open>Layers are pointers in the source; None is nil.\<close>

definition join_tenant ::
  "(string, tenant_layer) gomap \<Rightarrow> tenant_layer option \<Rightarrow> go_error + (string, tenant_layer) gomap" where
  "join_tenant byTenant t =
     (case t of
        None \<Rightarrow> Inl (err_New CodeInvalidRequest ''snapshot contains a nil tenant layer'')
      | Some l \<Rightarrow>
          if map_of byTenant (tl_tenant l) \<noteq> None
          then Inl (invalid ''two layers for tenant %q'' [AStr (tl_tenant l)])
          else Inr (AList.update (tl_tenant l) l byTenant))"

definition Compose :: "global_layer option \<Rightarrow> tenant_layer option list \<Rightarrow> go_error + snapshot" where
  "Compose global tenants =
     (case global of
        None \<Rightarrow> Inl (err_New CodeInvalidRequest ''snapshot needs a global layer'')
      | Some g \<Rightarrow> (case loop_err join_tenant [] tenants of
          Inl e \<Rightarrow> Inl e
        | Inr byTenant \<Rightarrow>
            (case filter (\<lambda>tenant. tenant \<notin> set (map snd (gl_tenantByPrefix g))) (gomap_keys byTenant) of
               tenant # _ \<Rightarrow> Inl (invalid ''tenant %q has a layer but no key prefix routes to it'' [AStr tenant])
             | [] \<Rightarrow> Inr \<lparr>sn_global = g, sn_tenants = byTenant\<rparr>)))"

definition WithTenantLayer :: "snapshot \<Rightarrow> tenant_layer option \<Rightarrow> go_error + snapshot" where
  "WithTenantLayer s layer =
     (case layer of
        None \<Rightarrow> Inl (err_New CodeInvalidRequest ''nil tenant layer'')
      | Some l \<Rightarrow> Inr (s\<lparr>sn_tenants := AList.update (tl_tenant l) l (sn_tenants s)\<rparr>))"

definition WithGlobalLayer :: "snapshot \<Rightarrow> global_layer option \<Rightarrow> go_error + snapshot" where
  "WithGlobalLayer s global = Compose global (map (\<lambda>(_, t). Some t) (sn_tenants s))"

section \<open>Readers\<close>

definition GlobalVersion :: "snapshot \<Rightarrow> layer_version" where
  "GlobalVersion s = gl_version (sn_global s)"

definition TenantVersion :: "snapshot \<Rightarrow> string \<Rightarrow> layer_version option" where
  "TenantVersion s tenant = map_option tl_version (map_of (sn_tenants s) tenant)"

definition TenantIDs :: "snapshot \<Rightarrow> string list" where
  "TenantIDs s = gomap_keys (sn_tenants s)"

definition DeploymentIDs :: "snapshot \<Rightarrow> string list" where
  "DeploymentIDs s = gomap_keys (gl_deployments (sn_global s))"

definition TenantForPrefix :: "snapshot \<Rightarrow> string \<Rightarrow> string option" where
  "TenantForPrefix s prefix = map_of (gl_tenantByPrefix (sn_global s)) prefix"

definition snap_Principal :: "snapshot \<Rightarrow> string \<Rightarrow> key_lookup \<Rightarrow> principal option" where
  "snap_Principal s tenant lookup =
     (case map_of (sn_tenants s) tenant of
        None \<Rightarrow> None
      | Some layer \<Rightarrow> (case map_of (tl_keys layer) lookup of
          None \<Rightarrow> None
        | Some keyID \<Rightarrow> map_of (tl_principals layer) keyID))"

definition snap_Tier :: "snapshot \<Rightarrow> string \<Rightarrow> string" where
  "snap_Tier s tenant =
     (case map_of (sn_tenants s) tenant of Some layer \<Rightarrow> tl_tier layer | None \<Rightarrow> ''unknown'')"

definition snap_MinTrustTier :: "snapshot \<Rightarrow> string \<Rightarrow> trust_tier" where
  "snap_MinTrustTier s tenant =
     (case map_of (sn_tenants s) tenant of Some layer \<Rightarrow> tl_minTrustTier layer | None \<Rightarrow> TrustInternal)"

definition ResolveAlias :: "snapshot \<Rightarrow> string \<Rightarrow> string \<Rightarrow> routing_key list" where
  "ResolveAlias s tenant name =
     (case Option.bind (map_of (sn_tenants s) tenant) (\<lambda>layer. map_of (tl_aliases layer) name) of
        Some a \<Rightarrow> alias_Targets a
      | None \<Rightarrow> (case map_of (gl_aliases (sn_global s)) name of
          Some a \<Rightarrow> alias_Targets a
        | None \<Rightarrow> [\<lparr>BaseModel = name, AdapterID = ''''\<rparr>]))"

definition snap_Deployments :: "snapshot \<Rightarrow> routing_key \<Rightarrow> deployment list" where
  "snap_Deployments s key = gomap_get [] (gl_byRoute (sn_global s)) key"

definition snap_Shadows :: "snapshot \<Rightarrow> string \<Rightarrow> deployment list" where
  "snap_Shadows s baseModel = gomap_get [] (gl_shadows (sn_global s)) baseModel"

definition snap_Deployment :: "snapshot \<Rightarrow> string \<Rightarrow> deployment option" where
  "snap_Deployment s i = map_of (gl_deployments (sn_global s)) i"

definition snap_PluginBinding :: "snapshot \<Rightarrow> string \<Rightarrow> string \<Rightarrow> plugin_binding option" where
  "snap_PluginBinding s tenant port =
     (case Option.bind (map_of (sn_tenants s) tenant) (\<lambda>layer. map_of (tl_plugins layer) port) of
        Some b \<Rightarrow> Some b
      | None \<Rightarrow> map_of (gl_plugins (sn_global s)) port)"

definition snap_Guardrails :: "snapshot \<Rightarrow> string \<Rightarrow> phase \<Rightarrow> guardrail_binding list" where
  "snap_Guardrails s tenant ph =
     filter (\<lambda>b. Inspects b ph)
       (case map_of (sn_tenants s) tenant of
          Some layer \<Rightarrow> if tl_guardrails layer \<noteq> [] then tl_guardrails layer else gl_guardrails (sn_global s)
        | None \<Rightarrow> gl_guardrails (sn_global s))"

definition AllGuardrails :: "snapshot \<Rightarrow> guardrail_binding list" where
  "AllGuardrails s = gl_guardrails (sn_global s) @ concat (map (\<lambda>(_, l). tl_guardrails l) (sn_tenants s))"

definition snap_Policy :: "snapshot \<Rightarrow> string \<Rightarrow> string" where
  "snap_Policy s tenant =
     (case map_of (sn_tenants s) tenant of
        Some layer \<Rightarrow> if tl_policy layer \<noteq> '''' then tl_policy layer else gl_policy (sn_global s)
      | None \<Rightarrow> gl_policy (sn_global s))"

definition snap_Budget :: "snapshot \<Rightarrow> string \<Rightarrow> string \<Rightarrow> budget_state option" where
  "snap_Budget s tenant i =
     Option.bind (map_of (sn_tenants s) tenant) (\<lambda>layer. map_of (tl_budgets layer) i)"

fun first_denied :: "snapshot \<Rightarrow> string \<Rightarrow> budget_ref list \<Rightarrow> budget_state option" where
  "first_denied s tenant [] = None"
| "first_denied s tenant (ref # refs) =
     (case snap_Budget s tenant (ref_ID ref) of
        None \<Rightarrow> first_denied s tenant refs
      | Some b \<Rightarrow> if Denies b then Some b else first_denied s tenant refs)"

definition DeniedBudget :: "snapshot \<Rightarrow> principal \<Rightarrow> budget_state option" where
  "DeniedBudget s p = first_denied s (p_Tenant p) (p_Budgets p)"

section \<open>Invariants\<close>

definition deployment_ok :: "deployment \<Rightarrow> bool" where
  "deployment_ok d =
     (dep_ID d \<noteq> '''' \<and> BaseModel (dep_Key d) \<noteq> '''' \<and> dep_TrustTier d \<noteq> TrustUnset \<and>
      dep_Weight d \<le> 100 \<and> dep_ShadowPercent d \<le> 100 \<and> (dep_ShadowPercent d > 0 \<longrightarrow> IsAdapter (dep_Key d)))"

text \<open>The three indexes of a global layer agree with one list of deployments, in catalog order.\<close>

definition indexes :: "deployment list \<Rightarrow> global_layer \<Rightarrow> bool" where
  "indexes ds g =
     (list_all deployment_ok ds \<and> distinct (map dep_ID ds) \<and>
      (\<forall>i. map_of (gl_deployments g) i = find (\<lambda>d. dep_ID d = i) ds) \<and>
      (\<forall>k. gomap_get [] (gl_byRoute g) k = filter (\<lambda>d. dep_Key d = k) ds) \<and>
      (\<forall>m. gomap_get [] (gl_shadows g) m = filter (\<lambda>d. Shadowing d \<and> BaseModel (dep_Key d) = m) ds))"

definition global_wf :: "deployment list \<Rightarrow> global_layer \<Rightarrow> bool" where
  "global_wf ds g =
     (indexes ds g \<and>
      (\<forall>n a. map_of (gl_aliases g) n = Some a \<longrightarrow>
         alias_Name a = n \<and> n \<noteq> '''' \<and> alias_Targets a \<noteq> [] \<and>
         (\<forall>t \<in> set (alias_Targets a). \<exists>d \<in> set ds. dep_Key d = t)))"

definition tenant_wf :: "tenant_layer \<Rightarrow> bool" where
  "tenant_wf t =
     (tl_tenant t \<noteq> '''' \<and> v_Number (tl_version t) \<noteq> 0 \<and>
      (\<forall>i b. map_of (tl_budgets t) i = Some b \<longrightarrow> bud_ID b = i \<and> HeadroomBasisPoints b \<le> 10000) \<and>
      (\<forall>k p. map_of (tl_principals t) k = Some p \<longrightarrow>
         p_KeyID p = k \<and> p_Tenant p = tl_tenant t \<and>
         (\<forall>r \<in> set (p_Budgets p). map_of (tl_budgets t) (ref_ID r) \<noteq> None)) \<and>
      (\<forall>l k. map_of (tl_keys t) l = Some k \<longrightarrow> map_of (tl_principals t) k \<noteq> None) \<and>
      (\<forall>n a. map_of (tl_aliases t) n = Some a \<longrightarrow> alias_Targets a \<noteq> []))"

definition tenants_wf :: "(string, tenant_layer) gomap \<Rightarrow> bool" where
  "tenants_wf m = (gomap_wf m \<and> (\<forall>i t. map_of m i = Some t \<longrightarrow> tl_tenant t = i \<and> tenant_wf t))"

definition routed :: "snapshot \<Rightarrow> bool" where
  "routed s = (\<forall>i \<in> set (gomap_keys (sn_tenants s)). i \<in> snd ` set (gl_tenantByPrefix (sn_global s)))"

definition snapshot_wf :: "snapshot \<Rightarrow> bool" where
  "snapshot_wf s = ((\<exists>ds. global_wf ds (sn_global s)) \<and> tenants_wf (sn_tenants s))"

section \<open>The builders establish the invariants\<close>

lemma check_deployment_None:
  "check_deployment g d = None \<longleftrightarrow> deployment_ok d \<and> map_of (gl_deployments g) (dep_ID d) = None"
  by (auto simp: check_deployment_def deployment_ok_def tier_Valid_iff)

lemma add_deployment_Inr:
  "add_deployment g d = Inr g' \<longleftrightarrow>
   deployment_ok d \<and> map_of (gl_deployments g) (dep_ID d) = None \<and> g' = index_deployment g d"
  using check_deployment_None[of g d] by (auto simp: add_deployment_def split: option.splits)

lemma find_snoc: "find P (xs @ [x]) = (case find P xs of Some y \<Rightarrow> Some y | None \<Rightarrow> if P x then Some x else None)"
  by (induction xs) auto

lemma index_deployment_indexes:
  assumes "indexes ds g" "deployment_ok d" "map_of (gl_deployments g) (dep_ID d) = None"
  shows "indexes (ds @ [d]) (index_deployment g d)"
proof -
  from assms have none: "find (\<lambda>x. dep_ID x = dep_ID d) ds = None"
    by (simp add: indexes_def)
  then have new: "dep_ID d \<notin> dep_ID ` set ds" by (auto simp: find_None_iff)
  have 1: "map_of (gl_deployments (index_deployment g d)) i = find (\<lambda>x. dep_ID x = i) (ds @ [d])" for i
    using assms(1) none by (auto simp: indexes_def index_deployment_def find_snoc split: option.splits)
  have 2: "gomap_get [] (gl_byRoute (index_deployment g d)) k = filter (\<lambda>x. dep_Key x = k) (ds @ [d])" for k
    using assms(1) by (simp add: indexes_def index_deployment_def)
  have 3: "gomap_get [] (gl_shadows (index_deployment g d)) m
           = filter (\<lambda>x. Shadowing x \<and> BaseModel (dep_Key x) = m) (ds @ [d])" for m
    using assms(1) by (simp add: indexes_def index_deployment_def)
  from assms new 1 2 3 show ?thesis unfolding indexes_def by auto
qed

lemma add_deployments_indexes:
  assumes "loop_err add_deployment (empty_global spec) ds = Inr g"
  shows "indexes ds g \<and> gl_aliases g = [] \<and> gl_tenantByPrefix g = gs_TenantPrefixes spec"
  using assms
proof (rule loop_err_invariant[where
      I = "\<lambda>done g. indexes done g \<and> gl_aliases g = [] \<and> gl_tenantByPrefix g = gs_TenantPrefixes spec"])
  show "indexes [] (empty_global spec) \<and> gl_aliases (empty_global spec) = [] \<and>
        gl_tenantByPrefix (empty_global spec) = gs_TenantPrefixes spec"
    by (simp add: indexes_def empty_global_def)
next
  fix before d rest g g'
  assume I: "indexes before g \<and> gl_aliases g = [] \<and> gl_tenantByPrefix g = gs_TenantPrefixes spec"
    and "add_deployment g d = Inr g'"
  then have d: "deployment_ok d" "map_of (gl_deployments g) (dep_ID d) = None" "g' = index_deployment g d"
    by (auto simp: add_deployment_Inr)
  from I d(1,2) index_deployment_indexes have "indexes (before @ [d]) g'"
    unfolding d(3) by blast
  with I show "indexes (before @ [d]) g' \<and> gl_aliases g' = [] \<and> gl_tenantByPrefix g' = gs_TenantPrefixes spec"
    by (simp add: d(3) index_deployment_def)
qed

lemma validateAlias_None:
  "validateAlias a routes = None \<longleftrightarrow>
   alias_Name a \<noteq> '''' \<and> alias_Targets a \<noteq> [] \<and> (\<forall>t \<in> set (alias_Targets a). gomap_get [] routes t \<noteq> [])"
proof -
  have "(\<forall>t \<in> set (alias_Targets a). gomap_get [] routes t \<noteq> []) \<longleftrightarrow>
        filter (\<lambda>t. gomap_get [] routes t = []) (alias_Targets a) = []"
    by (simp add: filter_empty_conv)
  then show ?thesis by (simp add: validateAlias_def split: list.split)
qed

lemma indexes_route_nonempty:
  "indexes ds g \<Longrightarrow> gomap_get [] (gl_byRoute g) k \<noteq> [] \<longleftrightarrow> (\<exists>d \<in> set ds. dep_Key d = k)"
  by (auto simp: indexes_def filter_empty_conv)

lemma add_alias_global_wf:
  assumes "global_wf ds g" "add_alias g a = Inr g'"
  shows "global_wf ds g' \<and> gl_tenantByPrefix g' = gl_tenantByPrefix g"
proof -
  from assms(2) have ok: "validateAlias a (gl_byRoute g) = None"
    and g': "g' = g\<lparr>gl_aliases := AList.update (alias_Name a) a (gl_aliases g)\<rparr>"
    by (auto simp: add_alias_def split: option.splits)
  have ix: "indexes ds g" using assms(1) by (simp add: global_wf_def)
  then have "indexes ds g'" by (simp add: g' indexes_def)
  moreover have "\<forall>t \<in> set (alias_Targets a). \<exists>d \<in> set ds. dep_Key d = t"
    using ok indexes_route_nonempty[OF ix] by (auto simp: validateAlias_None)
  ultimately show ?thesis
    using assms(1) ok by (auto simp: global_wf_def g' validateAlias_None)
qed

lemma add_plugin_global_wf:
  assumes "global_wf ds g" "add_plugin g p = Inr g'"
  shows "global_wf ds g' \<and> gl_tenantByPrefix g' = gl_tenantByPrefix g"
proof -
  from assms(2) have "g' = g\<lparr>gl_plugins := AList.update (pb_Port p) p (gl_plugins g)\<rparr>"
    by (simp add: add_plugin_def split: if_splits)
  with assms(1) show ?thesis by (simp add: global_wf_def indexes_def)
qed

lemma NewGlobalLayer_wf:
  assumes "NewGlobalLayer spec = Inr g"
  shows "global_wf (gs_Deployments spec) g \<and> gl_tenantByPrefix g = gs_TenantPrefixes spec"
proof -
  let ?I = "\<lambda>g. global_wf (gs_Deployments spec) g \<and> gl_tenantByPrefix g = gs_TenantPrefixes spec"
  from assms obtain g1 g2
    where 1: "loop_err add_deployment (empty_global spec) (gs_Deployments spec) = Inr g1"
      and 2: "loop_err add_alias g1 (gs_Aliases spec) = Inr g2"
      and 3: "loop_err add_plugin g2 (gs_DefaultPlugins spec) = Inr g"
    by (auto simp: NewGlobalLayer_def split: if_splits sum.splits)
  have "?I g1" using add_deployments_indexes[OF 1] by (simp add: global_wf_def)
  with 2 have "?I g2"
    by (rule loop_err_invariant[where I = "\<lambda>_. ?I"]) (use add_alias_global_wf in metis)
  with 3 show ?thesis
    by (rule loop_err_invariant[where I = "\<lambda>_. ?I"]) (use add_plugin_global_wf in metis)
qed

text \<open>A tenant layer under construction satisfies everything but the key check.\<close>

definition tenant_pre :: "tenant_layer \<Rightarrow> bool" where
  "tenant_pre t =
     (tl_tenant t \<noteq> '''' \<and> v_Number (tl_version t) \<noteq> 0 \<and>
      (\<forall>i b. map_of (tl_budgets t) i = Some b \<longrightarrow> bud_ID b = i \<and> HeadroomBasisPoints b \<le> 10000) \<and>
      (\<forall>k p. map_of (tl_principals t) k = Some p \<longrightarrow>
         p_KeyID p = k \<and> p_Tenant p = tl_tenant t \<and>
         (\<forall>r \<in> set (p_Budgets p). map_of (tl_budgets t) (ref_ID r) \<noteq> None)) \<and>
      (\<forall>n a. map_of (tl_aliases t) n = Some a \<longrightarrow> alias_Targets a \<noteq> []))"

lemma add_budget_pre:
  assumes "tenant_pre t" "tl_principals t = []" "add_budget t b = Inr t'"
  shows "tenant_pre t' \<and> tl_principals t' = []"
  using assms by (auto simp: add_budget_def tenant_pre_def basisPointsPerUnit_def split: if_splits)

lemma add_principal_pre:
  assumes "tenant_pre t" "add_principal t p = Inr t'"
  shows "tenant_pre t'"
proof -
  from assms(2) have p: "p_KeyID p \<noteq> ''''" "p_Tenant p = tl_tenant t"
    "\<forall>r \<in> set (p_Budgets p). map_of (tl_budgets t) (ref_ID r) \<noteq> None"
    and t': "t' = t\<lparr>tl_principals := AList.update (p_KeyID p) p (tl_principals t)\<rparr>"
    by (auto simp: add_principal_def filter_empty_conv split: if_splits list.splits)
  from assms(1) p show ?thesis by (auto simp: tenant_pre_def t')
qed

lemma add_override_wf:
  assumes "tenant_wf t" "add_override t a = Inr t'" shows "tenant_wf t'"
  using assms by (auto simp: add_override_def tenant_wf_def split: if_splits)

lemma add_tenant_plugin_wf:
  assumes "tenant_wf t" "add_tenant_plugin t p = Inr t'" shows "tenant_wf t'"
  using assms by (auto simp: add_tenant_plugin_def tenant_wf_def split: if_splits)

lemma check_keys_None:
  assumes "check_keys t = None" "map_of (tl_keys t) l = Some k"
  shows "map_of (tl_principals t) k \<noteq> None"
  using assms map_of_SomeD[OF assms(2)]
  by (auto simp: check_keys_def filter_empty_conv split: list.splits)

lemma NewTenantLayer_wf:
  assumes "NewTenantLayer spec = Inr t"
  shows "tenant_wf t"
proof -
  from assms obtain t1 t2 t3
    where ne: "ts_Tenant spec \<noteq> ''''" "v_Number (ts_Version spec) \<noteq> 0"
      and 1: "loop_err add_budget (empty_tenant spec) (ts_Budgets spec) = Inr t1"
      and 2: "loop_err add_principal t1 (ts_Principals spec) = Inr t2"
      and k: "check_keys t2 = None"
      and 3: "loop_err add_override t2 (ts_AliasOverrides spec) = Inr t3"
      and 4: "loop_err add_tenant_plugin t3 (ts_Plugins spec) = Inr t"
    by (auto simp: NewTenantLayer_def split: if_splits sum.splits option.splits)
  have "tenant_pre (empty_tenant spec) \<and> tl_principals (empty_tenant spec) = []"
    using ne by (simp add: tenant_pre_def empty_tenant_def)
  with 1 have "tenant_pre t1 \<and> tl_principals t1 = []"
    by (rule loop_err_invariant[where I = "\<lambda>_ t. tenant_pre t \<and> tl_principals t = []"])
       (use add_budget_pre in blast)
  then have "tenant_pre t1" ..
  with 2 have "tenant_pre t2"
    by (rule loop_err_invariant[where I = "\<lambda>_. tenant_pre"]) (use add_principal_pre in blast)
  with check_keys_None[OF k] have "tenant_wf t2"
    by (simp add: tenant_wf_def tenant_pre_def)
  with 3 have "tenant_wf t3"
    by (rule loop_err_invariant[where I = "\<lambda>_. tenant_wf"]) (use add_override_wf in blast)
  with 4 show ?thesis
    by (rule loop_err_invariant[where I = "\<lambda>_. tenant_wf"]) (use add_tenant_plugin_wf in blast)
qed

section \<open>Composition keeps the invariants\<close>

lemma join_tenant_Inr:
  "join_tenant m t = Inr m' \<longleftrightarrow>
   (\<exists>l. t = Some l \<and> map_of m (tl_tenant l) = None \<and> m' = AList.update (tl_tenant l) l m)"
  by (auto simp: join_tenant_def split: option.splits)

lemma join_tenants_map_of:
  assumes "loop_err join_tenant [] ts = Inr m"
  shows "gomap_wf m \<and> (\<forall>i l. map_of m i = Some l \<longleftrightarrow> Some l \<in> set ts \<and> tl_tenant l = i)"
  using assms
proof (rule loop_err_invariant[where
      I = "\<lambda>done m. gomap_wf m \<and> (\<forall>i l. map_of m i = Some l \<longleftrightarrow> Some l \<in> set done \<and> tl_tenant l = i)"])
  fix before t rest m m'
  assume I: "gomap_wf m \<and> (\<forall>i l. map_of m i = Some l \<longleftrightarrow> Some l \<in> set before \<and> tl_tenant l = i)"
    and "join_tenant m t = Inr m'"
  then obtain k where t: "t = Some k" and new: "map_of m (tl_tenant k) = None"
    and m': "m' = AList.update (tl_tenant k) k m"
    by (auto simp: join_tenant_Inr)
  from I new have "Some l \<in> set before \<Longrightarrow> tl_tenant l \<noteq> tl_tenant k" for l
    by (metis option.distinct(1))
  with I show "gomap_wf m' \<and> (\<forall>i l. map_of m' i = Some l \<longleftrightarrow> Some l \<in> set (before @ [t]) \<and> tl_tenant l = i)"
    by (auto simp: t m')
qed simp

lemma join_tenants_ok:
  assumes "distinct (map tl_tenant ls)" "\<forall>l \<in> set ls. map_of m0 (tl_tenant l) = None"
  shows "\<exists>m. loop_err join_tenant m0 (map Some ls) = Inr m"
  using assms
proof (induction ls arbitrary: m0)
  case (Cons l ls)
  then have "join_tenant m0 (Some l) = Inr (AList.update (tl_tenant l) l m0)"
    by (simp add: join_tenant_def)
  moreover have "\<exists>m. loop_err join_tenant (AList.update (tl_tenant l) l m0) (map Some ls) = Inr m"
    using Cons.prems by (intro Cons.IH) (auto, metis imageI)
  ultimately show ?case by auto
qed simp

lemma Compose_Inr:
  assumes "Compose (Some g) ts = Inr s"
  obtains "sn_global s = g" "loop_err join_tenant [] ts = Inr (sn_tenants s)" "routed s"
  using assms
  by (auto simp: Compose_def routed_def filter_empty_conv split: sum.splits list.splits)

lemma Compose_wf:
  assumes "Compose (Some g) ts = Inr s" "global_wf ds g" "\<forall>l. Some l \<in> set ts \<longrightarrow> tenant_wf l"
  shows "snapshot_wf s \<and> routed s \<and> sn_global s = g"
proof -
  from assms(1) have s: "sn_global s = g" "loop_err join_tenant [] ts = Inr (sn_tenants s)" "routed s"
    by (auto elim: Compose_Inr)
  from join_tenants_map_of[OF s(2)] assms(3) have "tenants_wf (sn_tenants s)"
    by (auto simp: tenants_wf_def)
  with assms(2) s show ?thesis by (auto simp: snapshot_wf_def)
qed

lemma tenants_wf_distinct_names:
  assumes "tenants_wf m" shows "map tl_tenant (map snd m) = gomap_keys m"
  using assms by (auto simp: tenants_wf_def)

lemma tenants_wf_map_Some: "map (\<lambda>(_, t). Some t) m = map Some (map snd m)"
  by (simp add: case_prod_beta)

lemma WithGlobalLayer_iff:
  assumes "tenants_wf (sn_tenants s)"
  shows "(\<exists>s'. WithGlobalLayer s (Some g) = Inr s') \<longleftrightarrow>
         (\<forall>i \<in> set (TenantIDs s). i \<in> snd ` set (gl_tenantByPrefix g))"
proof -
  let ?ts = "map (\<lambda>(_, t). Some t) (sn_tenants s)"
  have names: "map tl_tenant (map snd (sn_tenants s)) = gomap_keys (sn_tenants s)"
    using assms by (rule tenants_wf_distinct_names)
  then have "distinct (map tl_tenant (map snd (sn_tenants s)))"
    using assms by (metis tenants_wf_def)
  then obtain m where m: "loop_err join_tenant [] ?ts = Inr m"
    using join_tenants_ok[of "map snd (sn_tenants s)" "[]"] by (auto simp: tenants_wf_map_Some)
  have "set (gomap_keys m) = set (gomap_keys (sn_tenants s))"
  proof -
    have dom: "i \<in> set (gomap_keys m) \<longleftrightarrow> (\<exists>l. Some l \<in> set ?ts \<and> tl_tenant l = i)" for i
      using join_tenants_map_of[OF m] by (simp only: gomap_keys_iff)
    also have "(\<exists>l. Some l \<in> set ?ts \<and> tl_tenant l = i) \<longleftrightarrow> i \<in> set (map tl_tenant (map snd (sn_tenants s)))" for i
      by (force simp: tenants_wf_map_Some)
    finally show ?thesis by (auto simp only: names)
  qed
  moreover have "(\<exists>s'. WithGlobalLayer s (Some g) = Inr s') \<longleftrightarrow>
      filter (\<lambda>tenant. tenant \<notin> set (map snd (gl_tenantByPrefix g))) (gomap_keys m) = []"
    by (simp add: WithGlobalLayer_def Compose_def m split: list.split)
  moreover have "\<dots> \<longleftrightarrow> (\<forall>i \<in> set (gomap_keys m). i \<in> snd ` set (gl_tenantByPrefix g))"
    by (simp only: filter_empty_conv set_map not_not)
  ultimately show ?thesis by (simp add: TenantIDs_def)
qed

section \<open>Readers over a coherent snapshot\<close>

lemma snap_Principal_facts:
  assumes "snapshot_wf s" "snap_Principal s tenant lookup = Some p"
  shows "p_Tenant p = tenant \<and> (\<forall>r \<in> set (p_Budgets p). snap_Budget s tenant (ref_ID r) \<noteq> None)"
proof -
  from assms(2) obtain l k where l: "map_of (sn_tenants s) tenant = Some l"
    and p: "map_of (tl_principals l) k = Some p"
    by (auto simp: snap_Principal_def split: option.splits)
  from assms(1) l have "tl_tenant l = tenant" "tenant_wf l"
    by (auto simp: snapshot_wf_def tenants_wf_def)
  with l p show ?thesis by (auto simp: tenant_wf_def snap_Budget_def)
qed

lemma first_denied_iff:
  assumes "\<forall>r \<in> set refs. snap_Budget s tenant (ref_ID r) \<noteq> None"
  shows "first_denied s tenant refs = None \<longleftrightarrow>
         (\<forall>r \<in> set refs. \<exists>b. snap_Budget s tenant (ref_ID r) = Some b \<and> \<not> Denies b)"
  using assms by (induction refs) (auto split: option.splits)

lemma snap_Deployments_index:
  assumes "global_wf ds (sn_global s)"
  shows "snap_Deployments s k = filter (\<lambda>d. dep_Key d = k) ds"
    and "snap_Shadows s m = filter (\<lambda>d. Shadowing d \<and> BaseModel (dep_Key d) = m) ds"
    and "snap_Deployment s i = find (\<lambda>d. dep_ID d = i) ds"
  using assms by (simp_all add: global_wf_def indexes_def snap_Deployments_def snap_Shadows_def snap_Deployment_def)

lemma snap_Deployments_wf:
  assumes "snapshot_wf s" "d \<in> set (snap_Deployments s k)"
  shows "dep_Key d = k \<and> deployment_ok d \<and> snap_Deployment s (dep_ID d) = Some d"
proof -
  from assms(1) obtain ds where w: "global_wf ds (sn_global s)" by (auto simp: snapshot_wf_def)
  with assms(2) have d: "d \<in> set ds" "dep_Key d = k" by (auto simp: snap_Deployments_index)
  from w have ok: "list_all deployment_ok ds" and dist: "distinct (map dep_ID ds)"
    by (auto simp: global_wf_def indexes_def)
  from d(1) dist have "find (\<lambda>x. dep_ID x = dep_ID d) ds = Some d"
    by (induction ds) auto
  with d ok w show ?thesis by (auto simp: list_all_iff snap_Deployments_index)
qed

lemma ResolveAlias_nonempty:
  assumes "snapshot_wf s" shows "ResolveAlias s tenant name \<noteq> []"
proof -
  have g: "alias_Targets a \<noteq> []" if "map_of (gl_aliases (sn_global s)) name = Some a" for a
    using assms that by (auto simp: snapshot_wf_def global_wf_def)
  have t: "alias_Targets a \<noteq> []"
    if "map_of (sn_tenants s) tenant = Some l" "map_of (tl_aliases l) name = Some a" for l a
  proof -
    from assms that(1) have "tenant_wf l" by (auto simp: snapshot_wf_def tenants_wf_def)
    with that(2) show ?thesis by (auto simp: tenant_wf_def)
  qed
  show ?thesis
    by (auto simp: ResolveAlias_def g t split: option.split bind_splits)
qed

end
