(* ===== verification/Breaker.thy ===== *)
theory Breaker
  imports Core_Snapshot
begin

text \<open>
  \<open>dataplane/internal/router/breaker.go\<close> and \<open>health.go\<close>: the circuit breaker and the health
  score a deployment has. The breaker is a state machine over calls that may come in any order from
  any number of requests; its lemmas are about sequences of calls. Health uses \<open>float64\<close>; here its averages
  are real numbers, so rounding is not modelled.
\<close>

section \<open>The breaker\<close>

datatype breaker_state = Closed | Open | HalfOpen

record breaker =
  failureThreshold :: nat
  cooldown :: duration
  halfOpenSuccesses :: nat
  br_state :: breaker_state
  failures :: nat
  successes :: nat
  openedAt :: gotime
  probeInFlight :: bool

definition DefaultFailureThreshold :: nat where "DefaultFailureThreshold = 5"
definition DefaultCooldown :: duration where "DefaultCooldown = 10 * second"
definition DefaultHalfOpenSuccesses :: nat where "DefaultHalfOpenSuccesses = 2"

datatype breaker_option = WithFailureThreshold int | WithCooldown duration

fun apply_breaker_option :: "breaker_option \<Rightarrow> breaker \<Rightarrow> breaker" where
  "apply_breaker_option (WithFailureThreshold n) b = (if n > 0 then b\<lparr>failureThreshold := nat n\<rparr> else b)"
| "apply_breaker_option (WithCooldown d) b = (if d > 0 then b\<lparr>cooldown := d\<rparr> else b)"

definition NewBreaker :: "breaker_option list \<Rightarrow> breaker" where
  "NewBreaker opts = fold apply_breaker_option opts
     \<lparr>failureThreshold = DefaultFailureThreshold, cooldown = DefaultCooldown,
      halfOpenSuccesses = DefaultHalfOpenSuccesses, br_state = Closed, failures = 0, successes = 0,
      openedAt = 0, probeInFlight = False\<rparr>"

definition Allow :: "breaker \<Rightarrow> gotime \<Rightarrow> bool \<times> breaker" where
  "Allow b now =
     (case br_state b of
        Closed \<Rightarrow> (True, b)
      | Open \<Rightarrow> if now - openedAt b < cooldown b then (False, b)
                 else (True, b\<lparr>br_state := HalfOpen, successes := 0, probeInFlight := True\<rparr>)
      | HalfOpen \<Rightarrow> if probeInFlight b then (False, b) else (True, b\<lparr>probeInFlight := True\<rparr>))"

definition Succeed :: "breaker \<Rightarrow> breaker" where
  "Succeed b =
     (let b1 = b\<lparr>probeInFlight := False, failures := 0\<rparr> in
      if br_state b1 = HalfOpen
      then (let b2 = b1\<lparr>successes := successes b1 + 1\<rparr> in
            if successes b2 \<ge> halfOpenSuccesses b2 then b2\<lparr>br_state := Closed, successes := 0\<rparr> else b2)
      else b1)"

definition Fail :: "breaker \<Rightarrow> gotime \<Rightarrow> breaker" where
  "Fail b now =
     (let b1 = b\<lparr>probeInFlight := False\<rparr> in
      if br_state b1 = HalfOpen then b1\<lparr>br_state := Open, openedAt := now, successes := 0\<rparr>
      else (let b2 = b1\<lparr>failures := failures b1 + 1\<rparr> in
            if failures b2 \<ge> failureThreshold b2 then b2\<lparr>br_state := Open, openedAt := now, failures := 0\<rparr>
            else b2))"

definition breaker_Open :: "breaker \<Rightarrow> gotime \<Rightarrow> bool" where
  "breaker_Open b now = (br_state b = Open \<and> now - openedAt b < cooldown b)"

text \<open>Any sequence of calls on one breaker.\<close>

datatype breaker_call = CAllow gotime | CSucceed | CFail gotime

fun breaker_apply :: "breaker \<Rightarrow> breaker_call \<Rightarrow> breaker" where
  "breaker_apply b (CAllow now) = snd (Allow b now)"
| "breaker_apply b CSucceed = Succeed b"
| "breaker_apply b (CFail now) = Fail b now"

section \<open>Health\<close>

record health =
  halfLife :: duration
  errorAvg :: real
  latencyAvg :: real
  h_count :: nat
  updated :: gotime

definition DefaultHalfLife :: duration where "DefaultHalfLife = 30 * second"
definition warmupObservations :: nat where "warmupObservations = 5"

definition NewHealth :: "duration option \<Rightarrow> health" where
  \<comment> \<open>The argument is the \<open>WithHalfLife\<close> option.\<close>
  "NewHealth opt =
     \<lparr>halfLife = (case opt of Some d \<Rightarrow> if d > 0 then d else DefaultHalfLife | None \<Rightarrow> DefaultHalfLife),
      errorAvg = 0, latencyAvg = 0, h_count = 0, updated = 0\<rparr>"

definition Seconds :: "duration \<Rightarrow> real" where
  "Seconds d = real_of_int d / 1000000000"

definition decay :: "health \<Rightarrow> gotime \<Rightarrow> real" where
  "decay h now =
     (if updated h = 0 then 0
      else if now - updated h \<le> 0 then 1 / 2
      else 2 powr (- (Seconds (now - updated h) / Seconds (halfLife h))))"

definition Observe :: "health \<Rightarrow> gotime \<Rightarrow> bool \<Rightarrow> duration \<Rightarrow> health" where
  "Observe h now failed lat =
     (let weight = decay h now; outcome = (if failed then 1 else 0) in
      h\<lparr>errorAvg := errorAvg h * weight + outcome * (1 - weight),
        latencyAvg := latencyAvg h * weight + Seconds lat * (1 - weight),
        h_count := h_count h + 1, updated := now\<rparr>)"

definition Score :: "health \<Rightarrow> gotime \<Rightarrow> real" where
  "Score h now =
     (if h_count h < warmupObservations then 1
      else (let weight = decay h now; errorRate = errorAvg h * weight; lat = latencyAvg h * weight;
                penalty = errorRate + min (lat / 10) (1 / 2)
            in max 0 (1 - penalty)))"

section \<open>Breaker invariant\<close>

definition breaker_wf :: "breaker \<Rightarrow> bool" where
  "breaker_wf b =
     (0 < failureThreshold b \<and> 0 < cooldown b \<and> 0 < halfOpenSuccesses b \<and>
      failures b < failureThreshold b \<and> (probeInFlight b \<longrightarrow> br_state b = HalfOpen) \<and>
      (br_state b = HalfOpen \<longrightarrow> successes b < halfOpenSuccesses b))"

lemma apply_breaker_option_wf:
  "breaker_wf b \<Longrightarrow> failures b = 0 \<Longrightarrow> breaker_wf (apply_breaker_option opt b) \<and> failures (apply_breaker_option opt b) = 0"
  by (cases opt) (auto simp: breaker_wf_def)

lemma NewBreaker_wf: "breaker_wf (NewBreaker opts) \<and> br_state (NewBreaker opts) = Closed \<and> failures (NewBreaker opts) = 0"
proof -
  have step: "br_state (apply_breaker_option opt b) = br_state b" for opt b by (cases opt) auto
  have "breaker_wf b \<Longrightarrow> failures b = 0 \<Longrightarrow>
        breaker_wf (fold apply_breaker_option opts b) \<and> failures (fold apply_breaker_option opts b) = 0 \<and>
        br_state (fold apply_breaker_option opts b) = br_state b" for b
  proof (induction opts arbitrary: b)
    case (Cons opt opts)
    with apply_breaker_option_wf[OF Cons.prems, of opt] show ?case by (simp add: step)
  qed simp
  then show ?thesis
    by (simp add: NewBreaker_def breaker_wf_def DefaultFailureThreshold_def DefaultCooldown_def
        DefaultHalfOpenSuccesses_def)
qed

lemma Allow_wf: "breaker_wf b \<Longrightarrow> breaker_wf (snd (Allow b now))"
  by (auto simp: breaker_wf_def Allow_def split: breaker_state.splits)

lemma Succeed_wf: "breaker_wf b \<Longrightarrow> breaker_wf (Succeed b)"
  by (auto simp: breaker_wf_def Succeed_def Let_def)

lemma Fail_wf: "breaker_wf b \<Longrightarrow> breaker_wf (Fail b now)"
  by (auto simp: breaker_wf_def Fail_def Let_def)

lemma breaker_apply_wf: "breaker_wf b \<Longrightarrow> breaker_wf (breaker_apply b c)"
  by (cases c) (simp_all add: Allow_wf Succeed_wf Fail_wf)

lemma breaker_calls_wf: "breaker_wf b \<Longrightarrow> breaker_wf (foldl breaker_apply b cs)"
  by (induction cs arbitrary: b) (simp_all add: breaker_apply_wf)

section \<open>A probe in flight blocks everything else\<close>

lemma Allow_probe: "Allow b now = (True, b') \<Longrightarrow> br_state b' = HalfOpen \<Longrightarrow> probeInFlight b'"
  by (auto simp: Allow_def split: breaker_state.splits if_splits)

lemma Allow_blocked: "br_state b = HalfOpen \<Longrightarrow> probeInFlight b \<Longrightarrow> Allow b now = (False, b)"
  by (simp add: Allow_def)

section \<open>Consecutive failures open the breaker\<close>

text \<open>Outcomes reported to a breaker: True for a success.\<close>

fun report :: "breaker \<Rightarrow> (bool \<times> gotime) list \<Rightarrow> breaker" where
  "report b [] = b"
| "report b ((ok, now) # os) = report (if ok then Succeed b else Fail b now) os"

lemma report_open:
  "br_state b = Open \<Longrightarrow> br_state (report b os) = Open"
  by (induction b os rule: report.induct) (auto simp: Succeed_def Fail_def Let_def)

definition has_run :: "nat \<Rightarrow> bool list \<Rightarrow> bool" where
  \<comment> \<open>\<open>n\<close> failures in a row.\<close>
  "has_run n os = (\<exists>xs ys. os = xs @ replicate n False @ ys)"

lemma has_run_True: "0 < n \<Longrightarrow> k < n \<Longrightarrow> has_run n (replicate k False @ True # os) \<longleftrightarrow> has_run n os"
proof
  assume n: "0 < n" "k < n" and "has_run n (replicate k False @ True # os)"
  then obtain xs ys where e: "replicate k False @ True # os = xs @ replicate n False @ ys"
    by (auto simp: has_run_def)
  have "k < length xs"
  proof (rule ccontr)
    assume "\<not> k < length xs"
    then have "(xs @ replicate n False @ ys) ! k = False"
      using n by (simp add: nth_append less_imp_diff_less)
    moreover have "(replicate k False @ True # os) ! k = True" by (simp add: nth_append)
    ultimately show False using e by simp
  qed
  then have "os = drop (Suc k) xs @ replicate n False @ ys"
    using arg_cong[OF e, of "drop (Suc k)"] by simp
  then show "has_run n os" unfolding has_run_def by blast
next
  assume "has_run n os"
  then show "has_run n (replicate k False @ True # os)"
    unfolding has_run_def by (metis append.assoc append_Cons)
qed

lemma has_run_replicate: "0 < n \<Longrightarrow> has_run n (replicate k False) \<longleftrightarrow> n \<le> k"
proof
  assume "has_run n (replicate k False)"
  then obtain xs ys where "replicate k False = xs @ replicate n False @ ys" by (auto simp: has_run_def)
  then have "k = length xs + n + length ys" by (metis length_append length_replicate add.assoc)
  then show "n \<le> k" by simp
next
  assume "n \<le> k"
  then have "replicate k False = [] @ replicate n False @ replicate (k - n) False"
    by (simp flip: replicate_add)
  then show "has_run n (replicate k False)" unfolding has_run_def by blast
qed

lemma report_closed_iff:
  assumes "br_state b = Closed" "0 < failureThreshold b" "failures b < failureThreshold b"
  shows "br_state (report b os) = Closed \<longleftrightarrow>
         \<not> has_run (failureThreshold b) (replicate (failures b) False @ map fst os)"
  using assms
proof (induction os arbitrary: b)
  case Nil
  then show ?case by (simp add: has_run_replicate)
next
  case (Cons o' os)
  obtain ok now where o': "o' = (ok, now)" by fastforce
  show ?case
  proof (cases ok)
    case True
    have "br_state (report (Succeed b) os) = Closed \<longleftrightarrow>
          \<not> has_run (failureThreshold b) (map fst os)"
      using Cons.IH[of "Succeed b"] Cons.prems by (simp add: Succeed_def Let_def)
    then show ?thesis using Cons.prems True o' by (simp add: has_run_True)
  next
    case False
    let ?b = "Fail b now"
    have app: "replicate (failures b) False @ False # zs = False # replicate (failures b) False @ zs" for zs
      by (simp add: replicate_app_Cons_same)
    show ?thesis
    proof (cases "Suc (failures b) < failureThreshold b")
      case True
      then have f: "br_state ?b = Closed" "failures ?b = Suc (failures b)" "failureThreshold ?b = failureThreshold b"
        using Cons.prems by (auto simp: Fail_def Let_def)
      from Cons.IH[of ?b] f True Cons.prems show ?thesis
        using False o' by (simp add: app)
    next
      case at: False
      then have t: "failureThreshold b = Suc (failures b)" using Cons.prems by simp
      then have "br_state ?b = Open" using Cons.prems by (auto simp: Fail_def Let_def)
      then have "br_state (report ?b os) = Open" by (rule report_open)
      moreover have "has_run (failureThreshold b) (replicate (Suc (failures b)) False @ map fst os)"
        unfolding has_run_def t by (metis append_Nil)
      ultimately show ?thesis using False o' by (simp add: app)
    qed
  qed
qed

section \<open>Health stays in range\<close>

definition health_wf :: "health \<Rightarrow> bool" where
  "health_wf h = (0 < halfLife h \<and> 0 \<le> errorAvg h \<and> errorAvg h \<le> 1 \<and> 0 \<le> latencyAvg h)"

lemma NewHealth_wf: "health_wf (NewHealth opt)"
  by (auto simp: health_wf_def NewHealth_def DefaultHalfLife_def split: option.splits)

lemma decay_range:
  assumes "0 < halfLife h" shows "0 \<le> decay h now \<and> decay h now \<le> 1"
proof (cases "updated h = 0 \<or> now - updated h \<le> 0")
  case True
  then show ?thesis by (auto simp: decay_def)
next
  case False
  then have "0 \<le> Seconds (now - updated h) / Seconds (halfLife h)"
    using assms by (auto simp: Seconds_def)
  then have "2 powr (- (Seconds (now - updated h) / Seconds (halfLife h))) \<le> 2 powr 0"
    by (intro powr_mono) auto
  with False show ?thesis by (auto simp: decay_def)
qed

lemma Observe_wf:
  assumes "health_wf h" "0 \<le> lat"
  shows "health_wf (Observe h now failed lat)"
proof -
  let ?w = "decay h now"
  have w: "0 \<le> ?w" "?w \<le> 1" using decay_range assms(1) by (auto simp: health_wf_def)
  have e: "0 \<le> errorAvg h" "errorAvg h \<le> 1" "0 \<le> latencyAvg h" using assms(1) by (auto simp: health_wf_def)
  have "errorAvg h * ?w \<le> ?w" using e w by (simp add: mult_left_le_one_le)
  then have 1: "errorAvg h * ?w + (if failed then 1 else 0) * (1 - ?w) \<le> 1" using w by auto
  have 2: "0 \<le> errorAvg h * ?w + (if failed then 1 else 0) * (1 - ?w)" using e w by auto
  have 3: "0 \<le> latencyAvg h * ?w + Seconds lat * (1 - ?w)"
    using e w assms(2) by (auto simp: Seconds_def)
  from 1 2 3 assms(1) show ?thesis by (simp add: health_wf_def Observe_def Let_def)
qed

lemma Score_range:
  assumes "health_wf h" shows "0 \<le> Score h now \<and> Score h now \<le> 1"
proof -
  have "0 \<le> decay h now" using decay_range assms by (auto simp: health_wf_def)
  moreover have "0 \<le> errorAvg h" "0 \<le> latencyAvg h" using assms by (auto simp: health_wf_def)
  ultimately have "0 \<le> errorAvg h * decay h now" "0 \<le> latencyAvg h * decay h now" by auto
  then show ?thesis by (auto simp: Score_def Let_def)
qed

end
