(* ===== verification/Gateway_Example.thy ===== *)
theory Gateway_Example
  imports Core_Snapshot
begin

text \<open>
  A small configuration, built by the constructors the gateway uses, at which the properties of the
  components are evaluated: one tenant with one key, an internal and an external deployment of one
  model, and an adapter that shadows it.
\<close>

definition ex_key :: "string \<Rightarrow> routing_key" where
  "ex_key adapter = \<lparr>BaseModel = ''llm'', AdapterID = adapter\<rparr>"

definition ex_deployment :: "string \<Rightarrow> string \<Rightarrow> trust_tier \<Rightarrow> nat \<Rightarrow> nat \<Rightarrow> deployment" where
  "ex_deployment i adapter tier weight shadow =
     \<lparr>dep_ID = i, dep_Key = ex_key adapter, dep_Provider = ''prov'', dep_Endpoint = ''https://p'', dep_Region = ''eu'',
      dep_TrustTier = tier, dep_CredentialRef = '''', dep_Weight = weight, dep_ShadowPercent = shadow,
      dep_Cost = \<lparr>InputPer1K = 1000, OutputPer1K = 2000, CachedInputPer1K = 0, CacheWritePer1K = 0\<rparr>,
      dep_Capabilities = []\<rparr>"

definition ex_external :: deployment where
  "ex_external = ex_deployment ''ext'' '''' TrustExternal 50 0"

definition ex_internal :: deployment where
  "ex_internal = ex_deployment ''int'' '''' TrustInternal 50 0"

definition ex_shadow :: deployment where
  "ex_shadow = ex_deployment ''lora'' ''a1'' TrustExternal 0 100"

definition ex_global_spec :: global_spec where
  "ex_global_spec =
     \<lparr>gs_Version = \<lparr>v_Number = 1, v_Digest = ''g1''\<rparr>, gs_BuiltAt = 1,
      gs_Deployments = [ex_external, ex_internal, ex_shadow],
      gs_Aliases = [\<lparr>alias_Name = ''chat'', alias_Targets = [ex_key '''']\<rparr>],
      gs_TenantPrefixes = [(''ac'', ''acme'')], gs_DefaultPlugins = [], gs_PolicyBundleRef = '''',
      gs_DefaultGuardrails = [], gs_DefaultPolicy = ''''\<rparr>"

definition ex_principal :: principal where
  "ex_principal =
     \<lparr>p_KeyID = ''k1'', p_Tenant = ''acme'', p_Org = '''', p_Team = '''', p_User = '''', p_App = '''', p_Roles = [''dev''],
      p_Models = \<lparr>AllowAll = True, allow_Names = []\<rparr>, p_Budgets = [\<lparr>ref_ID = ''b1'', ref_Scope = BudgetScopeKey\<rparr>],
      p_DefaultClass = DataClassRestricted, p_MinTrustTier = TrustUnset,
      p_Limits = \<lparr>RequestsPerMinute = 10, TokensPerMinute = 0, MaxConcurrent = 2\<rparr>, p_Deprecated = False, p_NotAfter = 0\<rparr>"

definition ex_tenant_spec :: tenant_spec where
  "ex_tenant_spec =
     \<lparr>ts_Tenant = ''acme'', ts_Version = \<lparr>v_Number = 1, v_Digest = ''t1''\<rparr>, ts_BuiltAt = 1, ts_Tier = ''gold'',
      ts_Principals = [ex_principal], ts_Keys = [(''s3cret'', ''k1'')], ts_AliasOverrides = [],
      ts_Budgets = [\<lparr>bud_ID = ''b1'', bud_Scope = BudgetScopeKey, LimitMicroUSD = 1000000, SpentMicroUSD = 0,
                     bud_Hard = True, HeadroomBasisPoints = 0\<rparr>],
      ts_Plugins = [], ts_Guardrails = [], ts_Policy = '''', ts_MinTrustTier = TrustExternal\<rparr>"

definition ex_global :: global_layer where
  "ex_global = projr (NewGlobalLayer ex_global_spec)"

definition ex_tenant :: tenant_layer where
  "ex_tenant = projr (NewTenantLayer ex_tenant_spec)"

definition ex_snapshot :: snapshot where
  "ex_snapshot = projr (Compose (Some ex_global) [Some ex_tenant])"

lemma ex_built:
  "NewGlobalLayer ex_global_spec = Inr ex_global"
  "NewTenantLayer ex_tenant_spec = Inr ex_tenant"
  "Compose (Some ex_global) [Some ex_tenant] = Inr ex_snapshot"
  by code_simp+

lemma ex_snapshot_wf: "snapshot_wf ex_snapshot"
  using Compose_wf[OF ex_built(3)] NewGlobalLayer_wf[OF ex_built(1)] NewTenantLayer_wf[OF ex_built(2)] by auto

end
