(* ===== verification/Router.thy ===== *)
theory Router
  imports Breaker Gateway_Example "HOL-Library.Multiset" "HOL-Library.List_Lexorder" "HOL-Library.Char_ord"
begin

text \<open>
  \<open>dataplane/internal/router/router.go\<close>: selection of candidate deployments and their execution with
  failover. Scores are real numbers. The provider registry is a parameter: for selection a function
  from the provider's name to the endpoints it speaks. Execution takes, for each position of the
  candidate list, the clock readings, the outcome of waiting and the outcome of the call; each is
  consulted at most once per position, so any behaviour of the environment is an instance.
\<close>

section \<open>State\<close>

definition DefaultMaxAttempts :: nat where "DefaultMaxAttempts = 3"
definition DefaultRetryBackoff :: duration where "DefaultRetryBackoff = 50 * millisecond"
definition minAttemptBudget :: duration where "minAttemptBudget = 250 * millisecond"

datatype objective = ObjectiveBalanced | ObjectiveLatency | ObjectiveCost

record candidate =
  c_Deployment :: deployment
  c_Score :: real
  c_Health :: real

text \<open>\<open>rt_observer\<close> is the prober's table of last traffic, None when no observer is registered.\<close>

record router =
  rt_maxAttempts :: nat
  rt_backoff :: duration
  rt_breakers :: "(string, breaker) gomap"
  rt_health :: "(string, health) gomap"
  rt_observer :: "(string, gotime) gomap option"
  rt_breakerOpts :: "breaker_option list"
  rt_healthOpt :: "duration option"

definition router_New :: "int option \<Rightarrow> duration option \<Rightarrow> breaker_option list \<Rightarrow> duration option \<Rightarrow> router" where
  \<comment> \<open>\<open>New\<close> with the options \<open>WithMaxAttempts\<close>, \<open>WithRetryBackoff\<close>, \<open>WithBreakerOptions\<close>, \<open>WithHealthOptions\<close>.\<close>
  "router_New attempts backoff bopts hopt =
     \<lparr>rt_maxAttempts = (case attempts of Some n \<Rightarrow> if n > 0 then nat n else DefaultMaxAttempts | None \<Rightarrow> DefaultMaxAttempts),
      rt_backoff = (case backoff of Some d \<Rightarrow> d | None \<Rightarrow> DefaultRetryBackoff),
      rt_breakers = [], rt_health = [], rt_observer = None, rt_breakerOpts = bopts, rt_healthOpt = hopt\<rparr>"

definition breakerFor :: "router \<Rightarrow> string \<Rightarrow> breaker" where
  "breakerFor r i = gomap_get (NewBreaker (rt_breakerOpts r)) (rt_breakers r) i"

definition set_breaker :: "router \<Rightarrow> string \<Rightarrow> breaker \<Rightarrow> router" where
  "set_breaker r i b = r\<lparr>rt_breakers := AList.update i b (rt_breakers r)\<rparr>"

definition healthFor :: "router \<Rightarrow> string \<Rightarrow> health" where
  "healthFor r i = gomap_get (NewHealth (rt_healthOpt r)) (rt_health r) i"

definition set_health :: "router \<Rightarrow> string \<Rightarrow> health \<Rightarrow> router" where
  "set_health r i h = r\<lparr>rt_health := AList.update i h (rt_health r)\<rparr>"

section \<open>Selection\<close>

record selection_input =
  si_Snapshot :: snapshot
  si_Tenant :: string
  si_Model :: string
  si_Endpoint :: endpoint
  si_MinTrustTier :: trust_tier
  si_Required :: "capability list"
  si_Objective :: objective
  si_Region :: string
  si_ReferenceTokens :: int

record selection =
  sawAny :: bool
  sawServing :: bool
  sawTier :: bool
  sel_cands :: "candidate list"

type_synonym provider_endpoints = "string \<Rightarrow> endpoint list option"

definition select_step ::
  "provider_endpoints \<Rightarrow> selection_input \<Rightarrow> gotime \<Rightarrow> router \<times> selection \<Rightarrow> deployment \<Rightarrow> router \<times> selection" where
  "select_step providers inp now st d =
     (case st of (r, s) \<Rightarrow>
       (let s1 = s\<lparr>sawAny := True\<rparr> in
        if \<not> Serving d then (r, s1)
        else (let s2 = s1\<lparr>sawServing := True\<rparr> in
          if \<not> AtLeast (dep_TrustTier d) (si_MinTrustTier inp) then (r, s2)
          else (let s3 = s2\<lparr>sawTier := True\<rparr> in
            if \<not> Supports d (si_Required inp) then (r, s3)
            else (case providers (dep_Provider d) of
                None \<Rightarrow> (r, s3)
              | Some eps \<Rightarrow>
                  if si_Endpoint inp \<notin> set eps then (r, s3)
                  else (let h = healthFor r (dep_ID d); sc = Score h now in
                        (set_health r (dep_ID d) h,
                         s3\<lparr>sel_cands := sel_cands s3 @ [\<lparr>c_Deployment = d, c_Score = sc, c_Health = sc\<rparr>]\<rparr>)))))))"

definition selectionError :: "string \<Rightarrow> trust_tier \<Rightarrow> bool \<Rightarrow> bool \<Rightarrow> bool \<Rightarrow> go_error" where
  "selectionError model tier any serving tierok =
     (if \<not> any then err_Newf CodeModelNotFound ''no model named %q'' [AStr model]
      else if \<not> serving then err_Newf CodeNoCandidates ''no deployment of %q is serving traffic'' [AStr model]
      else if \<not> tierok then err_Newf CodeTrustTierDenied ''no deployment of %q meets the required trust tier %s''
                              [AStr model, AStr (trust_tier_String tier)]
      else err_Newf CodeEndpointUnsupported
             ''%q is not served on this endpoint with the required capabilities'' [AStr model])"

definition referenceUsage :: "int \<Rightarrow> token_usage" where
  "referenceUsage tokens =
     (let t = (if tokens \<le> 0 then 1000 else tokens)
      in \<lparr>tu_Input = t, tu_CachedInput = 0, tu_CacheWrite = 0, tu_Output = go_div t 4\<rparr>)"

definition ref_price :: "int \<Rightarrow> candidate \<Rightarrow> micro_usd" where
  "ref_price tokens c = cost_For (dep_Cost (c_Deployment c)) (referenceUsage tokens)"

fun priceRange_from :: "micro_usd \<Rightarrow> micro_usd \<Rightarrow> int \<Rightarrow> candidate list \<Rightarrow> micro_usd \<times> micro_usd" where
  "priceRange_from lo hi tokens [] = (lo, hi)"
| "priceRange_from lo hi tokens (c # cs) =
     (let p = ref_price tokens c in
      priceRange_from (if p < lo then p else lo) (if p > hi then p else hi) tokens cs)"

definition priceRange :: "candidate list \<Rightarrow> int \<Rightarrow> micro_usd \<times> micro_usd" where
  "priceRange cs tokens =
     (case cs of [] \<Rightarrow> (0, 0) | c # rest \<Rightarrow> priceRange_from (ref_price tokens c) (ref_price tokens c) tokens rest)"

fun objective_weights :: "objective \<Rightarrow> real \<times> real" where
  \<comment> \<open>The weight of price and the weight of locality.\<close>
  "objective_weights ObjectiveCost = (30 / 100, 5 / 100)"
| "objective_weights ObjectiveLatency = (0, 20 / 100)"
| "objective_weights ObjectiveBalanced = (15 / 100, 10 / 100)"

definition adjusted_score :: "selection_input \<Rightarrow> micro_usd \<Rightarrow> micro_usd \<Rightarrow> candidate \<Rightarrow> real" where
  "adjusted_score inp cheapest dearest c =
     (let priceScore = (if dearest > cheapest
             then 1 - (real_of_int (ref_price (si_ReferenceTokens inp) c) - real_of_int cheapest)
                      / real_of_int (i64 (dearest - cheapest))
             else 1);
          localityScore = (if si_Region inp = '''' \<or> dep_Region (c_Deployment c) = si_Region inp then 1 else 0)
      in case objective_weights (si_Objective inp) of (costWeight, localityWeight) \<Rightarrow>
           c_Health c * (1 + costWeight * priceScore + localityWeight * localityScore))"

definition applyObjective :: "candidate list \<Rightarrow> selection_input \<Rightarrow> candidate list" where
  "applyObjective cs inp =
     (case priceRange cs (si_ReferenceTokens inp) of (cheapest, dearest) \<Rightarrow>
        map (\<lambda>c. c\<lparr>c_Score := adjusted_score inp cheapest dearest c\<rparr>) cs)"

definition drawWeight :: "candidate \<Rightarrow> real" where
  "drawWeight c = real (dep_Weight (c_Deployment c)) * c_Health c"

definition weightsDiffer :: "candidate list \<Rightarrow> bool" where
  "weightsDiffer cs =
     (case cs of [] \<Rightarrow> False
      | c # rest \<Rightarrow> list_ex (\<lambda>d. dep_Weight (c_Deployment d) \<noteq> dep_Weight (c_Deployment c)) rest)"

fun draw_index :: "real \<Rightarrow> real \<Rightarrow> candidate list \<Rightarrow> nat option" where
  \<comment> \<open>The first index at which the running total passes the target.\<close>
  "draw_index target running [] = None"
| "draw_index target running (c # cs) =
     (if running + drawWeight c > target then Some 0
      else map_option Suc (draw_index target (running + drawWeight c) cs))"

definition rotate_to_front :: "nat \<Rightarrow> 'a list \<Rightarrow> 'a list" where
  "rotate_to_front i xs = xs ! i # take i xs @ drop (Suc i) xs"

definition promote :: "candidate list \<Rightarrow> real \<Rightarrow> candidate list" where
  "promote cs draw =
     (if length cs < 2 \<or> \<not> weightsDiffer cs then cs
      else (let total = sum_list (map drawWeight cs) in
        if total \<le> 0 then cs
        else (case draw_index (draw * total) 0 cs of None \<Rightarrow> cs | Some i \<Rightarrow> rotate_to_front i cs)))"

definition empty_selection :: selection where
  "empty_selection = \<lparr>sawAny = False, sawServing = False, sawTier = False, sel_cands = []\<rparr>"

definition targets_of :: "selection_input \<Rightarrow> deployment list" where
  \<comment> \<open>What the two nested loops range over.\<close>
  "targets_of inp = concat (map (snap_Deployments (si_Snapshot inp))
                              (ResolveAlias (si_Snapshot inp) (si_Tenant inp) (si_Model inp)))"

definition Select ::
  "provider_endpoints \<Rightarrow> router \<Rightarrow> gotime \<Rightarrow> real \<Rightarrow> selection_input \<Rightarrow> router \<times> (go_error + candidate list)" where
  "Select providers r now draw inp =
     (case foldl (select_step providers inp now) (r, empty_selection) (targets_of inp) of (r', s) \<Rightarrow>
        if sel_cands s = []
        then (r', Inl (selectionError (si_Model inp) (si_MinTrustTier inp) (sawAny s) (sawServing s) (sawTier s)))
        else (r', Inr (promote (sort_key (\<lambda>c. - c_Score c) (applyObjective (sel_cands s) inp)) draw)))"

section \<open>Execution\<close>

record attempt =
  att_Deployment :: string
  att_Latency :: duration
  att_Err :: "go_error option"
  att_Skipped :: bool

record ('resp, 'w) attempt_env =
  ae_begin :: gotime
  ae_started :: gotime
  ae_ended :: gotime
  ae_jitter :: real
  ae_done_within :: "duration \<Rightarrow> bool"
  ae_provider :: bool
  ae_call :: "duration \<Rightarrow> deployment \<Rightarrow> 'w \<Rightarrow> (go_error + 'resp) \<times> 'w"

definition router_remaining :: "gotime option \<Rightarrow> gotime \<Rightarrow> gotime \<Rightarrow> duration" where
  "router_remaining ctxDeadline deadline now =
     (let dl = (case ctxDeadline of Some c \<Rightarrow> if deadline = 0 \<or> c < deadline then c else deadline | None \<Rightarrow> deadline)
      in if dl = 0 then 60 * minute else dl - now)"

definition wait_delay :: "duration \<Rightarrow> nat \<Rightarrow> real \<Rightarrow> duration" where
  "wait_delay backoff n jitter =
     (let delay = i64 (backoff * 2 ^ (n - 1)) in i64 (delay + \<lfloor>jitter * real_of_int delay\<rfloor>))"

definition router_wait :: "router \<Rightarrow> ('resp, 'w) attempt_env \<Rightarrow> nat \<Rightarrow> bool" where
  "router_wait r e n = (rt_backoff r \<le> 0 \<or> \<not> ae_done_within e (wait_delay (rt_backoff r) n (ae_jitter e)))"

definition router_saw :: "router \<Rightarrow> string \<Rightarrow> gotime \<Rightarrow> router" where
  "router_saw r i now = (case rt_observer r of None \<Rightarrow> r | Some m \<Rightarrow> r\<lparr>rt_observer := Some (AList.update i now m)\<rparr>)"

definition unavailable_error :: go_error where
  "unavailable_error = err_New CodeNoCandidates
     ''every candidate deployment is unavailable or the deadline was exhausted''"

definition after_loop :: "go_error option \<Rightarrow> go_error + 'r" where
  "after_loop lastErr = (case lastErr of Some e \<Rightarrow> Inl e | None \<Rightarrow> Inl unavailable_error)"

datatype 'resp loop_next = NextCandidate | BreakLoop | ReturnResult "go_error + deployment \<times> 'resp"

text \<open>The body of the loop: the router, the attempts so far, the last error, and how the loop goes on.\<close>

definition attempt_step ::
  "('resp, 'w) attempt_env \<Rightarrow> gotime option \<Rightarrow> gotime \<Rightarrow> nat \<Rightarrow> router \<Rightarrow> 'w \<Rightarrow> attempt list \<Rightarrow> go_error option \<Rightarrow>
   candidate \<Rightarrow> router \<times> 'w \<times> attempt list \<times> go_error option \<times> 'resp loop_next" where
  "attempt_step e ctxd deadline i r w done lastErr c =
     (if i \<ge> rt_maxAttempts r then (r, w, done, lastErr, BreakLoop)
      else (let d = c_Deployment c; left = router_remaining ctxd deadline (ae_begin e) in
        if left < minAttemptBudget then (r, w, done, lastErr, BreakLoop)
        else (case Allow (breakerFor r (dep_ID d)) (ae_begin e) of (ok, b) \<Rightarrow>
          let r1 = set_breaker r (dep_ID d) b in
          if \<not> ok then
            (r1, w, done @ [\<lparr>att_Deployment = dep_ID d, att_Latency = 0, att_Err = None, att_Skipped = True\<rparr>],
             lastErr, NextCandidate)
          else if i > 0 \<and> \<not> router_wait r1 e i then (r1, w, done, lastErr, BreakLoop)
          else if \<not> ae_provider e then
            (r1, w, done, Some (err_Newf CodeInternal ''provider %q vanished between selection and execution''
                               [AStr (dep_Provider d)]), NextCandidate)
          else
            (let r2 = router_saw r1 (dep_ID d) (ae_started e);
                 lat = ae_ended e - ae_started e;
                 call = ae_call e left d w; out = fst call; w' = snd call;
                 done' = done @ [\<lparr>att_Deployment = dep_ID d, att_Latency = lat,
                                  att_Err = (case out of Inl err \<Rightarrow> Some err | Inr _ \<Rightarrow> None), att_Skipped = False\<rparr>]
             in case out of
                  Inr resp \<Rightarrow>
                    (let r3 = set_breaker r2 (dep_ID d) (Succeed (breakerFor r2 (dep_ID d)));
                         r4 = set_health r3 (dep_ID d) (Observe (healthFor r3 (dep_ID d)) (ae_ended e) False lat)
                     in (r4, w', done', lastErr, ReturnResult (Inr (d, resp))))
                | Inl err \<Rightarrow>
                    if IsRetryable (Some err) then
                      (let r3 = set_breaker r2 (dep_ID d) (Fail (breakerFor r2 (dep_ID d)) (ae_ended e));
                           r4 = set_health r3 (dep_ID d) (Observe (healthFor r3 (dep_ID d)) (ae_ended e) True lat)
                       in (r4, w', done', Some err, NextCandidate))
                    else (r2, w', done', Some err, ReturnResult (Inl err))))))"

fun execute_from ::
  "(nat \<Rightarrow> ('resp, 'w) attempt_env) \<Rightarrow> gotime option \<Rightarrow> gotime \<Rightarrow> nat \<Rightarrow> router \<Rightarrow> 'w \<Rightarrow> attempt list \<Rightarrow> go_error option \<Rightarrow>
   candidate list \<Rightarrow> router \<times> 'w \<times> attempt list \<times> (go_error + deployment \<times> 'resp)" where
  "execute_from env ctxd deadline i r w done lastErr [] = (r, w, done, after_loop lastErr)"
| "execute_from env ctxd deadline i r w done lastErr (c # cs) =
     (case attempt_step (env i) ctxd deadline i r w done lastErr c of
        (r', w', done', lastErr', BreakLoop) \<Rightarrow> (r', w', done', after_loop lastErr')
      | (r', w', done', lastErr', ReturnResult out) \<Rightarrow> (r', w', done', out)
      | (r', w', done', lastErr', NextCandidate) \<Rightarrow> execute_from env ctxd deadline (Suc i) r' w' done' lastErr' cs)"

definition Execute ::
  "(nat \<Rightarrow> ('resp, 'w) attempt_env) \<Rightarrow> gotime option \<Rightarrow> gotime \<Rightarrow> router \<Rightarrow> 'w \<Rightarrow> candidate list \<Rightarrow>
   router \<times> 'w \<times> attempt list \<times> (go_error + deployment \<times> 'resp)" where
  "Execute env ctxd deadline r w cs = execute_from env ctxd deadline 0 r w [] None cs"

record deployment_health =
  dh_Deployment :: string
  dh_Score :: real
  dh_Observations :: nat
  dh_BreakerOpen :: bool

definition router_Stats :: "router \<Rightarrow> gotime \<Rightarrow> deployment_health list" where
  "router_Stats r now =
     map (\<lambda>(i, h). \<lparr>dh_Deployment = i, dh_Score = Score h now, dh_Observations = h_count h,
                    dh_BreakerOpen = (case map_of (rt_breakers r) i of Some b \<Rightarrow> breaker_Open b now | None \<Rightarrow> False)\<rparr>)
       (sort_key fst (rt_health r))"

section \<open>Selection keeps exactly the eligible deployments\<close>

definition eligible :: "provider_endpoints \<Rightarrow> selection_input \<Rightarrow> deployment \<Rightarrow> bool" where
  "eligible providers inp d =
     (Serving d \<and> AtLeast (dep_TrustTier d) (si_MinTrustTier inp) \<and> Supports d (si_Required inp) \<and>
      (case providers (dep_Provider d) of None \<Rightarrow> False | Some eps \<Rightarrow> si_Endpoint inp \<in> set eps))"

definition health_of :: "router \<Rightarrow> gotime \<Rightarrow> deployment \<Rightarrow> real" where
  "health_of r now d = Score (healthFor r (dep_ID d)) now"

definition router_wf :: "router \<Rightarrow> bool" where
  "router_wf r = ((\<forall>i b. map_of (rt_breakers r) i = Some b \<longrightarrow> breaker_wf b) \<and>
                  (\<forall>i h. map_of (rt_health r) i = Some h \<longrightarrow> health_wf h))"

lemma breakerFor_wf: "router_wf r \<Longrightarrow> breaker_wf (breakerFor r i)"
  by (auto simp: router_wf_def breakerFor_def gomap_get_def NewBreaker_wf split: option.split)

lemma healthFor_wf: "router_wf r \<Longrightarrow> health_wf (healthFor r i)"
  by (auto simp: router_wf_def healthFor_def gomap_get_def NewHealth_wf split: option.split)

lemma set_breaker_wf: "router_wf r \<Longrightarrow> breaker_wf b \<Longrightarrow> router_wf (set_breaker r i b)"
  by (simp add: router_wf_def set_breaker_def)

lemma set_health_wf: "router_wf r \<Longrightarrow> health_wf h \<Longrightarrow> router_wf (set_health r i h)"
  by (simp add: router_wf_def set_health_def)

lemma router_saw_wf: "router_wf r \<Longrightarrow> router_wf (router_saw r i now)"
  by (simp add: router_wf_def router_saw_def split: option.split)

lemma router_lookups [simp]:
  "breakerFor (set_breaker r i b) j = (if j = i then b else breakerFor r j)"
  "healthFor (set_health r i h) j = (if j = i then h else healthFor r j)"
  "healthFor (set_breaker r i b) j = healthFor r j"
  "breakerFor (set_health r i h) j = breakerFor r j"
  "rt_maxAttempts (set_breaker r i b) = rt_maxAttempts r"
  "rt_maxAttempts (set_health r i h) = rt_maxAttempts r"
  "rt_maxAttempts (router_saw r i now) = rt_maxAttempts r"
  "breakerFor (router_saw r i now) j = breakerFor r j"
  "healthFor (router_saw r i now) j = healthFor r j"
  by (simp_all add: breakerFor_def healthFor_def set_breaker_def set_health_def router_saw_def split: option.split)

lemma select_step_cases:
  "select_step providers inp now (r, s) d =
     (if eligible providers inp d
      then (set_health r (dep_ID d) (healthFor r (dep_ID d)),
            \<lparr>sawAny = True, sawServing = True, sawTier = True,
             sel_cands = sel_cands s @ [\<lparr>c_Deployment = d, c_Score = health_of r now d, c_Health = health_of r now d\<rparr>]\<rparr>)
      else (r, \<lparr>sawAny = True, sawServing = sawServing s \<or> Serving d,
                sawTier = sawTier s \<or> Serving d \<and> AtLeast (dep_TrustTier d) (si_MinTrustTier inp),
                sel_cands = sel_cands s\<rparr>))"
  by (cases s) (auto simp: select_step_def eligible_def health_of_def Let_def split: option.split)

definition as_candidate :: "router \<Rightarrow> gotime \<Rightarrow> deployment \<Rightarrow> candidate" where
  "as_candidate r now d = \<lparr>c_Deployment = d, c_Score = health_of r now d, c_Health = health_of r now d\<rparr>"

lemma select_fold:
  "snd (foldl (select_step providers inp now) (r, s) ds) =
     \<lparr>sawAny = (sawAny s \<or> ds \<noteq> []),
      sawServing = (sawServing s \<or> (\<exists>d \<in> set ds. Serving d)),
      sawTier = (sawTier s \<or> (\<exists>d \<in> set ds. Serving d \<and> AtLeast (dep_TrustTier d) (si_MinTrustTier inp))),
      sel_cands = sel_cands s @ map (as_candidate r now) (filter (eligible providers inp) ds)\<rparr>"
proof (induction ds arbitrary: r s)
  case (Cons d ds)
  have same: "as_candidate (set_health r i (healthFor r i)) now = as_candidate r now" for i
    by (rule ext) (simp add: as_candidate_def health_of_def)
  show ?case
    by (auto simp: select_step_cases Cons.IH same eligible_def as_candidate_def[symmetric])
qed simp

lemma select_fold_wf:
  "router_wf r \<Longrightarrow> router_wf (fst (foldl (select_step providers inp now) (r, s) ds))"
proof (induction ds arbitrary: r s)
  case (Cons d ds)
  then show ?case
    by (simp add: select_step_cases set_health_wf healthFor_wf)
qed simp

section \<open>Permutations\<close>

lemma mset_rotate_to_front: "i < length xs \<Longrightarrow> mset (rotate_to_front i xs) = mset xs"
proof -
  assume "i < length xs"
  then have "mset xs = mset (take i xs @ xs ! i # drop (Suc i) xs)" by (simp add: id_take_nth_drop[symmetric])
  then show ?thesis by (simp add: rotate_to_front_def)
qed

lemma draw_index_bounds:
  assumes "draw_index target running cs = Some i"
  shows "i < length cs" "running + sum_list (map drawWeight (take (Suc i) cs)) > target"
    "i = 0 \<or> running + sum_list (map drawWeight (take i cs)) \<le> target"
  using assms
proof (induction cs arbitrary: running i)
  case (Cons c cs)
  { case 1 then show ?case using Cons.IH(1) by (auto split: if_splits) }
  { case 2 then show ?case using Cons.IH(2) by (fastforce split: if_splits simp: add.assoc) }
  { case 3
    show ?case
    proof (cases "running + drawWeight c > target")
      case True then show ?thesis using 3 by simp
    next
      case False
      with 3 obtain j where j: "draw_index target (running + drawWeight c) cs = Some j" "i = Suc j" by auto
      from Cons.IH(3)[OF j(1)] False show ?thesis by (auto simp: j(2) add.assoc)
    qed }
qed auto

lemma draw_index_exists:
  assumes "running + sum_list (map drawWeight cs) > target" "running \<le> target"
  shows "\<exists>i. draw_index target running cs = Some i"
  using assms
proof (induction cs arbitrary: running)
  case (Cons c cs)
  show ?case
  proof (cases "running + drawWeight c > target")
    case False
    then have "\<exists>i. draw_index target (running + drawWeight c) cs = Some i"
      using Cons.prems by (intro Cons.IH) (auto simp: algebra_simps)
    with False show ?thesis by auto
  qed simp
qed simp

lemma mset_promote: "mset (promote cs draw) = mset cs"
  by (auto simp: promote_def Let_def split: option.split intro!: mset_rotate_to_front dest: draw_index_bounds(1))

lemma applyObjective_deployments:
  "map c_Deployment (applyObjective cs inp) = map c_Deployment cs"
  "map c_Health (applyObjective cs inp) = map c_Health cs"
  by (simp_all add: applyObjective_def comp_def split: prod.split)

lemma mset_map_eq: "mset xs = mset ys \<Longrightarrow> mset (map f xs) = mset (map f ys)"
  by (metis mset_map)

lemma Select_Inr:
  assumes "Select providers r now draw inp = (r', Inr cs)"
  shows "mset (map c_Deployment cs) = mset (filter (eligible providers inp) (targets_of inp))" "cs \<noteq> []"
proof -
  let ?f = "foldl (select_step providers inp now) (r, empty_selection) (targets_of inp)"
  let ?e = "map (as_candidate r now) (filter (eligible providers inp) (targets_of inp))"
  have s: "sel_cands (snd ?f) = ?e" by (simp add: select_fold empty_selection_def)
  from assms have cs: "cs = promote (sort_key (\<lambda>c. - c_Score c) (applyObjective ?e inp)) draw" "?e \<noteq> []"
    using s by (auto simp: Select_def split: prod.splits if_splits)
  have "mset cs = mset (applyObjective ?e inp)" by (simp add: cs mset_promote)
  then have "mset (map c_Deployment cs) = mset (map c_Deployment ?e)"
    by (metis applyObjective_deployments(1) mset_map_eq)
  also have "map c_Deployment ?e = filter (eligible providers inp) (targets_of inp)"
    by (simp add: as_candidate_def comp_def)
  finally show m: "mset (map c_Deployment cs) = mset (filter (eligible providers inp) (targets_of inp))" .
  with cs(2) show "cs \<noteq> []" by (metis list.map_disc_iff mset_zero_iff_right)
qed

lemma Select_Inl:
  assumes "Select providers r now draw inp = (r', Inl e)"
  shows "filter (eligible providers inp) (targets_of inp) = []"
    "e = selectionError (si_Model inp) (si_MinTrustTier inp) (targets_of inp \<noteq> [])
           (\<exists>d \<in> set (targets_of inp). Serving d)
           (\<exists>d \<in> set (targets_of inp). Serving d \<and> AtLeast (dep_TrustTier d) (si_MinTrustTier inp))"
proof -
  let ?f = "foldl (select_step providers inp now) (r, empty_selection) (targets_of inp)"
  have s: "snd ?f = \<lparr>sawAny = (targets_of inp \<noteq> []), sawServing = (\<exists>d \<in> set (targets_of inp). Serving d),
      sawTier = (\<exists>d \<in> set (targets_of inp). Serving d \<and> AtLeast (dep_TrustTier d) (si_MinTrustTier inp)),
      sel_cands = map (as_candidate r now) (filter (eligible providers inp) (targets_of inp))\<rparr>"
    by (simp add: select_fold empty_selection_def)
  from assms s show "filter (eligible providers inp) (targets_of inp) = []"
    by (auto simp: Select_def split: prod.splits if_splits)
  from assms s show "e = selectionError (si_Model inp) (si_MinTrustTier inp) (targets_of inp \<noteq> [])
           (\<exists>d \<in> set (targets_of inp). Serving d)
           (\<exists>d \<in> set (targets_of inp). Serving d \<and> AtLeast (dep_TrustTier d) (si_MinTrustTier inp))"
    by (auto simp: Select_def split: prod.splits if_splits)
qed

section \<open>Health bounds what price and locality can do\<close>

lemma i64_le: "\<bar>i64 x\<bar> \<le> 2 ^ 63"
  using i64_range[of x] by (auto simp: abs_le_iff)

lemma cost_For_bound: "\<bar>cost_For c u\<bar> \<le> 2 ^ 54"
proof -
  have "\<bar>go_div (i64 x) 1000\<bar> \<le> 2 ^ 54" for x
  proof -
    have "\<bar>i64 x\<bar> div 1000 \<le> 2 ^ 63 div 1000" by (intro zdiv_mono1 i64_le) simp
    then have "\<bar>i64 x\<bar> div 1000 \<le> 2 ^ 54 " by simp
    moreover have "\<bar>go_div a 1000\<bar> = \<bar>a\<bar> div 1000" for a
      by (cases "a = 0") (simp_all add: go_div_def abs_mult abs_sgn_eq)
    ultimately show ?thesis by simp
  qed
  then show ?thesis by (simp add: cost_For_def Let_def)
qed

lemma priceRange_from_bounds:
  assumes "priceRange_from lo hi tokens cs = (a, b)" "lo \<le> hi"
  shows "a \<le> lo \<and> hi \<le> b \<and> (\<forall>c \<in> set cs. a \<le> ref_price tokens c \<and> ref_price tokens c \<le> b)"
  using assms
proof (induction cs arbitrary: lo hi)
  case (Cons c cs)
  have "priceRange_from (min lo (ref_price tokens c)) (max hi (ref_price tokens c)) tokens cs = (a, b)"
    using Cons.prems(1) by (auto simp: Let_def min_def max_def split: if_splits)
  from Cons.IH[OF this] Cons.prems(2) show ?case by auto
qed simp

lemma priceRange_bounds:
  assumes "priceRange cs tokens = (a, b)" "c \<in> set cs"
  shows "a \<le> ref_price tokens c \<and> ref_price tokens c \<le> b"
proof (cases cs)
  case (Cons x xs)
  with assms(1) have "priceRange_from (ref_price tokens x) (ref_price tokens x) tokens xs = (a, b)"
    by (simp add: priceRange_def)
  from priceRange_from_bounds[OF this] assms(2) Cons show ?thesis by auto
qed (use assms in simp)

lemma priceRange_abs:
  assumes "priceRange cs tokens = (a, b)"
  shows "\<bar>a\<bar> \<le> 2 ^ 54 \<and> \<bar>b\<bar> \<le> 2 ^ 54"
proof -
  have from_bound: "priceRange_from lo hi tokens xs = (a, b) \<Longrightarrow> \<bar>lo\<bar> \<le> 2 ^ 54 \<Longrightarrow> \<bar>hi\<bar> \<le> 2 ^ 54 \<Longrightarrow>
        \<bar>a\<bar> \<le> 2 ^ 54 \<and> \<bar>b\<bar> \<le> 2 ^ 54" for lo hi xs
  proof (induction xs arbitrary: lo hi)
    case (Cons x xs)
    have "\<bar>ref_price tokens x\<bar> \<le> 2 ^ 54" unfolding ref_price_def by (rule cost_For_bound)
    moreover have eq: "priceRange_from (min lo (ref_price tokens x)) (max hi (ref_price tokens x)) tokens xs = (a, b)"
      using Cons.prems(1) by (auto simp: Let_def min_def max_def split: if_splits)
    ultimately show ?case using Cons.prems(2,3) by (intro Cons.IH[OF eq]) (auto simp: min_def max_def)
  qed simp
  show ?thesis
  proof (cases cs)
    case (Cons x xs)
    have "\<bar>ref_price tokens x\<bar> \<le> 2 ^ 54" unfolding ref_price_def by (rule cost_For_bound)
    with assms Cons show ?thesis by (intro from_bound[of "ref_price tokens x" "ref_price tokens x" xs]) (auto simp: priceRange_def)
  qed (use assms in \<open>simp add: priceRange_def\<close>)
qed

definition objective_ceiling :: "objective \<Rightarrow> real" where
  "objective_ceiling ob = 1 + fst (objective_weights ob) + snd (objective_weights ob)"

lemma adjusted_score_band:
  assumes "priceRange cs (si_ReferenceTokens inp) = (lo, hi)" "c \<in> set cs" "0 \<le> c_Health c"
  shows "c_Health c \<le> adjusted_score inp lo hi c \<and>
         adjusted_score inp lo hi c \<le> objective_ceiling (si_Objective inp) * c_Health c"
proof -
  let ?p = "ref_price (si_ReferenceTokens inp) c"
  define ps where "ps = (if hi > lo then 1 - (real_of_int ?p - real_of_int lo) / real_of_int (i64 (hi - lo)) else 1)"
  define ls where "ls = (if si_Region inp = '''' \<or> dep_Region (c_Deployment c) = si_Region inp then 1 else (0 :: real))"
  have b: "lo \<le> ?p" "?p \<le> hi" using priceRange_bounds[OF assms(1,2)] by auto
  have diff: "i64 (hi - lo) = hi - lo" using priceRange_abs[OF assms(1)] by (intro i64_id) auto
  have ps: "0 \<le> ps" "ps \<le> 1"
    using b by (auto simp: ps_def diff divide_simps)
  have ls: "0 \<le> ls" "ls \<le> 1" by (auto simp: ls_def)
  obtain cw lw where w: "objective_weights (si_Objective inp) = (cw, lw)" by fastforce
  then have w0: "0 \<le> cw" "0 \<le> lw" by (cases "si_Objective inp"; auto)+
  have eq: "adjusted_score inp lo hi c = c_Health c * (1 + cw * ps + lw * ls)"
    by (simp add: adjusted_score_def Let_def w ps_def ls_def)
  have "1 \<le> 1 + cw * ps + lw * ls" using ps ls w0 by simp
  moreover have "cw * ps \<le> cw" "lw * ls \<le> lw" using ps ls w0 by (simp_all add: mult_left_le)
  then have "1 + cw * ps + lw * ls \<le> 1 + cw + lw" by simp
  ultimately show ?thesis
    using assms(3) mult_left_mono[of 1 "1 + cw * ps + lw * ls" "c_Health c"]
      mult_left_mono[of "1 + cw * ps + lw * ls" "1 + cw + lw" "c_Health c"]
    by (simp add: eq objective_ceiling_def w mult.commute)
qed

section \<open>Execution\<close>

definition called :: "attempt list \<Rightarrow> string list" where
  \<comment> \<open>The deployments a provider was called for.\<close>
  "called as = map att_Deployment (filter (\<lambda>a. \<not> att_Skipped a) as)"

lemma attempt_step_cases:
  assumes "attempt_step e ctxd deadline i r w done lastErr c = (r', w', done', lastErr', next)"
  obtains
    (stop) "next = BreakLoop" "done' = done" "lastErr' = lastErr" "w' = w"
  | (skip) b where "i < rt_maxAttempts r" "next = NextCandidate" "lastErr' = lastErr" "w' = w"
      "Allow (breakerFor r (dep_ID (c_Deployment c))) (ae_begin e) = (False, b)"
      "done' = done @ [\<lparr>att_Deployment = dep_ID (c_Deployment c), att_Latency = 0, att_Err = None, att_Skipped = True\<rparr>]"
  | (vanished) err where "i < rt_maxAttempts r" "next = NextCandidate" "done' = done" "lastErr' = Some err" "w' = w"
  | (called) lat left out where "i < rt_maxAttempts r" "minAttemptBudget \<le> left"
      "left = router_remaining ctxd deadline (ae_begin e)" "(out, w') = ae_call e left (c_Deployment c) w"
      "lat = ae_ended e - ae_started e"
      "done' = done @ [\<lparr>att_Deployment = dep_ID (c_Deployment c), att_Latency = lat,
                        att_Err = (case out of Inl err \<Rightarrow> Some err | Inr _ \<Rightarrow> None), att_Skipped = False\<rparr>]"
      "next = (case out of Inr resp \<Rightarrow> ReturnResult (Inr (c_Deployment c, resp))
               | Inl err \<Rightarrow> if IsRetryable (Some err) then NextCandidate else ReturnResult (Inl err))"
      "lastErr' = (case out of Inr _ \<Rightarrow> lastErr | Inl err \<Rightarrow> Some err)"
proof (cases "i \<ge> rt_maxAttempts r \<or> router_remaining ctxd deadline (ae_begin e) < minAttemptBudget")
  case True
  with assms show ?thesis by (intro stop) (auto simp: attempt_step_def Let_def split: if_splits)
next
  case False
  obtain ok b where a: "Allow (breakerFor r (dep_ID (c_Deployment c))) (ae_begin e) = (ok, b)" by fastforce
  let ?r1 = "set_breaker r (dep_ID (c_Deployment c)) b"
  consider "\<not> ok" | "ok" "i > 0 \<and> \<not> router_wait ?r1 e i" | "ok" "\<not> (i > 0 \<and> \<not> router_wait ?r1 e i)" "\<not> ae_provider e"
    | "ok" "\<not> (i > 0 \<and> \<not> router_wait ?r1 e i)" "ae_provider e" by blast
  then show ?thesis
  proof cases
    case 1
    with False a assms show ?thesis by (intro skip) (auto simp: attempt_step_def Let_def)
  next
    case 2
    with False a assms show ?thesis by (intro stop) (auto simp: attempt_step_def Let_def)
  next
    case 3
    with False a assms show ?thesis by (intro vanished) (auto simp: attempt_step_def Let_def)
  next
    case 4
    obtain out w1 where call: "ae_call e (router_remaining ctxd deadline (ae_begin e)) (c_Deployment c) w = (out, w1)"
      by fastforce
    with 4 False a assms show ?thesis
      by (intro called[OF _ _ refl _ refl, of out]) (auto simp: attempt_step_def Let_def split: sum.splits if_splits)
  qed
qed

lemma attempt_step_wf:
  assumes "router_wf r" "ae_started e \<le> ae_ended e"
    "attempt_step e ctxd deadline i r w done lastErr c = (r', w', done', lastErr', next)"
  shows "router_wf r' \<and> rt_maxAttempts r' = rt_maxAttempts r"
proof -
  let ?d = "dep_ID (c_Deployment c)"
  obtain ok b where a: "Allow (breakerFor r ?d) (ae_begin e) = (ok, b)" by fastforce
  have b: "breaker_wf b" using Allow_wf[OF breakerFor_wf[OF assms(1)]] a by (metis snd_conv)
  define r1 where "r1 = set_breaker r ?d b"
  define r2 where "r2 = router_saw r1 ?d (ae_started e)"
  have r1: "router_wf r1" unfolding r1_def by (rule set_breaker_wf[OF assms(1) b])
  then have r2: "router_wf r2" unfolding r2_def by (rule router_saw_wf)
  have n: "rt_maxAttempts r1 = rt_maxAttempts r" "rt_maxAttempts r2 = rt_maxAttempts r"
    by (simp_all add: r1_def r2_def)
  have obs: "router_wf (set_health (set_breaker r2 ?d bb) ?d (Observe (healthFor r2 ?d) t f (ae_ended e - ae_started e)))"
    if "breaker_wf bb" for bb t f
    using assms(2) by (intro set_health_wf Observe_wf healthFor_wf set_breaker_wf r2 that) simp
  have "router_wf (set_health (set_breaker r2 ?d (Fail (breakerFor r2 ?d) t)) ?d
          (Observe (healthFor r2 ?d) t' f (ae_ended e - ae_started e)))"
       "router_wf (set_health (set_breaker r2 ?d (Succeed (breakerFor r2 ?d))) ?d
          (Observe (healthFor r2 ?d) t' f (ae_ended e - ae_started e)))" for t t' f
    by (intro obs Fail_wf Succeed_wf breakerFor_wf r2)+
  with assms(1,3) a r1 r2 n show ?thesis
    by (auto simp: attempt_step_def Let_def r1_def[symmetric] r2_def[symmetric] split: if_splits sum.splits)
qed

lemma execute_from_wf:
  assumes "router_wf r" "\<forall>i. ae_started (env i) \<le> ae_ended (env i)"
    "execute_from env ctxd deadline i r w done lastErr cs = (r', w', done', out)"
  shows "router_wf r'"
  using assms
proof (induction cs arbitrary: i r w "done" lastErr)
  case (Cons c cs)
  obtain r1 w1 done1 err1 nxt where s: "attempt_step (env i) ctxd deadline i r w done lastErr c = (r1, w1, done1, err1, nxt)"
    by (metis prod_cases5)
  have "router_wf r1" using attempt_step_wf[OF Cons.prems(1) _ s] Cons.prems(2) by blast
  with Cons s show ?case by (auto split: loop_next.splits)
qed simp

definition try_next :: "attempt \<Rightarrow> bool" where
  \<comment> \<open>An attempt after which execution may go on: skipped, or failed with a retryable error.\<close>
  "try_next a = (att_Skipped a \<or> (\<exists>e. att_Err a = Some e \<and> IsRetryable (Some e)))"

definition outcome_of :: "go_error option \<Rightarrow> attempt list \<Rightarrow> go_error + deployment \<times> 'resp \<Rightarrow> bool" where
  \<comment> \<open>How the outcome relates to the attempts made, from the last error before them.\<close>
  "outcome_of lastErr as out =
     (case out of
        Inr (d, _) \<Rightarrow> \<exists>before lat. as = before @ [\<lparr>att_Deployment = dep_ID d, att_Latency = lat,
                                        att_Err = None, att_Skipped = False\<rparr>] \<and> list_all try_next before
      | Inl e \<Rightarrow> (list_all try_next as \<or>
                  (\<exists>before a. as = before @ [a] \<and> list_all try_next before \<and> \<not> att_Skipped a \<and>
                     att_Err a = Some e \<and> \<not> IsRetryable (Some e))))"

lemma outcome_of_Cons:
  "try_next a \<Longrightarrow> outcome_of le as out \<Longrightarrow> outcome_of le' (a # as) out"
  unfolding outcome_of_def
  by (auto split: sum.splits)

lemma execute_from_trace:
  assumes "execute_from env ctxd deadline i r w done lastErr cs = (r', w', done', out)"
    "\<forall>i. ae_started (env i) \<le> ae_ended (env i)" "router_wf r"
  shows "\<exists>as. done' = done @ as \<and> length as \<le> rt_maxAttempts r - i \<and>
           set (map att_Deployment as) \<subseteq> set (map (dep_ID \<circ> c_Deployment) cs) \<and>
           outcome_of lastErr as out \<and>
           (\<forall>d resp. out = Inr (d, resp) \<longrightarrow> d \<in> c_Deployment ` set cs)"
  using assms
proof (induction cs arbitrary: i r w "done" lastErr)
  case Nil
  then show ?case by (auto simp: outcome_of_def after_loop_def split: option.splits)
next
  case (Cons c cs)
  obtain r1 w1 done1 err1 nxt where s: "attempt_step (env i) ctxd deadline i r w done lastErr c = (r1, w1, done1, err1, nxt)"
    by (metis prod_cases5)
  have w: "router_wf r1" "rt_maxAttempts r1 = rt_maxAttempts r"
    using attempt_step_wf[OF Cons.prems(3) _ s] Cons.prems(2) by auto
  have rest: "\<exists>as. done' = done1 @ as \<and> length as \<le> rt_maxAttempts r - Suc i \<and>
           set (map att_Deployment as) \<subseteq> set (map (dep_ID \<circ> c_Deployment) cs) \<and>
           outcome_of err1 as out \<and> (\<forall>d resp. out = Inr (d, resp) \<longrightarrow> d \<in> c_Deployment ` set cs)"
    if "nxt = NextCandidate"
    using Cons.IH[of "Suc i" r1 w1 done1 err1] Cons.prems s that w by simp
  from s show ?case
  proof (cases rule: attempt_step_cases)
    case stop
    with Cons.prems(1) s show ?thesis
      by (auto simp: outcome_of_def after_loop_def split: option.splits)
  next
    case (skip b)
    from rest[OF skip(2)] obtain as where as: "done' = done1 @ as" "length as \<le> rt_maxAttempts r - Suc i"
      "set (map att_Deployment as) \<subseteq> set (map (dep_ID \<circ> c_Deployment) cs)" "outcome_of err1 as out"
      "\<forall>d resp. out = Inr (d, resp) \<longrightarrow> d \<in> c_Deployment ` set cs" by blast
    let ?a = "\<lparr>att_Deployment = dep_ID (c_Deployment c), att_Latency = 0, att_Err = None, att_Skipped = True\<rparr>"
    have "outcome_of lastErr (?a # as) out" by (rule outcome_of_Cons[OF _ as(4)]) (simp add: try_next_def)
    with as skip show ?thesis by (intro exI[of _ "?a # as"]) auto
  next
    case (vanished err)
    from rest[OF vanished(2)] obtain as where as: "done' = done1 @ as" "length as \<le> rt_maxAttempts r - Suc i"
      "set (map att_Deployment as) \<subseteq> set (map (dep_ID \<circ> c_Deployment) cs)" "outcome_of err1 as out"
      "\<forall>d resp. out = Inr (d, resp) \<longrightarrow> d \<in> c_Deployment ` set cs" by blast
    from as(4) have "outcome_of lastErr as out" by (simp add: outcome_of_def)
    with as vanished show ?thesis by (intro exI[of _ as]) auto
  next
    case (called lat left' out')
    let ?a = "\<lparr>att_Deployment = dep_ID (c_Deployment c), att_Latency = lat,
               att_Err = (case out' of Inl err \<Rightarrow> Some err | Inr _ \<Rightarrow> None), att_Skipped = False\<rparr>"
    show ?thesis
    proof (cases "nxt = NextCandidate")
      case True
      with called obtain err where e: "out' = Inl err" "IsRetryable (Some err)" by (auto split: sum.splits if_splits)
      from rest[OF True] obtain as where as: "done' = done1 @ as" "length as \<le> rt_maxAttempts r - Suc i"
        "set (map att_Deployment as) \<subseteq> set (map (dep_ID \<circ> c_Deployment) cs)" "outcome_of err1 as out"
        "\<forall>d resp. out = Inr (d, resp) \<longrightarrow> d \<in> c_Deployment ` set cs" by blast
      have "outcome_of lastErr (?a # as) out"
        by (rule outcome_of_Cons[OF _ as(4)]) (simp add: try_next_def e)
      with as called show ?thesis by (intro exI[of _ "?a # as"]) auto
    next
      case False
      with called(7) obtain res where n: "nxt = ReturnResult res" by (auto split: sum.splits if_splits)
      then have out: "out = res" "done' = done1" using Cons.prems(1) s by simp_all
      have "outcome_of lastErr [?a] out"
        using called(7) n by (auto simp: outcome_of_def out(1) split: sum.splits if_splits)
      moreover have "out = Inr (d, resp) \<Longrightarrow> d = c_Deployment c" for d resp
        using called(7) n by (auto simp: out(1) split: sum.splits if_splits)
      ultimately show ?thesis using called(1,6) out(2) by (intro exI[of _ "[?a]"]) auto
    qed
  qed
qed

lemma execute_from_world:
  \<comment> \<open>What every call to one of the candidates keeps of the caller's state, execution keeps.\<close>
  assumes "execute_from env ctxd deadline i r w done lastErr cs = (r', w', done', out)" "I w"
    "\<And>i left c w. c \<in> set cs \<Longrightarrow> I w \<Longrightarrow> I (snd (ae_call (env i) left (c_Deployment c) w))"
  shows "I w'"
  using assms
proof (induction cs arbitrary: i r w "done" lastErr)
  case (Cons c cs)
  obtain r1 w1 done1 err1 nxt where s: "attempt_step (env i) ctxd deadline i r w done lastErr c = (r1, w1, done1, err1, nxt)"
    by (metis prod_cases5)
  have "I w1" using s
  proof (cases rule: attempt_step_cases)
    case (called lat left out)
    then show ?thesis using Cons.prems(3)[of c w i left] Cons.prems(2) by (metis list.set_intros(1) snd_conv)
  qed (simp_all add: Cons.prems(2))
  with Cons.prems s show ?case by (auto split: loop_next.splits intro: Cons.IH)
qed simp

lemma execute_from_served:
  \<comment> \<open>A result is what the last call returned, made in a state the earlier calls kept the invariant of.\<close>
  assumes "execute_from env ctxd deadline i r w done lastErr cs = (r', w', done', Inr (d, resp))" "I w"
    "\<And>i left c w. c \<in> set cs \<Longrightarrow> I w \<Longrightarrow> I (snd (ae_call (env i) left (c_Deployment c) w))"
  shows "\<exists>j left w0. I w0 \<and> d \<in> c_Deployment ` set cs \<and> ae_call (env j) left d w0 = (Inr resp, w')"
  using assms
proof (induction cs arbitrary: i r w "done" lastErr)
  case Nil
  then show ?case by (auto simp: after_loop_def split: option.splits)
next
  case (Cons c cs)
  obtain r1 w1 done1 err1 nxt where s: "attempt_step (env i) ctxd deadline i r w done lastErr c = (r1, w1, done1, err1, nxt)"
    by (metis prod_cases5)
  have rest: ?case if "nxt = NextCandidate" "I w1"
    using Cons.IH[of "Suc i" r1 w1 done1 err1] Cons.prems s that by (auto intro: Cons.prems(3))
  from s show ?case
  proof (cases rule: attempt_step_cases)
    case stop
    with Cons.prems(1) s show ?thesis by (auto simp: after_loop_def split: option.splits)
  next
    case (skip b)
    with rest Cons.prems(2) show ?thesis by simp
  next
    case (vanished err)
    with rest Cons.prems(2) show ?thesis by simp
  next
    case (called lat left' out')
    have w1: "I w1" using called(4) Cons.prems(3)[of c w i left'] Cons.prems(2) by (metis list.set_intros(1) snd_conv)
    show ?thesis
    proof (cases "nxt = NextCandidate")
      case True
      with rest w1 show ?thesis by blast
    next
      case False
      with called(7) Cons.prems(1) s have "out' = Inr resp" "d = c_Deployment c" "w' = w1"
        by (auto split: sum.splits if_splits)
      with called(4) Cons.prems(2) show ?thesis by (metis image_eqI list.set_intros(1))
    qed
  qed
qed

section \<open>Properties\<close>

text \<open>Claim C19. Selection offers exactly the deployments that may serve the request: the candidates are the eligible targets of the
  model, each as often as it is configured, in some order, and at least one. When there is none the error says why, in a
  fixed order of reasons: an unknown model, nothing serving, no sufficient trust tier, or the endpoint.\<close>

theorem Select_offers_exactly_the_eligible:
  "case Select providers r now draw inp of
     (r', Inr cs) \<Rightarrow> cs \<noteq> [] \<and> mset (map c_Deployment cs) = mset (filter (eligible providers inp) (targets_of inp))
   | (r', Inl e) \<Rightarrow> filter (eligible providers inp) (targets_of inp) = [] \<and>
       e = selectionError (si_Model inp) (si_MinTrustTier inp) (targets_of inp \<noteq> []) (list_ex Serving (targets_of inp))
             (list_ex (\<lambda>d. Serving d \<and> AtLeast (dep_TrustTier d) (si_MinTrustTier inp)) (targets_of inp))"
proof -
  obtain r' out where s: "Select providers r now draw inp = (r', out)" by fastforce
  show ?thesis
  proof (cases out)
    case (Inl e)
    with Select_Inl[of providers r now draw inp r' e] s show ?thesis by (simp add: list_ex_iff)
  next
    case (Inr cs)
    with Select_Inr[of providers r now draw inp r' cs] s show ?thesis by simp
  qed
qed

text \<open>Claim C20. Execution falls back and stops as configured: at most \<open>maxAttempts\<close> attempts are recorded, all on offered candidates;
  on success the last attempt is the one that served and every attempt before it was skipped or failed with a retryable
  error; on failure either all did, or the last one failed with an error that must not be retried, which is returned.\<close>

theorem Execute_attempts:
  assumes "router_wf r" "\<And>i. ae_started (env i) \<le> ae_ended (env i)"
  shows "case Execute env ctxd deadline r w cs of (r', w', as, out) \<Rightarrow>
           length as \<le> rt_maxAttempts r \<and> set (map att_Deployment as) \<subseteq> set (map (dep_ID \<circ> c_Deployment) cs) \<and>
           (case out of
              Inr (d, resp) \<Rightarrow> \<exists>before lat. as = before @ [\<lparr>att_Deployment = dep_ID d, att_Latency = lat, att_Err = None, att_Skipped = False\<rparr>] \<and>
                 list_all try_next before
            | Inl e \<Rightarrow> (list_all try_next as \<or>
                (\<exists>before a. as = before @ [a] \<and> list_all try_next before \<and> \<not> att_Skipped a \<and> att_Err a = Some e \<and> \<not> IsRetryable (Some e))))"
proof -
  obtain r' w' as out where e: "Execute env ctxd deadline r w cs = (r', w', as, out)" by (metis prod_cases4)
  from execute_from_trace[OF e[unfolded Execute_def] _ assms(1)] assms(2)
  have "length as \<le> rt_maxAttempts r" "set (map att_Deployment as) \<subseteq> set (map (dep_ID \<circ> c_Deployment) cs)" "outcome_of None as out"
    by auto
  with e show ?thesis by (simp only: outcome_of_def prod.case simp_thms)
qed

text \<open>Claim C37. An error that must not be retried loses a recovering deployment: when its breaker has cooled down and the request let
  through as the probe fails with such an error, \<open>Execute\<close> returns without reporting to the breaker, which from then on
  refuses every request at every time.\<close>

theorem lost_probe_blocks_the_deployment:
  assumes "br_state (breakerFor r (dep_ID (c_Deployment c))) = Open"
    "cooldown (breakerFor r (dep_ID (c_Deployment c))) \<le> ae_begin (env 0) - openedAt (breakerFor r (dep_ID (c_Deployment c)))"
    "0 < rt_maxAttempts r" "ae_provider (env 0)"
    "minAttemptBudget \<le> router_remaining ctxd deadline (ae_begin (env 0))"
    "fst (ae_call (env 0) (router_remaining ctxd deadline (ae_begin (env 0))) (c_Deployment c) w) = Inl err" "\<not> IsRetryable (Some err)"
  shows "case Execute env ctxd deadline r w (c # cs) of (r', w', as, out) \<Rightarrow>
           out = Inl err \<and> (\<forall>now. Allow (breakerFor r' (dep_ID (c_Deployment c))) now = (False, breakerFor r' (dep_ID (c_Deployment c))))"
proof -
  let ?i = "dep_ID (c_Deployment c)" let ?b = "breakerFor r ?i"
  let ?p = "?b\<lparr>br_state := HalfOpen, successes := 0, probeInFlight := True\<rparr>"
  have a: "Allow ?b (ae_begin (env 0)) = (True, ?p)" using assms(1,2) by (simp add: Allow_def)
  obtain as where "attempt_step (env 0) ctxd deadline 0 r w [] None c =
      (router_saw (set_breaker r ?i ?p) ?i (ae_started (env 0)),
       snd (ae_call (env 0) (router_remaining ctxd deadline (ae_begin (env 0))) (c_Deployment c) w), as, Some err, ReturnResult (Inl err))"
    using assms(3-7) a by (simp add: attempt_step_def Let_def)
  moreover have "breakerFor (router_saw (set_breaker r ?i ?p) ?i t) ?i = ?p" for t
    by (simp add: router_saw_def breakerFor_def set_breaker_def split: option.split)
  ultimately show ?thesis by (simp add: Execute_def Allow_def)
qed

definition ex_candidate :: candidate where
  "ex_candidate = \<lparr>c_Deployment = ex_internal, c_Score = 1, c_Health = 1\<rparr>"

definition ex_refused :: go_error where
  "ex_refused = err_New CodeUpstreamError ''provider returned 400''"

definition ex_attempts :: "nat \<Rightarrow> (unit, unit) attempt_env" where
  "ex_attempts i = \<lparr>ae_begin = 100, ae_started = 100, ae_ended = 200, ae_jitter = 0, ae_done_within = (\<lambda>_. False), ae_provider = True,
     ae_call = (\<lambda>_ _ w. (Inl ex_refused, w))\<rparr>"

definition ex_open :: router where
  "ex_open = set_breaker (router_New None None [WithCooldown 10] None) ''int'' ((NewBreaker [WithCooldown 10])\<lparr>br_state := Open, openedAt := 50\<rparr>)"

theorem lost_probe_blocks_the_deployment_witness:
  "case Execute ex_attempts None 0 ex_open () [ex_candidate] of (r', w', as, out) \<Rightarrow>
     out = Inl ex_refused \<and> (\<forall>now. Allow (breakerFor r' ''int'') now = (False, breakerFor r' ''int''))"
proof -
  have i: "dep_ID (c_Deployment ex_candidate) = ''int''" by (simp add: ex_candidate_def ex_internal_def ex_deployment_def)
  have b: "breakerFor ex_open ''int'' = (NewBreaker [WithCooldown 10])\<lparr>br_state := Open, openedAt := 50\<rparr>"
    by (simp add: ex_open_def breakerFor_def set_breaker_def)
  show ?thesis
    using lost_probe_blocks_the_deployment[of ex_open ex_candidate ex_attempts None 0 "()" ex_refused "[]"]
    unfolding i b
    by (simp add: NewBreaker_def ex_attempts_def ex_open_def set_breaker_def router_New_def DefaultMaxAttempts_def router_remaining_def
        minAttemptBudget_def ex_refused_def)
qed

lemma ex_open_wf: "router_wf ex_open"
  by (auto simp: router_wf_def ex_open_def set_breaker_def router_New_def breaker_wf_def NewBreaker_def DefaultFailureThreshold_def
      DefaultHalfOpenSuccesses_def split: if_splits)

theorem Execute_attempts_witness:
  "case Execute ex_attempts None 0 ex_open () [ex_candidate, ex_candidate] of (r', w', as, out) \<Rightarrow> length as \<le> rt_maxAttempts ex_open"
  using Execute_attempts[OF ex_open_wf, where env = ex_attempts and ctxd = None and deadline = 0 and w = "()" and cs = "[ex_candidate, ex_candidate]"]
  by (auto simp: ex_attempts_def split: prod.splits)

end
