(* ===== verification/KV_Store.thy ===== *)
theory KV_Store
  imports Core_Identity
begin

text \<open>
  The store port of \<open>dataplane/internal/core/ports.go\<close> (\<open>KVStore\<close>) and its in-process
  implementation \<open>dataplane/internal/adapters/memkv\<close>. The interface is a record of operations over
  a store state; its contract is the locale \<open>kv_store\<close>, stated over the content of the store: for
  each key a value and an expiry time. The rate limiter and the PII vault are proved against the
  contract and the in-process store is shown to satisfy it.
\<close>

section \<open>The port\<close>

record 's kv_ops =
  kv_Get :: "'s \<Rightarrow> gotime \<Rightarrow> string \<Rightarrow> go_error + string option"
  kv_Set :: "'s \<Rightarrow> gotime \<Rightarrow> string \<Rightarrow> string \<Rightarrow> duration \<Rightarrow> go_error option \<times> 's"
  kv_Incr :: "'s \<Rightarrow> gotime \<Rightarrow> string \<Rightarrow> int \<Rightarrow> duration \<Rightarrow> (go_error + int) \<times> 's"
  kv_Delete :: "'s \<Rightarrow> string \<Rightarrow> go_error option \<times> 's"

section \<open>The in-process store\<close>

record mem_entry =
  e_value :: string
  e_expiresAt :: gotime

type_synonym mem_store = "(string, mem_entry) gomap"

definition mem_New :: mem_store where
  "mem_New = []"

definition mem_expired :: "gotime \<Rightarrow> mem_entry \<Rightarrow> bool" where
  "mem_expired now e = (e_expiresAt e \<noteq> 0 \<and> now > e_expiresAt e)"

definition mem_Get :: "mem_store \<Rightarrow> gotime \<Rightarrow> string \<Rightarrow> go_error + string option" where
  "mem_Get s now key =
     (case map_of s key of
        None \<Rightarrow> Inr None
      | Some e \<Rightarrow> if mem_expired now e then Inr None else Inr (Some (e_value e)))"

definition mem_Set :: "mem_store \<Rightarrow> gotime \<Rightarrow> string \<Rightarrow> string \<Rightarrow> duration \<Rightarrow> go_error option \<times> mem_store" where
  "mem_Set s now key val ttl = (None, AList.update key \<lparr>e_value = val, e_expiresAt = now + ttl\<rparr> s)"

definition mem_parseInt :: "string \<Rightarrow> go_error + int" where
  "mem_parseInt b = (case ParseInt b of None \<Rightarrow> Inl (Foreign ''strconv.ParseInt'' None) | Some n \<Rightarrow> Inr n)"

definition mem_formatInt :: "int \<Rightarrow> string" where
  "mem_formatInt v = FormatInt v"

definition mem_Incr :: "mem_store \<Rightarrow> gotime \<Rightarrow> string \<Rightarrow> int \<Rightarrow> duration \<Rightarrow> (go_error + int) \<times> mem_store" where
  "mem_Incr s now key delta ttl =
     (let fresh = (case map_of s key of None \<Rightarrow> None | Some e \<Rightarrow> if mem_expired now e then None else Some e) in
      case (case fresh of
              None \<Rightarrow> Inr (0, now + ttl)
            | Some e \<Rightarrow> (case mem_parseInt (e_value e) of
                Inl err \<Rightarrow> Inl (GwError CodeInternal (Msg ''counter holds a non-numeric value'' []) False (Some err))
              | Inr n \<Rightarrow> Inr (n, e_expiresAt e))) of
        Inl err \<Rightarrow> (Inl err, s)
      | Inr (current, expiresAt) \<Rightarrow>
          (let total = i64 (current + delta)
           in (Inr total, AList.update key \<lparr>e_value = mem_formatInt total, e_expiresAt = expiresAt\<rparr> s)))"

definition mem_Delete :: "mem_store \<Rightarrow> string \<Rightarrow> go_error option \<times> mem_store" where
  "mem_Delete s key = (None, AList.delete key s)"

definition mem_Sweep :: "mem_store \<Rightarrow> gotime \<Rightarrow> nat \<times> mem_store" where
  "mem_Sweep s now =
     (length (filter (\<lambda>(_, e). mem_expired now e) s), filter (\<lambda>(_, e). \<not> mem_expired now e) s)"

definition mem_Len :: "mem_store \<Rightarrow> nat" where
  "mem_Len s = length s"

definition memkv_ops :: "mem_store kv_ops" where
  "memkv_ops = \<lparr>kv_Get = mem_Get, kv_Set = mem_Set, kv_Incr = mem_Incr, kv_Delete = mem_Delete\<rparr>"

section \<open>The contract\<close>

type_synonym kv_content = "string \<Rightarrow> (string \<times> gotime) option"

definition live :: "gotime \<Rightarrow> (string \<times> gotime) option \<Rightarrow> (string \<times> gotime) option" where
  "live now c = (case c of None \<Rightarrow> None | Some (v, e) \<Rightarrow> if e \<noteq> 0 \<and> now > e then None else Some (v, e))"

text \<open>
  The port promises lifetimes of whole milliseconds: a store whose clock ticks in milliseconds keeps a value at least as
  long as asked and less than a millisecond longer.
\<close>

definition ttl_ok :: "duration \<Rightarrow> bool" where
  "ttl_ok ttl = (0 < ttl \<and> ttl mod millisecond = 0)"

definition expires_in :: "gotime \<Rightarrow> duration \<Rightarrow> gotime \<Rightarrow> bool" where
  "expires_in now ttl e = (now + ttl \<le> e \<and> e < now + ttl + millisecond)"

text \<open>
  What an increment does to the content when it is applied \<open>m\<close> times: the total, and an expiry set when the counter is
  created. A client that retries after a lost reply applies it more than once. A value that never expires (expiry zero)
  may be given one, as it is by a server that sets what is missing.
\<close>

definition incr_effect :: "nat \<Rightarrow> gotime \<Rightarrow> string \<Rightarrow> int \<Rightarrow> duration \<Rightarrow> kv_content \<Rightarrow> int \<Rightarrow> kv_content \<Rightarrow> bool" where
  "incr_effect m now k d ttl c n c' =
     (case live now (c k) of
        None \<Rightarrow> n = i64 (int m * d) \<and> (\<exists>e. expires_in now ttl e \<and> c' = c(k \<mapsto> (FormatInt n, e)))
      | Some (v, e) \<Rightarrow> (case ParseInt v of
          None \<Rightarrow> False
        | Some cur \<Rightarrow> n = i64 (cur + int m * d) \<and>
            (\<exists>e'. (e' = e \<or> e = 0 \<and> expires_in now ttl e') \<and> c' = c(k \<mapsto> (FormatInt n, e')))))"

lemma expires_in_exact [simp, intro]: "expires_in now ttl (now + ttl)"
  by (simp add: expires_in_def)

lemma i64_add_left: "i64 (i64 x + y) = i64 (x + y)"
  unfolding i64_def
  by (metis signed_take_bit_add signed_take_bit_signed_take_bit min.idem)

text \<open>Increments applied one after the other at the same time add up.\<close>

lemma incr_effect_trans:
  assumes "incr_effect m now k d ttl c n c1" "incr_effect 1 now k d ttl c1 n' c2" "0 < ttl"
  shows "incr_effect (Suc m) now k d ttl c n' c2"
proof -
  obtain x e where x: "n = i64 x" "c1 = c(k \<mapsto> (FormatInt n, e))" "e = 0 \<or> now \<le> e"
    and shape: "live now (c k) = None \<and> x = int m * d \<and> expires_in now ttl e \<or>
      (\<exists>v e0 cur. live now (c k) = Some (v, e0) \<and> ParseInt v = Some cur \<and> x = cur + int m * d \<and>
         (e = e0 \<or> e0 = 0 \<and> expires_in now ttl e))"
    using assms(1,3)
    by (fastforce simp: incr_effect_def live_def expires_in_def split: option.splits if_splits)
  have "live now (c1 k) = Some (FormatInt n, e)" using x by (auto simp: live_def)
  moreover have "ParseInt (FormatInt n) = Some n" using i64_range[of x] x(1) by (intro ParseInt_FormatInt) auto
  ultimately obtain e' where e': "n' = i64 (x + d)" "c2 = c(k \<mapsto> (FormatInt n', e'))" "e' = e \<or> e = 0 \<and> expires_in now ttl e'"
    using assms(2) x by (auto simp: incr_effect_def i64_add_left)
  from shape show ?thesis
  proof
    assume "live now (c k) = None \<and> x = int m * d \<and> expires_in now ttl e"
    with e' show ?thesis by (auto simp: incr_effect_def algebra_simps)
  next
    assume "\<exists>v e0 cur. live now (c k) = Some (v, e0) \<and> ParseInt v = Some cur \<and> x = cur + int m * d \<and>
         (e = e0 \<or> e0 = 0 \<and> expires_in now ttl e)"
    with e' show ?thesis by (auto simp: incr_effect_def algebra_simps)
  qed
qed

locale kv_store =
  fixes ops :: "'s kv_ops"
    and content :: "'s \<Rightarrow> kv_content"
    and tries :: nat
  assumes get_law: "kv_Get ops s now k = Inr r \<Longrightarrow> r = map_option fst (live now (content s k))"
    and set_law: "kv_Set ops s now k v ttl = (None, s') \<Longrightarrow> ttl_ok ttl \<Longrightarrow>
          \<exists>e. expires_in now ttl e \<and> content s' = (content s)(k \<mapsto> (v, e))"
    and incr_law: "kv_Incr ops s now k d ttl = (Inr n, s') \<Longrightarrow> ttl_ok ttl \<Longrightarrow>
          \<exists>m. 1 \<le> m \<and> m \<le> tries \<and> incr_effect m now k d ttl (content s) n (content s')"
    and incr_error_law: "kv_Incr ops s now k d ttl = (Inl e, s') \<Longrightarrow> ttl_ok ttl \<Longrightarrow>
          content s' = content s \<or>
          (\<exists>m n. 1 \<le> m \<and> m \<le> tries \<and> incr_effect m now k d ttl (content s) n (content s'))"
    and delete_law: "kv_Delete ops s k = (None, s') \<Longrightarrow> content s' = (content s)(k := None)"
begin

text \<open>A key is a counter through \<open>T\<close>: absent, or a decimal number that does not expire before \<open>T\<close>.\<close>

definition counts :: "'s \<Rightarrow> string \<Rightarrow> gotime \<Rightarrow> int \<Rightarrow> bool" where
  "counts s k T n =
     (case content s k of None \<Rightarrow> n = 0
      | Some (v, e) \<Rightarrow> ParseInt v = Some n \<and> (e = 0 \<or> T \<le> e))"

lemma counts_fun: "counts s k T n \<Longrightarrow> counts s k T m \<Longrightarrow> n = m"
  by (auto simp: counts_def split: option.splits)

lemma incr_effect_counts:
  assumes "counts s k T n" "now \<le> T" "T \<le> now + ttl" "0 \<le> n" "0 \<le> d" "n + int m * d < 2 ^ 63"
    and "incr_effect m now k d ttl (content s) r (content s')"
  shows "r = n + int m * d" "counts s' k T (n + int m * d)"
proof -
  have nn: "0 \<le> n + int m * d" using assms by simp
  have i: "i64 (n + int m * d) = n + int m * d" using nn assms(6) by (simp add: i64_id_nonneg)
  have p: "ParseInt (FormatInt (n + int m * d)) = Some (n + int m * d)"
    using nn assms(6) by (intro ParseInt_FormatInt) auto
  have "r = n + int m * d \<and> (\<exists>e. content s' k = Some (FormatInt (n + int m * d), e) \<and> (e = 0 \<or> T \<le> e))"
    using assms(1-3,7) i
    by (auto simp: counts_def incr_effect_def live_def expires_in_def split: option.splits if_splits)
  with p show "r = n + int m * d" "counts s' k T (n + int m * d)" by (auto simp: counts_def)
qed

lemma incr_counts:
  assumes "kv_Incr ops s now k d ttl = (r, s')" "counts s k T n" "now \<le> T" "T \<le> now + ttl"
    "0 \<le> n" "0 \<le> d" "n + int tries * d < 2 ^ 63" "ttl_ok ttl"
  shows "case r of Inr v \<Rightarrow> \<exists>m. 1 \<le> m \<and> m \<le> tries \<and> v = n + int m * d \<and> counts s' k T (n + int m * d)
         | Inl _ \<Rightarrow> \<exists>m \<le> tries. counts s' k T (n + int m * d)"
proof -
  have fits: "n + int m * d < 2 ^ 63" if "m \<le> tries" for m
    using mult_right_mono[of "int m" "int tries" d] that assms(6,7) by simp
  note effect = incr_effect_counts[OF assms(2-6) fits]
  show ?thesis
  proof (cases r)
    case (Inl e)
    from incr_error_law[OF assms(1)[unfolded Inl] assms(8)] show ?thesis
    proof
      assume "content s' = content s"
      with assms(2) have "counts s' k T (n + int 0 * d)" by (simp add: counts_def)
      then show ?thesis unfolding Inl sum.case by blast
    next
      assume "\<exists>m n. 1 \<le> m \<and> m \<le> tries \<and> incr_effect m now k d ttl (content s) n (content s')"
      with effect(2) show ?thesis by (auto simp: Inl)
    qed
  next
    case (Inr v)
    from incr_law[OF assms(1)[unfolded Inr] assms(8)] effect show ?thesis by (force simp: Inr)
  qed
qed

lemma set_get:
  assumes "kv_Set ops s now k v ttl = (None, s')" "kv_Get ops s' now' k = Inr r"
    "now' \<le> now + ttl" "ttl_ok ttl"
  shows "r = Some v"
  using set_law[OF assms(1,4)] get_law[OF assms(2)] assms(3) by (auto simp: live_def expires_in_def)

lemma set_frame:
  assumes "kv_Set ops s now k v ttl = (None, s')" "ttl_ok ttl" "k' \<noteq> k"
  shows "content s' k' = content s k'"
  using set_law[OF assms(1,2)] assms(3) by auto

end

section \<open>The in-process store satisfies the contract\<close>

definition mem_content :: "mem_store \<Rightarrow> kv_content" where
  "mem_content s k = map_option (\<lambda>e. (e_value e, e_expiresAt e)) (map_of s k)"

lemma mem_content_update:
  "mem_content (AList.update k \<lparr>e_value = v, e_expiresAt = t\<rparr> s) = (mem_content s)(k \<mapsto> (v, t))"
  by (rule ext) (simp add: mem_content_def)

lemma live_mem_content:
  "live now (mem_content s k) =
     (case map_of s k of None \<Rightarrow> None
      | Some e \<Rightarrow> if mem_expired now e then None else Some (e_value e, e_expiresAt e))"
  by (simp add: live_def mem_content_def mem_expired_def split: option.splits)

lemma mem_Incr_cases:
  assumes "mem_Incr s now k d ttl = (r, s')"
  shows "(\<exists>e. r = Inl e \<and> s' = s) \<or>
         (\<exists>n. r = Inr n \<and> incr_effect 1 now k d ttl (mem_content s) n (mem_content s'))"
  using assms
  by (auto simp: mem_Incr_def incr_effect_def live_mem_content mem_content_update mem_parseInt_def
      mem_formatInt_def Let_def split: option.splits if_splits)

interpretation mem: kv_store memkv_ops mem_content 1
proof
  fix s now k r
  assume "kv_Get memkv_ops s now k = Inr r"
  then show "r = map_option fst (live now (mem_content s k))"
    by (auto simp: memkv_ops_def mem_Get_def live_mem_content split: option.splits if_splits)
next
  fix s now k v ttl s'
  assume "kv_Set memkv_ops s now k v ttl = (None, s')"
  then have "mem_content s' = (mem_content s)(k \<mapsto> (v, now + ttl))"
    by (auto simp: memkv_ops_def mem_Set_def mem_content_update)
  then show "\<exists>e. expires_in now ttl e \<and> mem_content s' = (mem_content s)(k \<mapsto> (v, e))"
    by (intro exI[of _ "now + ttl"]) (simp add: expires_in_def)
next
  fix s now k d ttl n s'
  assume "kv_Incr memkv_ops s now k d ttl = (Inr n, s')"
  then show "\<exists>m. 1 \<le> m \<and> m \<le> 1 \<and> incr_effect m now k d ttl (mem_content s) n (mem_content s')"
    using mem_Incr_cases[of s now k d ttl "Inr n" s'] by (auto simp: memkv_ops_def)
next
  fix s now k d ttl e s'
  assume "kv_Incr memkv_ops s now k d ttl = (Inl e, s')"
  then show "mem_content s' = mem_content s \<or>
    (\<exists>m n. 1 \<le> m \<and> m \<le> 1 \<and> incr_effect m now k d ttl (mem_content s) n (mem_content s'))"
    using mem_Incr_cases[of s now k d ttl "Inl e" s'] by (auto simp: memkv_ops_def)
next
  fix s k s'
  assume "kv_Delete memkv_ops s k = (None, s')"
  then show "mem_content s' = (mem_content s)(k := None)"
    by (auto simp: memkv_ops_def mem_Delete_def mem_content_def)
qed

lemma mem_Sweep_content:
  assumes "gomap_wf s" "mem_Sweep s now = (n, s')" "now \<le> now'"
  shows "mem_Get s' now' k = mem_Get s now' k"
proof -
  have s': "s' = filter (\<lambda>(_, e). \<not> mem_expired now e) s"
    using assms(2) by (simp add: mem_Sweep_def)
  have wf': "gomap_wf s'" unfolding s' by (metis assms(1) distinct_map_filter)
  have mono: "mem_expired now e \<Longrightarrow> mem_expired now' e" for e
    using assms(3) by (auto simp: mem_expired_def)
  have iff: "map_of s' k = Some e \<longleftrightarrow> map_of s k = Some e \<and> \<not> mem_expired now e" for e
    using assms(1) wf' by (auto simp flip: set_map_of simp: s')
  show ?thesis
  proof (cases "map_of s k")
    case None
    with iff have "map_of s' k = None" by (metis not_None_eq)
    with None show ?thesis by (simp add: mem_Get_def)
  next
    case (Some e)
    show ?thesis
    proof (cases "mem_expired now e")
      case True
      with Some iff have "map_of s' k = None" by (metis not_None_eq option.inject)
      with Some True mono show ?thesis by (simp add: mem_Get_def)
    next
      case False
      with Some iff have "map_of s' k = Some e" by simp
      with Some show ?thesis by (simp add: mem_Get_def)
    qed
  qed
qed

end
