(* ===== verification/Rate_Limits.thy ===== *)
theory Rate_Limits
  imports KV_Store
begin

text \<open>
  \<open>dataplane/internal/limits\<close>: the local bucket of permits (\<open>bucket.go\<close>) and the limiter that
  refills it from a shared window counter (\<open>limiter.go\<close>). The store is a parameter, as in the
  source. One call reads the clock once here; the step relation at the end lets every step of
  every worker happen at its own time, in any order, which is how concurrent callers interleave.
\<close>

section \<open>Buckets\<close>

record bucket =
  remaining :: int
  expiresAt :: gotime
  refreshing :: bool

definition new_bucket :: bucket where
  "new_bucket = \<lparr>remaining = 0, expiresAt = 0, refreshing = False\<rparr>"

definition bucket_Take :: "bucket \<Rightarrow> gotime \<Rightarrow> bool \<times> bool \<times> bucket" where
  \<comment> \<open>Whether a permit was taken, whether the caller should refill, and the bucket.\<close>
  "bucket_Take b now =
     (let b1 = (if now > expiresAt b then b\<lparr>remaining := 0\<rparr> else b) in
      if remaining b1 > 0
      then (let b2 = b1\<lparr>remaining := remaining b1 - 1\<rparr> in (True, \<not> refreshing b2 \<and> remaining b2 = 0, b2))
      else (False, \<not> refreshing b1, b1))"

definition BeginRefill :: "bucket \<Rightarrow> bool \<times> bucket" where
  "BeginRefill b = (if refreshing b then (False, b) else (True, b\<lparr>refreshing := True\<rparr>))"

definition Grant :: "bucket \<Rightarrow> int \<Rightarrow> gotime \<Rightarrow> bucket" where
  "Grant b permits t =
     (if permits > 0 then b\<lparr>remaining := remaining b + permits, expiresAt := t\<rparr> else b)\<lparr>refreshing := False\<rparr>"

definition AbandonRefill :: "bucket \<Rightarrow> bucket" where
  "AbandonRefill b = b\<lparr>refreshing := False\<rparr>"

section \<open>The limiter\<close>

definition Window :: duration where
  "Window = minute"

definition DefaultLeaseSize :: int where
  "DefaultLeaseSize = 25"

record limit_decision =
  ld_Allowed :: bool
  ld_Reason :: code
  ld_RetryAfter :: duration

definition allowed :: limit_decision where
  "allowed = \<lparr>ld_Allowed = True, ld_Reason = CodeNone, ld_RetryAfter = 0\<rparr>"

definition rate_limited :: "duration \<Rightarrow> limit_decision" where
  "rate_limited d = \<lparr>ld_Allowed = False, ld_Reason = CodeRateLimited, ld_RetryAfter = d\<rparr>"

record limiter =
  lim_lease :: int
  lim_buckets :: "(string, bucket) gomap"
  lim_concurrent :: "(string, int) gomap"
  lim_failedOpen :: int

text \<open>\<open>New\<close> with the lease size option; a size that is not positive leaves the default.\<close>

definition limiter_New :: "int option \<Rightarrow> limiter" where
  "limiter_New opt =
     \<lparr>lim_lease = (case opt of Some n \<Rightarrow> if n > 0 then n else DefaultLeaseSize | None \<Rightarrow> DefaultLeaseSize),
      lim_buckets = [], lim_concurrent = [], lim_failedOpen = 0\<rparr>"

definition limit_key :: "gotime \<Rightarrow> principal \<Rightarrow> string \<Rightarrow> string" where
  "limit_key now p dimension =
     ''rl:'' @ p_Tenant p @ '':'' @ p_KeyID p @ '':'' @ dimension @ '':'' @
     FormatInt (time_Unix (time_Truncate now Window))"

definition windowEnd :: "gotime \<Rightarrow> gotime" where
  "windowEnd now = time_Truncate now Window + Window"

definition untilWindowRolls :: "gotime \<Rightarrow> duration" where
  "untilWindowRolls now = (let r = windowEnd now - now in if r < second then second else r)"

definition lease_share :: "int \<Rightarrow> int \<Rightarrow> int \<Rightarrow> int" where
  \<comment> \<open>What of a lease falls inside the limit, given the counter after it.\<close>
  "lease_share lease limit used =
     (let overshoot = used - limit in
      if overshoot \<ge> lease then 0 else if overshoot > 0 then lease - overshoot else lease)"

text \<open>The result of \<open>leaseFrom\<close>: the permits, whether it failed open, and the store.\<close>

definition leaseFrom :: "'s kv_ops \<Rightarrow> int \<Rightarrow> 's \<Rightarrow> gotime \<Rightarrow> string \<Rightarrow> int \<Rightarrow> int \<times> bool \<times> 's" where
  "leaseFrom ops lease s now key limit =
     (case kv_Incr ops s now key lease (Window * 2) of
        (Inl e, s') \<Rightarrow> (lease, True, s')
      | (Inr used, s') \<Rightarrow> (lease_share lease limit used, False, s'))"

definition get_bucket :: "limiter \<Rightarrow> string \<Rightarrow> bucket" where
  "get_bucket l key = gomap_get new_bucket (lim_buckets l) key"

definition put_bucket :: "limiter \<Rightarrow> string \<Rightarrow> bucket \<Rightarrow> limiter" where
  "put_bucket l key b = l\<lparr>lim_buckets := AList.update key b (lim_buckets l)\<rparr>"

definition limiter_take :: "'s kv_ops \<Rightarrow> limiter \<Rightarrow> 's \<Rightarrow> gotime \<Rightarrow> string \<Rightarrow> int \<Rightarrow> bool \<times> limiter \<times> 's" where
  "limiter_take ops l s now key limit =
     (case bucket_Take (get_bucket l key) now of (taken, shouldRefill, b1) \<Rightarrow>
        if \<not> shouldRefill then (taken, put_bucket l key b1, s)
        else (case BeginRefill b1 of (won, b2) \<Rightarrow>
          if \<not> won then (taken, put_bucket l key b2, s)
          else (case leaseFrom ops (lim_lease l) s now key limit of (granted, failed, s') \<Rightarrow>
            let b3 = Grant b2 granted (windowEnd now);
                l' = (if failed then l\<lparr>lim_failedOpen := lim_failedOpen l + 1\<rparr> else l)
            in if taken then (True, put_bucket l' key b3, s')
               else (case bucket_Take b3 now of (again, _, b4) \<Rightarrow> (again, put_bucket l' key b4, s')))))"

definition windowSpent :: "'s kv_ops \<Rightarrow> limiter \<Rightarrow> 's \<Rightarrow> gotime \<Rightarrow> string \<Rightarrow> int \<Rightarrow> bool \<times> limiter" where
  "windowSpent ops l s now key limit =
     (case kv_Get ops s now key of
        Inl e \<Rightarrow> (False, l\<lparr>lim_failedOpen := lim_failedOpen l + 1\<rparr>)
      | Inr None \<Rightarrow> (False, l)
      | Inr (Some raw) \<Rightarrow> (case ParseInt raw of None \<Rightarrow> (False, l) | Some used \<Rightarrow> (used \<ge> limit, l)))"

definition acquireSlot :: "limiter \<Rightarrow> principal \<Rightarrow> bool \<times> limiter" where
  "acquireSlot l p =
     (let n = gomap_get 0 (lim_concurrent l) (p_KeyID p) + 1 in
      if n > int (MaxConcurrent (p_Limits p))
      then (False, l\<lparr>lim_concurrent := AList.update (p_KeyID p) (n - 1) (lim_concurrent l)\<rparr>)
      else (True, l\<lparr>lim_concurrent := AList.update (p_KeyID p) n (lim_concurrent l)\<rparr>))"

definition releaseSlot :: "limiter \<Rightarrow> principal \<Rightarrow> limiter" where
  "releaseSlot l p =
     (case map_of (lim_concurrent l) (p_KeyID p) of
        None \<Rightarrow> l
      | Some n \<Rightarrow> l\<lparr>lim_concurrent :=
            AList.update (p_KeyID p) (if n - 1 < 0 then 0 else n - 1) (lim_concurrent l)\<rparr>)"

definition Admit :: "'s kv_ops \<Rightarrow> limiter \<Rightarrow> 's \<Rightarrow> gotime \<Rightarrow> principal \<Rightarrow> limit_decision \<times> limiter \<times> 's" where
  "Admit ops l s now p =
     (if Unlimited (p_Limits p) then (allowed, l, s)
      else (case (if MaxConcurrent (p_Limits p) > 0 then acquireSlot l p else (True, l)) of (slot, l1) \<Rightarrow>
        if \<not> slot then (rate_limited second, l1, s)
        else (case (if RequestsPerMinute (p_Limits p) > 0
                    then limiter_take ops l1 s now (limit_key now p ''rpm'') (int (RequestsPerMinute (p_Limits p)))
                    else (True, l1, s)) of (ok, l2, s2) \<Rightarrow>
          if \<not> ok then (rate_limited (untilWindowRolls now), releaseSlot l2 p, s2)
          else (case (if TokensPerMinute (p_Limits p) > 0
                      then windowSpent ops l2 s2 now (limit_key now p ''tpm'') (int (TokensPerMinute (p_Limits p)))
                      else (False, l2)) of (spent, l3) \<Rightarrow>
            if spent then (rate_limited (untilWindowRolls now), releaseSlot l3 p, s2)
            else (allowed, l3, s2)))))"

definition limiter_Release :: "limiter \<Rightarrow> principal \<Rightarrow> limiter" where
  "limiter_Release l p = (if MaxConcurrent (p_Limits p) > 0 then releaseSlot l p else l)"

definition RecordTokens :: "'s kv_ops \<Rightarrow> 's \<Rightarrow> gotime \<Rightarrow> principal \<Rightarrow> int \<Rightarrow> 's" where
  "RecordTokens ops s now p tokens =
     (if TokensPerMinute (p_Limits p) = 0 \<or> tokens \<le> 0 then s
      else snd (kv_Incr ops s now (limit_key now p ''tpm'') tokens (Window * 2)))"

section \<open>A fleet of workers on one window key\<close>

text \<open>
  Workers share the store and each has a bucket for the key. A request on a worker is made of the
  steps \<open>take\<close>, \<open>begin\<close>, \<open>lease\<close> and \<open>grant\<close>, which other requests on the same or on other workers
  may interleave with. \<open>f_leased\<close> are leases fetched from the store and not yet granted;
  \<open>f_failed\<close> counts leases handed out because the store failed.
\<close>

record 's fleet =
  f_store :: 's
  f_buckets :: "bucket list"
  f_leased :: "(nat \<times> int) list"
  f_admitted :: int
  f_failed :: int

inductive fleet_step :: "'s kv_ops \<Rightarrow> int \<Rightarrow> int \<Rightarrow> string \<Rightarrow> gotime \<Rightarrow> 's fleet \<Rightarrow> 's fleet \<Rightarrow> bool"
  for ops lease limit key T where
  step_take:
    "w < length (f_buckets f) \<Longrightarrow> bucket_Take (f_buckets f ! w) now = (taken, refill, b) \<Longrightarrow>
     fleet_step ops lease limit key T f
       (f\<lparr>f_buckets := (f_buckets f)[w := b],
          f_admitted := f_admitted f + (if taken then 1 else 0)\<rparr>)"
| step_begin:
    "w < length (f_buckets f) \<Longrightarrow> BeginRefill (f_buckets f ! w) = (won, b) \<Longrightarrow>
     fleet_step ops lease limit key T f (f\<lparr>f_buckets := (f_buckets f)[w := b]\<rparr>)"
| step_lease:
    "w < length (f_buckets f) \<Longrightarrow> now \<le> T \<Longrightarrow> T \<le> now + Window * 2 \<Longrightarrow>
     leaseFrom ops lease (f_store f) now key limit = (granted, failed, s') \<Longrightarrow>
     fleet_step ops lease limit key T f
       (f\<lparr>f_store := s', f_leased := (w, granted) # f_leased f,
          f_failed := f_failed f + (if failed then 1 else 0)\<rparr>)"
| step_grant:
    "w < length (f_buckets f) \<Longrightarrow> f_leased f = xs @ (w, granted) # ys \<Longrightarrow>
     fleet_step ops lease limit key T f
       (f\<lparr>f_buckets := (f_buckets f)[w := Grant (f_buckets f ! w) granted t], f_leased := xs @ ys\<rparr>)"

inductive_cases fleet_stepE: "fleet_step ops lease limit key T f f'"

inductive fleet_run :: "'s kv_ops \<Rightarrow> int \<Rightarrow> int \<Rightarrow> string \<Rightarrow> gotime \<Rightarrow> nat \<Rightarrow> 's fleet \<Rightarrow> 's fleet \<Rightarrow> bool"
  for ops lease limit key T where
  run_none: "fleet_run ops lease limit key T 0 f f"
| run_step: "fleet_run ops lease limit key T n f g \<Longrightarrow> fleet_step ops lease limit key T g h \<Longrightarrow>
             fleet_run ops lease limit key T (Suc n) f h"

definition fleet_start :: "'s \<Rightarrow> nat \<Rightarrow> 's fleet" where
  "fleet_start s n = \<lparr>f_store = s, f_buckets = replicate n new_bucket, f_leased = [], f_admitted = 0, f_failed = 0\<rparr>"

definition outstanding :: "'s fleet \<Rightarrow> int" where
  \<comment> \<open>Permits in buckets and in leases on their way to a bucket.\<close>
  "outstanding f = sum_list (map remaining (f_buckets f)) + sum_list (map snd (f_leased f))"

section \<open>Buckets never hold a negative number of permits, and conserve them\<close>

lemma bucket_Take_conserves:
  assumes "bucket_Take b now = (taken, refill, b')" "0 \<le> remaining b"
  shows "0 \<le> remaining b' \<and> remaining b' + (if taken then 1 else 0) \<le> remaining b"
  using assms by (auto simp: bucket_Take_def Let_def split: if_splits)

lemma BeginRefill_remaining [simp]: "BeginRefill b = (won, b') \<Longrightarrow> remaining b' = remaining b"
  by (auto simp: BeginRefill_def split: if_splits)

lemma Grant_remaining: "remaining (Grant b n t) = remaining b + max 0 n"
  by (auto simp: Grant_def)

lemma lease_share_telescopes:
  assumes "0 < lease" "0 \<le> used" "0 \<le> limit" "used + lease \<le> used'"
  shows "min used limit + lease_share lease limit used' \<le> min used' limit"
  using assms by (auto simp: lease_share_def Let_def min_def)

lemma lease_share_range: "0 < lease \<Longrightarrow> 0 \<le> lease_share lease limit used \<and> lease_share lease limit used \<le> lease"
  by (auto simp: lease_share_def Let_def)

section \<open>The fleet admits no more than the limit\<close>

definition permits_ok :: "'s fleet \<Rightarrow> bool" where
  "permits_ok f = ((\<forall>b \<in> set (f_buckets f). 0 \<le> remaining b) \<and> (\<forall>x \<in> set (f_leased f). 0 \<le> snd x))"

lemma sum_list_update_int:
  "w < length xs \<Longrightarrow> sum_list (xs[w := y]) = sum_list xs - xs ! w + (y :: int)"
  by (induction xs arbitrary: w) (auto simp: less_Suc_eq_0_disj split: nat.split)

lemma sum_remaining_update:
  "w < length bs \<Longrightarrow>
   sum_list (map remaining (bs[w := b])) = sum_list (map remaining bs) - remaining (bs ! w) + remaining b"
  by (simp add: map_update sum_list_update_int)

lemma outstanding_nonneg: "permits_ok f \<Longrightarrow> 0 \<le> outstanding f"
  unfolding outstanding_def permits_ok_def by (intro add_nonneg_nonneg sum_list_nonneg) auto

lemma step_take_conserves:
  assumes "permits_ok f" "w < length (f_buckets f)"
    "bucket_Take (f_buckets f ! w) now = (taken, refill, b)"
    "g = f\<lparr>f_buckets := (f_buckets f)[w := b], f_admitted := f_admitted f + (if taken then 1 else 0)\<rparr>"
  shows "permits_ok g \<and> f_admitted g + outstanding g \<le> f_admitted f + outstanding f"
proof -
  have "0 \<le> remaining (f_buckets f ! w)" using assms(1,2) by (simp add: permits_ok_def)
  from bucket_Take_conserves[OF assms(3) this] assms(1,2,4) show ?thesis
    by (auto simp: permits_ok_def outstanding_def sum_remaining_update dest!: subsetD[OF set_update_subset_insert])
qed

lemma step_grant_conserves:
  assumes "permits_ok f" "w < length (f_buckets f)" "f_leased f = xs @ (w, granted) # ys"
    "g = f\<lparr>f_buckets := (f_buckets f)[w := Grant (f_buckets f ! w) granted t], f_leased := xs @ ys\<rparr>"
  shows "permits_ok g \<and> outstanding g = outstanding f"
proof -
  have "0 \<le> remaining (f_buckets f ! w)" "0 \<le> granted" using assms(1,2,3) by (auto simp: permits_ok_def)
  with assms show ?thesis
    by (auto simp: permits_ok_def outstanding_def sum_remaining_update Grant_remaining
        dest!: subsetD[OF set_update_subset_insert])
qed

lemma step_begin_conserves:
  assumes "permits_ok f" "w < length (f_buckets f)" "BeginRefill (f_buckets f ! w) = (won, b)"
    "g = f\<lparr>f_buckets := (f_buckets f)[w := b]\<rparr>"
  shows "permits_ok g \<and> outstanding g = outstanding f"
proof -
  have "0 \<le> remaining (f_buckets f ! w)" using assms(1,2) by (auto simp: permits_ok_def)
  with assms show ?thesis
    by (auto simp: permits_ok_def outstanding_def sum_remaining_update
        dest!: subsetD[OF set_update_subset_insert])
qed

context kv_store
begin

definition fleet_inv :: "int \<Rightarrow> int \<Rightarrow> string \<Rightarrow> gotime \<Rightarrow> nat \<Rightarrow> 's fleet \<Rightarrow> bool" where
  "fleet_inv lease limit key T n f =
     (permits_ok f \<and> (\<exists>used. counts (f_store f) key T used \<and> 0 \<le> used \<and> used \<le> int n * (int tries * lease) \<and>
        f_admitted f + outstanding f \<le> min used limit + lease * f_failed f))"

lemma leaseFrom_counts:
  assumes "leaseFrom ops lease s now key limit = (granted, failed, s')"
    and "counts s key T used" "now \<le> T" "T \<le> now + Window * 2"
    and "0 < lease" "0 \<le> used" "used + int tries * lease < 2 ^ 63" "0 \<le> limit"
  obtains used' where "counts s' key T used'" "used \<le> used'" "used' \<le> used + int tries * lease" "0 \<le> granted"
    "granted \<le> min used' limit - min used limit + (if failed then lease else 0)"
proof -
  obtain r s1 where i: "kv_Incr ops s now key lease (Window * 2) = (r, s1)" by fastforce
  have w: "ttl_ok (Window * 2)" by (simp add: ttl_ok_def Window_def)
  note c = incr_counts[OF i assms(2-4) assms(6) less_imp_le[OF assms(5)] assms(7) w]
  have le: "int m * lease \<le> int tries * lease" if "m \<le> tries" for m using that assms(5) by simp
  have ge: "lease \<le> int m * lease" if "1 \<le> m" for m using that assms(5) by simp
  show ?thesis
  proof (cases r)
    case (Inl e)
    with i assms(1) have g: "granted = lease" "failed" "s' = s1" by (auto simp: leaseFrom_def)
    from c Inl obtain m where m: "m \<le> tries" "counts s1 key T (used + int m * lease)" by auto
    have "used \<le> used + int m * lease" using assms(5) by simp
    moreover from this have "min used limit \<le> min (used + int m * lease) limit" by (intro min.mono) simp_all
    ultimately show ?thesis using m g assms(5) le[OF m(1)] by (intro that[of "used + int m * lease"]) auto
  next
    case (Inr v)
    with c obtain m where m: "1 \<le> m" "m \<le> tries" "v = used + int m * lease"
      "counts s1 key T (used + int m * lease)" by auto
    with Inr i assms(1) have g: "granted = lease_share lease limit (used + int m * lease)" "\<not> failed" "s' = s1"
      by (auto simp: leaseFrom_def)
    have "used + lease \<le> used + int m * lease" using ge[OF m(1)] by simp
    from lease_share_telescopes[OF assms(5,6,8) this] lease_share_range[OF assms(5)] m g le[OF m(2)] assms(5)
    show ?thesis by (intro that[of "used + int m * lease"]) (auto simp: algebra_simps)
  qed
qed

lemma fleet_step_inv:
  assumes "fleet_inv lease limit key T n f" "fleet_step ops lease limit key T f g"
    and "0 < lease" "0 \<le> limit" "int (Suc n) * (int tries * lease) < 2 ^ 63"
  shows "fleet_inv lease limit key T (Suc n) g"
proof -
  have pos: "0 \<le> int tries * lease" using assms(3) by simp
  from assms(1) obtain used where p: "permits_ok f" and c: "counts (f_store f) key T used"
    and u: "0 \<le> used" "used \<le> int n * (int tries * lease)"
    and b: "f_admitted f + outstanding f \<le> min used limit + lease * f_failed f"
    by (auto simp: fleet_inv_def)
  have u': "used \<le> int (Suc n) * (int tries * lease)" "used + int tries * lease < 2 ^ 63"
    using u assms(5) pos by (auto simp: algebra_simps)
  have keep: "fleet_inv lease limit key T (Suc n) g"
    if "permits_ok g" "f_store g = f_store f" "f_failed g = f_failed f"
      "f_admitted g + outstanding g \<le> f_admitted f + outstanding f"
    unfolding fleet_inv_def using that c u(1) u'(1) b by force
  from assms(2) show ?thesis
  proof (cases rule: fleet_stepE[consumes 1, case_names takes begins leases grants])
    case (takes w now taken refill bb)
    with step_take_conserves[OF p takes(2,3,1)] show ?thesis by (intro keep) auto
  next
    case (begins w won bb)
    with step_begin_conserves[OF p begins(2,3,1)] show ?thesis by (intro keep) auto
  next
    case (leases w now granted failed s')
    obtain used' where *: "counts s' key T used'" "used \<le> used'" "used' \<le> used + int tries * lease" "0 \<le> granted"
      "granted \<le> min used' limit - min used limit + (if failed then lease else 0)"
      using leaseFrom_counts[OF leases(5) c leases(3,4) assms(3) u(1) u'(2) assms(4)] by blast
    have "used' \<le> int (Suc n) * (int tries * lease)" using *(3) u(2) by (simp add: algebra_simps)
    moreover have "permits_ok g" using p *(4) by (auto simp: leases(1) permits_ok_def)
    moreover have "f_admitted g + outstanding g \<le> min used' limit + lease * f_failed g"
      using b *(5) by (auto simp: leases(1) outstanding_def algebra_simps)
    ultimately show ?thesis
      unfolding fleet_inv_def using *(1,2) u(1) by (intro conjI exI[of _ used']) (auto simp: leases(1))
  next
    case (grants w xs granted ys t)
    with step_grant_conserves[OF p grants(2,3,1)] show ?thesis by (intro keep) auto
  qed
qed

lemma fleet_run_inv:
  assumes "fleet_run ops lease limit key T n (fleet_start s m) f" "counts s key T 0"
    and "0 < lease" "0 \<le> limit" "int n * (int tries * lease) < 2 ^ 63"
  shows "fleet_inv lease limit key T n f"
  using assms(1,5)
proof (induction n "fleet_start s m" f rule: fleet_run.induct)
  case run_none
  show ?case
    using assms(2-4)
    by (auto simp: fleet_inv_def fleet_start_def permits_ok_def outstanding_def new_bucket_def
        sum_list_replicate intro!: exI[of _ 0])
next
  case (run_step n g h)
  have "0 \<le> int tries * lease" using assms(3) by simp
  then have "int n * (int tries * lease) < 2 ^ 63" using run_step.prems by (simp add: algebra_simps)
  with run_step.hyps(2) have "fleet_inv lease limit key T n g" by blast
  then show ?case by (rule fleet_step_inv[OF _ run_step.hyps(3) assms(3,4) run_step.prems])
qed

lemma fleet_never_over_admits:
  assumes "fleet_run ops lease limit key T n (fleet_start s m) f" "counts s key T 0"
    and "0 < lease" "0 \<le> limit" "int n * (int tries * lease) < 2 ^ 63"
  shows "f_admitted f \<le> limit + lease * f_failed f"
proof -
  have i: "fleet_inv lease limit key T n f" by (rule fleet_run_inv[OF assms])
  then obtain used where "f_admitted f + outstanding f \<le> min used limit + lease * f_failed f"
    by (auto simp: fleet_inv_def)
  moreover have "0 \<le> outstanding f" using i by (auto simp: fleet_inv_def outstanding_nonneg)
  ultimately show ?thesis by simp
qed

corollary fleet_from_fresh_key:
  assumes "content s key = None" "fleet_run ops lease limit key T n (fleet_start s m) f"
    "0 < lease" "0 \<le> limit" "int n * (int tries * lease) < 2 ^ 63"
  shows "f_admitted f \<le> limit + lease * f_failed f"
  using fleet_never_over_admits[OF assms(2) _ assms(3-5)] assms(1) by (simp add: counts_def)

end

section \<open>One request is a sequence of fleet steps\<close>

lemma fleet_run_one: "fleet_step ops lease limit key T f g \<Longrightarrow> fleet_run ops lease limit key T 1 f g"
  using run_step[OF run_none] by simp

lemma fleet_run_add:
  assumes "fleet_run ops lease limit key T n g h" "fleet_run ops lease limit key T m f g"
  shows "fleet_run ops lease limit key T (m + n) f h"
  using assms by (induction rule: fleet_run.induct) (auto intro: run_step)

lemma get_put_bucket [simp]: "get_bucket (put_bucket l key b) key = b"
  by (simp add: get_bucket_def put_bucket_def)

lemma limiter_take_refines:
  assumes take: "limiter_take ops l (f_store f) now key limit = (ok, l', s')"
    and w: "w < length (f_buckets f)" "f_buckets f ! w = get_bucket l key"
    and T: "now \<le> T" "T \<le> now + Window * 2"
  shows "\<exists>n \<le> 5. \<exists>g. fleet_run ops (lim_lease l) limit key T n f g \<and> f_store g = s' \<and>
           f_buckets g = (f_buckets f)[w := get_bucket l' key] \<and> f_leased g = f_leased f \<and>
           f_admitted g = f_admitted f + (if ok then 1 else 0)"
proof -
  let ?run = "fleet_run ops (lim_lease l) limit key T"
  obtain taken refill b1 where t: "bucket_Take (get_bucket l key) now = (taken, refill, b1)"
    by (metis prod_cases3)
  obtain won b2 where b: "BeginRefill b1 = (won, b2)" by fastforce
  obtain granted failed s1 where e: "leaseFrom ops (lim_lease l) (f_store f) now key limit = (granted, failed, s1)"
    by (metis prod_cases3)
  define f1 where "f1 = f\<lparr>f_buckets := (f_buckets f)[w := b1], f_admitted := f_admitted f + (if taken then 1 else 0)\<rparr>"
  have s1: "?run 1 f f1" unfolding f1_def by (intro fleet_run_one step_take) (use t w in auto)
  show ?thesis
  proof (cases refill)
    case False
    with take t have "l' = put_bucket l key b1" "s' = f_store f" "ok = taken"
      by (auto simp: limiter_take_def)
    with s1 show ?thesis by (intro exI[of _ 1] conjI exI[of _ f1]) (auto simp: f1_def)
  next
    case True
    define f2 where "f2 = f1\<lparr>f_buckets := (f_buckets f1)[w := b2]\<rparr>"
    have "?run 1 f1 f2" unfolding f2_def by (intro fleet_run_one step_begin) (use b w in \<open>auto simp: f1_def\<close>)
    from fleet_run_add[OF this s1] have s2: "?run 2 f f2" by (simp add: numeral_eq_Suc)
    show ?thesis
    proof (cases won)
      case False
      with take t b True have "l' = put_bucket l key b2" "s' = f_store f" "ok = taken"
        by (auto simp: limiter_take_def)
      with s2 show ?thesis by (intro exI[of _ 2] conjI exI[of _ f2]) (auto simp: f1_def f2_def)
    next
      case won: True
      define f3 where "f3 = f2\<lparr>f_store := s1, f_leased := (w, granted) # f_leased f2,
                               f_failed := f_failed f2 + (if failed then 1 else 0)\<rparr>"
      define b3 where "b3 = Grant b2 granted (windowEnd now)"
      define f4 where "f4 = f3\<lparr>f_buckets := (f_buckets f3)[w := b3], f_leased := f_leased f\<rparr>"
      have "?run 1 f2 f3" unfolding f3_def
        by (intro fleet_run_one step_lease) (use e w T in \<open>auto simp: f1_def f2_def\<close>)
      from fleet_run_add[OF this s2] have s3: "?run 3 f f3" by (simp add: numeral_eq_Suc)
      have "fleet_step ops (lim_lease l) limit key T f3
              (f3\<lparr>f_buckets := (f_buckets f3)[w := Grant (f_buckets f3 ! w) granted (windowEnd now)],
                  f_leased := [] @ f_leased f\<rparr>)"
        by (rule step_grant) (use w in \<open>auto simp: f1_def f2_def f3_def\<close>)
      then have "?run 1 f3 f4"
        using w by (intro fleet_run_one) (simp add: f4_def b3_def f1_def f2_def f3_def)
      from fleet_run_add[OF this s3] have s4: "?run 4 f f4" by (simp add: numeral_eq_Suc)
      show ?thesis
      proof (cases taken)
        case True
        with take t b won \<open>refill\<close> e have "get_bucket l' key = b3" "s' = s1" "ok = taken"
          by (auto simp: limiter_take_def Let_def b3_def)
        with s4 True show ?thesis
          by (intro exI[of _ 4] conjI exI[of _ f4]) (auto simp: f1_def f2_def f3_def f4_def)
      next
        case False
        obtain again refill' b4 where a: "bucket_Take b3 now = (again, refill', b4)" by (metis prod_cases3)
        define f5 where "f5 = f4\<lparr>f_buckets := (f_buckets f4)[w := b4],
                                 f_admitted := f_admitted f4 + (if again then 1 else 0)\<rparr>"
        have "?run 1 f4 f5" unfolding f5_def
          by (intro fleet_run_one step_take[where refill = refill'])
             (use a w in \<open>auto simp: f1_def f2_def f3_def f4_def\<close>)
        from fleet_run_add[OF this s4] have s5: "?run 5 f f5" by (simp add: numeral_eq_Suc)
        from False take t b won \<open>refill\<close> e a have "get_bucket l' key = b4" "s' = s1" "ok = again"
          by (auto simp: limiter_take_def Let_def b3_def[symmetric])
        with s5 False show ?thesis
          by (intro exI[of _ 5] conjI exI[of _ f5]) (auto simp: f1_def f2_def f3_def f4_def f5_def)
      qed
    qed
  qed
qed

section \<open>Concurrency slots\<close>

abbreviation slots :: "limiter \<Rightarrow> principal \<Rightarrow> int" where
  "slots l p \<equiv> gomap_get 0 (lim_concurrent l) (p_KeyID p)"

lemma slots_put_bucket [simp]: "lim_concurrent (put_bucket l k b) = lim_concurrent l"
  by (simp add: put_bucket_def)

lemma limiter_take_slots: "limiter_take ops l s now key limit = (ok, l', s') \<Longrightarrow> lim_concurrent l' = lim_concurrent l"
  by (auto simp: limiter_take_def Let_def split: prod.splits if_splits)

lemma windowSpent_slots: "windowSpent ops l s now key limit = (b, l') \<Longrightarrow> lim_concurrent l' = lim_concurrent l"
  by (auto simp: windowSpent_def split: sum.splits option.splits)

lemma acquireSlot_slots:
  assumes "acquireSlot l p = (ok, l')"
  shows "slots l' p = slots l p + (if ok then 1 else 0)" "ok \<longleftrightarrow> slots l p < int (MaxConcurrent (p_Limits p))"
    "p_KeyID q \<noteq> p_KeyID p \<Longrightarrow> slots l' q = slots l q"
    "lim_buckets l' = lim_buckets l" "map_of (lim_concurrent l') (p_KeyID p) \<noteq> None"
  using assms by (auto simp: acquireSlot_def Let_def split: if_splits)

lemma releaseSlot_slots:
  "slots (releaseSlot l p) p = max 0 (slots l p - 1)" if "0 \<le> slots l p"
  using that by (auto simp: releaseSlot_def gomap_get_def split: option.splits)

lemma releaseSlot_concurrent:
  "lim_concurrent a = lim_concurrent b \<Longrightarrow> lim_concurrent (releaseSlot a p) = lim_concurrent (releaseSlot b p)"
  by (simp add: releaseSlot_def split: option.split)

text \<open>What \<open>Admit\<close> does to the slots: the slot it took is kept when it admits and given back when it refuses.\<close>

lemma Admit_concurrent:
  assumes "Admit ops l s now p = (d, l', s')"
  defines "a \<equiv> if MaxConcurrent (p_Limits p) > 0 then acquireSlot l p else (True, l)"
  shows "ld_Allowed d \<and> fst a \<and> lim_concurrent l' = lim_concurrent (snd a) \<or>
         \<not> ld_Allowed d \<and> \<not> fst a \<and> lim_concurrent l' = lim_concurrent (snd a) \<or>
         \<not> ld_Allowed d \<and> fst a \<and> lim_concurrent l' = lim_concurrent (releaseSlot (snd a) p)"
proof -
  obtain slot l1 where a: "a = (slot, l1)" by fastforce
  note Ad = Admit_def[of ops l s now p, folded a_def, unfolded a assms(1)]
  consider (free) "Unlimited (p_Limits p)" | (full) "\<not> Unlimited (p_Limits p)" "\<not> slot"
    | (taken) "\<not> Unlimited (p_Limits p)" slot by blast
  then show ?thesis
  proof cases
    case free
    with assms(1) have "d = allowed" "l' = l" by (simp_all add: Admit_def)
    moreover have "a = (True, l)" using free by (simp add: a_def Unlimited_def)
    ultimately show ?thesis by (simp add: allowed_def)
  next
    case full
    with Ad show ?thesis by (simp add: a rate_limited_def)
  next
    case taken
    obtain ok l2 s2 where t: "(if RequestsPerMinute (p_Limits p) > 0
        then limiter_take ops l1 s now (limit_key now p ''rpm'') (int (RequestsPerMinute (p_Limits p)))
        else (True, l1, s)) = (ok, l2, s2)" by (metis prod_cases3)
    obtain spent l3 where w: "(if TokensPerMinute (p_Limits p) > 0
        then windowSpent ops l2 s2 now (limit_key now p ''tpm'') (int (TokensPerMinute (p_Limits p)))
        else (False, l2)) = (spent, l3)" by fastforce
    have c2: "lim_concurrent l2 = lim_concurrent l1" using t limiter_take_slots by (auto split: if_splits)
    have "lim_concurrent l3 = lim_concurrent l2" using w windowSpent_slots by (auto split: if_splits)
    with c2 have c3: "lim_concurrent l3 = lim_concurrent l1" by simp
    from Ad taken t w have "(d, l') = (if \<not> ok then (rate_limited (untilWindowRolls now), releaseSlot l2 p)
                     else if spent then (rate_limited (untilWindowRolls now), releaseSlot l3 p)
                     else (allowed, l3))"
      by (auto split: if_splits)
    then show ?thesis
      using taken c2 c3 releaseSlot_concurrent[OF c2, of p] releaseSlot_concurrent[OF c3, of p]
      by (auto simp: a rate_limited_def allowed_def split: if_splits)
  qed
qed

lemma Admit_slots:
  assumes "Admit ops l s now p = (d, l', s')" "MaxConcurrent (p_Limits p) > 0" "0 \<le> slots l p"
  shows "slots l' p = slots l p + (if ld_Allowed d then 1 else 0) \<and>
         (ld_Allowed d \<longrightarrow> slots l' p \<le> int (MaxConcurrent (p_Limits p)))"
proof -
  obtain slot l1 where a: "acquireSlot l p = (slot, l1)" by fastforce
  from Admit_concurrent[OF assms(1)] assms(2,3) a acquireSlot_slots(1,2)[OF a] releaseSlot_slots[of l1 p]
  show ?thesis by (auto split: if_splits)
qed

lemma releaseSlot_other: "p_KeyID q \<noteq> p_KeyID p \<Longrightarrow> slots (releaseSlot l p) q = slots l q"
  by (auto simp: releaseSlot_def gomap_get_def split: option.split)

lemma Admit_slots_other:
  assumes "Admit ops l s now p = (d, l', s')" "p_KeyID q \<noteq> p_KeyID p"
  shows "slots l' q = slots l q"
proof -
  obtain slot l1 where a: "acquireSlot l p = (slot, l1)" by fastforce
  from Admit_concurrent[OF assms(1)] acquireSlot_slots(3)[OF a assms(2)] releaseSlot_other[OF assms(2)] a
  show ?thesis by (auto split: if_splits)
qed

lemma Admit_slots_unbounded:
  assumes "Admit ops l s now p = (d, l', s')" "MaxConcurrent (p_Limits p) = 0" "slots l p = 0"
  shows "slots l' p = 0"
  using Admit_concurrent[OF assms(1)] assms(2,3) releaseSlot_slots[of l p] by auto
lemma untilWindowRolls_bounds: "second \<le> untilWindowRolls now \<and> untilWindowRolls now \<le> Window"
  using time_Truncate_le[of Window now] time_Truncate_window[of Window now]
  by (simp add: untilWindowRolls_def windowEnd_def Window_def Let_def)

end
