(* ===== verification/Policy.thy ===== *)
theory Policy
  imports Core_Identity
begin

text \<open>
  \<open>dataplane/internal/policy\<close>: the rule table and its evaluation (\<open>policy.go\<close>), decoding a bundle
  from the bytes a snapshot carries, and the cache of decoded bundles (\<open>decode.go\<close>).
  \<open>proto.Unmarshal\<close> and \<open>netip.ParsePrefix\<close> are parameters of the decoder; the protobuf message is
  the record the generated getters read.
\<close>

section \<open>Rules\<close>

datatype effect = EffectUnset | EffectAllow | EffectDeny

record rule =
  r_ID :: string
  r_Effect :: effect
  r_Models :: "string list"
  r_Endpoints :: "endpoint list"
  r_Roles :: "string list"
  r_Regions :: "string list"
  r_SourceNets :: "ip_prefix list"
  r_MaxPayloadBytes :: nat
  r_DataClass :: data_class
  r_MinTrustTier :: trust_tier
  r_DeepInspection :: bool
  r_Reason :: string

record policy_bundle =
  b_ID :: string
  b_Version :: nat
  b_Rules :: "rule list"
  b_DefaultEffect :: effect

record policy_input =
  in_Model :: string
  in_Endpoint :: endpoint
  in_Roles :: "string list"
  in_Region :: string
  in_Source :: addr
  in_Payload :: nat

record policy_decision =
  pd_Allowed :: bool
  pd_RuleID :: string
  pd_Reason :: string
  pd_DataClass :: data_class
  pd_MinTrustTier :: trust_tier
  pd_DeepInspection :: bool

definition zero_decision :: policy_decision where
  "zero_decision = \<lparr>pd_Allowed = False, pd_RuleID = '''', pd_Reason = '''', pd_DataClass = '''',
                    pd_MinTrustTier = TrustUnset, pd_DeepInspection = False\<rparr>"

definition empty_bundle :: policy_bundle where
  "empty_bundle = \<lparr>b_ID = '''', b_Version = 0, b_Rules = [], b_DefaultEffect = EffectUnset\<rparr>"

definition bundle_Empty :: "policy_bundle \<Rightarrow> bool" where
  "bundle_Empty b = (b_Rules b = [])"

fun hasAnyRole :: "string list \<Rightarrow> string list \<Rightarrow> bool" where
  "hasAnyRole required [] = False"
| "hasAnyRole required (role # held) = (role \<in> set required \<or> hasAnyRole required held)"

definition inAnyNet :: "ip_prefix list \<Rightarrow> addr \<Rightarrow> bool" where
  "inAnyNet nets a = (addr_IsValid a \<and> list_ex (\<lambda>net. prefix_Contains net a) nets)"

definition rule_matches :: "rule \<Rightarrow> policy_input \<Rightarrow> bool" where
  "rule_matches r i =
     (if r_Models r \<noteq> [] \<and> in_Model i \<notin> set (r_Models r) then False
      else if r_Endpoints r \<noteq> [] \<and> in_Endpoint i \<notin> set (r_Endpoints r) then False
      else if r_Regions r \<noteq> [] \<and> in_Region i \<notin> set (r_Regions r) then False
      else if r_MaxPayloadBytes r > 0 \<and> in_Payload i > r_MaxPayloadBytes r then False
      else if r_Roles r \<noteq> [] \<and> \<not> hasAnyRole (r_Roles r) (in_Roles i) then False
      else if r_SourceNets r \<noteq> [] \<and> \<not> inAnyNet (r_SourceNets r) (in_Source i) then False
      else True)"

fun evaluate_rules :: "rule list \<Rightarrow> effect \<Rightarrow> policy_input \<Rightarrow> policy_decision" where
  "evaluate_rules [] dflt i = zero_decision\<lparr>pd_Allowed := (dflt \<noteq> EffectDeny)\<rparr>"
| "evaluate_rules (r # rs) dflt i =
     (if \<not> rule_matches r i then evaluate_rules rs dflt i
      else if r_Effect r = EffectDeny
        then zero_decision\<lparr>pd_RuleID := r_ID r, pd_Reason := r_Reason r\<rparr>
      else zero_decision\<lparr>pd_Allowed := True, pd_RuleID := r_ID r, pd_DataClass := r_DataClass r,
             pd_MinTrustTier := r_MinTrustTier r, pd_DeepInspection := r_DeepInspection r\<rparr>)"

definition Evaluate :: "policy_bundle \<Rightarrow> policy_input \<Rightarrow> policy_decision" where
  "Evaluate b i = evaluate_rules (b_Rules b) (b_DefaultEffect b) i"

section \<open>Decoding\<close>

datatype pb_effect = POLICY_EFFECT_ALLOW | POLICY_EFFECT_DENY | POLICY_EFFECT_other int

datatype pb_trust_tier = TRUST_TIER_EXTERNAL | TRUST_TIER_PRIVATE_CLOUD | TRUST_TIER_INTERNAL | TRUST_TIER_other int

record pb_policy_rule =
  pbr_id :: string
  pbr_effect :: pb_effect
  pbr_models :: "string list"
  pbr_endpoints :: "string list"
  pbr_roles :: "string list"
  pbr_regions :: "string list"
  pbr_source_cidrs :: "string list"
  pbr_max_payload_bytes :: nat
  pbr_data_class :: string
  pbr_min_trust_tier :: pb_trust_tier
  pbr_deep_inspection :: bool
  pbr_reason :: string

record pb_policy_bundle =
  pbb_id :: string
  pbb_version :: nat
  pbb_rules :: "pb_policy_rule list"
  pbb_default_effect :: pb_effect

type_synonym unmarshal_fun = "string \<Rightarrow> go_error + pb_policy_bundle"
type_synonym parse_prefix_fun = "string \<Rightarrow> go_error + ip_prefix"

fun decodeEffect :: "pb_effect \<Rightarrow> effect" where
  "decodeEffect POLICY_EFFECT_ALLOW = EffectAllow"
| "decodeEffect POLICY_EFFECT_DENY = EffectDeny"
| "decodeEffect (POLICY_EFFECT_other _) = EffectUnset"

fun policy_decodeTier :: "pb_trust_tier \<Rightarrow> trust_tier" where
  "policy_decodeTier TRUST_TIER_EXTERNAL = TrustExternal"
| "policy_decodeTier TRUST_TIER_PRIVATE_CLOUD = TrustPrivateCloud"
| "policy_decodeTier TRUST_TIER_INTERNAL = TrustInternal"
| "policy_decodeTier (TRUST_TIER_other _) = TrustUnset"

definition decode_net :: "parse_prefix_fun \<Rightarrow> string \<Rightarrow> string \<Rightarrow> go_error + ip_prefix" where
  "decode_net parse_prefix rule_id cidr =
     (case parse_prefix cidr of
        Inl e \<Rightarrow> Inl (GwError CodeInvalidRequest
                   (Msg ''policy rule %q has an unparseable network %q'' [AStr rule_id, AStr cidr]) False (Some e))
      | Inr p \<Rightarrow> Inr p)"

definition decodeRule :: "parse_prefix_fun \<Rightarrow> pb_policy_rule \<Rightarrow> go_error + rule" where
  "decodeRule parse_prefix r =
     (if decodeEffect (pbr_effect r) = EffectUnset
      then Inl (err_Newf CodeInvalidRequest ''policy rule %q has no effect'' [AStr (pbr_id r)])
      else (case map_err (decode_net parse_prefix (pbr_id r)) (pbr_source_cidrs r) of
          Inl e \<Rightarrow> Inl e
        | Inr nets \<Rightarrow> Inr
            \<lparr>r_ID = pbr_id r, r_Effect = decodeEffect (pbr_effect r), r_Models = pbr_models r,
             r_Endpoints = pbr_endpoints r, r_Roles = pbr_roles r, r_Regions = pbr_regions r,
             r_SourceNets = nets, r_MaxPayloadBytes = pbr_max_payload_bytes r,
             r_DataClass = pbr_data_class r, r_MinTrustTier = policy_decodeTier (pbr_min_trust_tier r),
             r_DeepInspection = pbr_deep_inspection r, r_Reason = pbr_reason r\<rparr>))"

definition policy_Decode :: "unmarshal_fun \<Rightarrow> parse_prefix_fun \<Rightarrow> string \<Rightarrow> go_error + policy_bundle" where
  "policy_Decode unmarshal parse_prefix raw =
     (if raw = '''' then Inr empty_bundle
      else (case unmarshal raw of
          Inl e \<Rightarrow> Inl (GwError CodeInvalidRequest (Msg ''parsing the policy bundle'' []) False (Some e))
        | Inr msg \<Rightarrow> (case map_err (decodeRule parse_prefix) (pbb_rules msg) of
            Inl e \<Rightarrow> Inl e
          | Inr rules \<Rightarrow> Inr \<lparr>b_ID = pbb_id msg, b_Version = pbb_version msg, b_Rules = rules,
                              b_DefaultEffect = decodeEffect (pbb_default_effect msg)\<rparr>)))"

section \<open>The cache\<close>

record policy_cache =
  pc_digest :: string
  pc_bundles :: "(string, policy_bundle) gomap"

definition NewCache :: policy_cache where
  "NewCache = \<lparr>pc_digest = '''', pc_bundles = []\<rparr>"

text \<open>
  \<open>For\<close> is two critical sections with the decoding between them; each is a definition, so that an
  interleaving of several calls is a sequence of these steps.
\<close>

definition cache_lookup :: "policy_cache \<Rightarrow> string \<Rightarrow> string \<Rightarrow> policy_bundle option" where
  "cache_lookup c tenant digest = (if pc_digest c = digest then map_of (pc_bundles c) tenant else None)"

definition cache_store :: "policy_cache \<Rightarrow> string \<Rightarrow> string \<Rightarrow> policy_bundle \<Rightarrow> policy_cache" where
  "cache_store c tenant digest b =
     (let c' = (if pc_digest c \<noteq> digest then \<lparr>pc_digest = digest, pc_bundles = []\<rparr> else c)
      in c'\<lparr>pc_bundles := AList.update tenant b (pc_bundles c')\<rparr>)"

definition cache_For ::
  "(string \<Rightarrow> go_error + policy_bundle) \<Rightarrow> policy_cache \<Rightarrow> string \<Rightarrow> string \<Rightarrow> string \<Rightarrow> (go_error + policy_bundle) \<times> policy_cache" where
  \<comment> \<open>\<open>dec\<close> is \<open>Decode\<close> with its parameters supplied.\<close>
  "cache_For dec c tenant digest raw =
     (case cache_lookup c tenant digest of
        Some b \<Rightarrow> (Inr b, c)
      | None \<Rightarrow> (case dec raw of
          Inl e \<Rightarrow> (Inl e, c)
        | Inr b \<Rightarrow> (Inr b, cache_store c tenant digest b)))"

text \<open>Interleaved calls: the steps of any number of \<open>For\<close> calls on one cache.\<close>

datatype cache_step =
    CacheLookup string string string
  | CacheStore string string string

fun cache_steps :: "(string \<Rightarrow> go_error + policy_bundle) \<Rightarrow> policy_cache \<Rightarrow> cache_step list \<Rightarrow> policy_cache \<times> (cache_step \<times> policy_bundle option) list" where
  "cache_steps dec c [] = (c, [])"
| "cache_steps dec c (CacheLookup t d raw # ss) =
     (case cache_steps dec c ss of (c', out) \<Rightarrow> (c', (CacheLookup t d raw, cache_lookup c t d) # out))"
| "cache_steps dec c (CacheStore t d raw # ss) =
     (case dec raw of
        Inl e \<Rightarrow> cache_steps dec c ss
      | Inr b \<Rightarrow> cache_steps dec (cache_store c t d b) ss)"

section \<open>Laws of evaluation\<close>

lemma hasAnyRole_iff: "hasAnyRole required held \<longleftrightarrow> set required \<inter> set held \<noteq> {}"
  by (induction held) auto

lemma rule_matches_iff:
  "rule_matches r i \<longleftrightarrow>
     (r_Models r = [] \<or> in_Model i \<in> set (r_Models r)) \<and>
     (r_Endpoints r = [] \<or> in_Endpoint i \<in> set (r_Endpoints r)) \<and>
     (r_Regions r = [] \<or> in_Region i \<in> set (r_Regions r)) \<and>
     (r_MaxPayloadBytes r = 0 \<or> in_Payload i \<le> r_MaxPayloadBytes r) \<and>
     (r_Roles r = [] \<or> set (r_Roles r) \<inter> set (in_Roles i) \<noteq> {}) \<and>
     (r_SourceNets r = [] \<or> inAnyNet (r_SourceNets r) (in_Source i))"
  by (auto simp: rule_matches_def hasAnyRole_iff)

lemma evaluate_rules_find:
  "evaluate_rules rs dflt i =
     (case find (\<lambda>r. rule_matches r i) rs of
        None \<Rightarrow> zero_decision\<lparr>pd_Allowed := (dflt \<noteq> EffectDeny)\<rparr>
      | Some r \<Rightarrow> evaluate_rules [r] dflt i)"
proof (induction rs)
  case (Cons r rs)
  then show ?case by (cases "rule_matches r i") simp_all
qed simp

lemma find_first: "find P xs = Some x \<longleftrightarrow> (\<exists>ys zs. xs = ys @ x # zs \<and> P x \<and> (\<forall>y \<in> set ys. \<not> P y))"
proof
  show "find P xs = Some x \<Longrightarrow> \<exists>ys zs. xs = ys @ x # zs \<and> P x \<and> (\<forall>y \<in> set ys. \<not> P y)"
  proof (induction xs)
    case (Cons a xs)
    show ?case
    proof (cases "P a")
      case True
      with Cons.prems have "a # xs = [] @ x # xs \<and> P x \<and> (\<forall>y \<in> set []. \<not> P y)" by simp
      then show ?thesis by blast
    next
      case False
      with Cons obtain ys zs where "xs = ys @ x # zs" "P x" "\<forall>y \<in> set ys. \<not> P y" by auto
      with False have "a # xs = (a # ys) @ x # zs \<and> P x \<and> (\<forall>y \<in> set (a # ys). \<not> P y)" by simp
      then show ?thesis by blast
    qed
  qed simp
next
  assume "\<exists>ys zs. xs = ys @ x # zs \<and> P x \<and> (\<forall>y \<in> set ys. \<not> P y)"
  then obtain ys zs where "xs = ys @ x # zs" "P x" "\<forall>y \<in> set ys. \<not> P y" by blast
  then show "find P xs = Some x" by (induction ys arbitrary: xs) auto
qed

lemma evaluate_denied_iff:
  "\<not> pd_Allowed (evaluate_rules rs dflt i) \<longleftrightarrow>
     (\<exists>before r after. rs = before @ r # after \<and> rule_matches r i \<and> r_Effect r = EffectDeny \<and>
        (\<forall>q \<in> set before. \<not> rule_matches q i)) \<or>
     ((\<forall>r \<in> set rs. \<not> rule_matches r i) \<and> dflt = EffectDeny)"
proof (cases "find (\<lambda>r. rule_matches r i) rs")
  case None
  then have none: "\<forall>r \<in> set rs. \<not> rule_matches r i" by (simp add: find_None_iff)
  moreover have "pd_Allowed (evaluate_rules rs dflt i) \<longleftrightarrow> dflt \<noteq> EffectDeny"
    using evaluate_rules_find[of rs dflt i] by (simp add: None zero_decision_def)
  ultimately show ?thesis by (metis in_set_conv_decomp)
next
  case (Some r)
  from Some obtain ys zs where rs: "rs = ys @ r # zs" and m: "rule_matches r i"
    and n: "\<forall>y \<in> set ys. \<not> rule_matches y i"
    unfolding find_first by blast
  have uniq: "r' = r" if "rs = ys' @ r' # zs'" "rule_matches r' i" "\<forall>y \<in> set ys'. \<not> rule_matches y i"
    for ys' r' zs'
  proof -
    from that have "find (\<lambda>r. rule_matches r i) rs = Some r'" unfolding find_first by blast
    with Some show ?thesis by simp
  qed
  have allowed: "pd_Allowed (evaluate_rules rs dflt i) \<longleftrightarrow> r_Effect r \<noteq> EffectDeny"
    using evaluate_rules_find[of rs dflt i] by (simp add: Some m zero_decision_def)
  have "r \<in> set rs" by (simp add: rs)
  with allowed m rs n uniq show ?thesis by blast
qed

section \<open>Laws of the cache\<close>

definition cache_ok :: "(string \<Rightarrow> go_error + policy_bundle) \<Rightarrow> (string \<Rightarrow> string \<Rightarrow> string) \<Rightarrow> policy_cache \<Rightarrow> bool" where
  \<comment> \<open>Every cached bundle is the decoding of the bytes its tenant has at the cached digest.\<close>
  "cache_ok dec raw c = (\<forall>t b. map_of (pc_bundles c) t = Some b \<longrightarrow> dec (raw t (pc_digest c)) = Inr b)"

lemma cache_ok_NewCache [simp]: "cache_ok dec raw NewCache"
  by (simp add: cache_ok_def NewCache_def)

lemma cache_store_ok:
  "cache_ok dec raw c \<Longrightarrow> dec (raw t d) = Inr b \<Longrightarrow> cache_ok dec raw (cache_store c t d b)"
  by (auto simp: cache_ok_def cache_store_def Let_def)

lemma cache_lookup_ok:
  "cache_ok dec raw c \<Longrightarrow> cache_lookup c t d = Some b \<Longrightarrow> dec (raw t d) = Inr b"
  by (auto simp: cache_ok_def cache_lookup_def split: if_splits)

lemma cache_For_ok:
  assumes "cache_ok dec raw c"
  shows "fst (cache_For dec c t d (raw t d)) = dec (raw t d) \<and> cache_ok dec raw (snd (cache_For dec c t d (raw t d)))"
proof (cases "cache_lookup c t d")
  case None
  then show ?thesis using assms cache_store_ok[OF assms]
    by (simp add: cache_For_def split: sum.split)
next
  case (Some b)
  then show ?thesis using assms cache_lookup_ok[OF assms Some] by (simp add: cache_For_def)
qed

definition step_raw :: "(string \<Rightarrow> string \<Rightarrow> string) \<Rightarrow> cache_step \<Rightarrow> bool" where
  \<comment> \<open>The bytes a call passes are those its tenant has at that digest.\<close>
  "step_raw raw s = (case s of CacheLookup t d r \<Rightarrow> r = raw t d | CacheStore t d r \<Rightarrow> r = raw t d)"

lemma cache_steps_ok:
  assumes "cache_ok dec raw c" "list_all (step_raw raw) ss" "cache_steps dec c ss = (c', out)"
  shows "cache_ok dec raw c' \<and>
         (\<forall>t d r b. (CacheLookup t d r, Some b) \<in> set out \<longrightarrow> dec r = Inr b)"
  using assms
proof (induction ss arbitrary: c c' out)
  case (Cons s ss)
  show ?case
  proof (cases s)
    case (CacheLookup t d r)
    from Cons.prems(3) obtain out' where rest: "cache_steps dec c ss = (c', out')"
      and out: "out = (s, cache_lookup c t d) # out'"
      by (auto simp: CacheLookup split: prod.splits)
    have "cache_lookup c t d = Some b \<Longrightarrow> dec r = Inr b" for b
      using cache_lookup_ok[OF Cons.prems(1)] Cons.prems(2) by (simp add: CacheLookup step_raw_def)
    moreover have "cache_ok dec raw c' \<and> (\<forall>t d r b. (CacheLookup t d r, Some b) \<in> set out' \<longrightarrow> dec r = Inr b)"
      using Cons.prems by (intro Cons.IH[OF _ _ rest]) simp_all
    ultimately show ?thesis using CacheLookup out by auto
  next
    case (CacheStore t d r)
    show ?thesis
    proof (cases "dec r")
      case (Inl e)
      with Cons.prems show ?thesis by (intro Cons.IH[of c]) (simp_all add: CacheStore)
    next
      case (Inr b)
      then have "cache_ok dec raw (cache_store c t d b)"
        using Cons.prems(1,2) by (intro cache_store_ok) (simp_all add: CacheStore step_raw_def)
      with Inr Cons.prems show ?thesis by (intro Cons.IH) (simp_all add: CacheStore)
    qed
  qed
qed simp

section \<open>Laws of decoding\<close>

lemma decode_net_Inr [simp]: "decode_net pp i c = Inr p \<longleftrightarrow> pp c = Inr p"
  by (auto simp: decode_net_def split: sum.splits)

lemma decodeRule_Inr:
  assumes "decodeRule pp r = Inr q"
  shows "r_Effect q \<noteq> EffectUnset \<and> r_ID q = pbr_id r \<and>
         list_all2 (\<lambda>c p. pp c = Inr p) (pbr_source_cidrs r) (r_SourceNets q)"
  using assms by (auto simp: decodeRule_def map_err_Inr_iff split: if_splits sum.splits)

lemma policy_Decode_Inr:
  assumes "policy_Decode um pp raw = Inr b" "raw \<noteq> ''''"
  obtains msg where "um raw = Inr msg" "list_all2 (\<lambda>r q. decodeRule pp r = Inr q) (pbb_rules msg) (b_Rules b)"
    "b_DefaultEffect b = decodeEffect (pbb_default_effect msg)"
  using assms by (auto simp: policy_Decode_def map_err_Inr_iff split: sum.splits)

end
