(* ===== verification/Guardrails.thy ===== *)
theory Guardrails
  imports Core_Snapshot
begin

text \<open>
  \<open>dataplane/internal/guardrails\<close>: the chain that runs the guardrails bound to a tenant
  (\<open>chain.go\<close>) and the two registries that resolve their names (\<open>registry.go\<close>, \<open>composite.go\<close>).
  A guardrail implementation is code outside the chain: \<open>gp_Inspect\<close> is its \<open>Inspect\<close> method, given
  the time it is allowed, with None for a nil result. An off-path inspection is two steps, as in the
  source: \<open>dispatch\<close> takes a slot and copies the input, \<open>off_path_finish\<close> is the body of the goroutine.
\<close>

section \<open>Implementations and registries\<close>

record guardrail_port =
  gp_Name :: string
  gp_Inspect :: "duration \<Rightarrow> guardrail_input \<Rightarrow> go_error + guardrail_result option"

type_synonym guardrail_registry = "string \<Rightarrow> guardrail_port option"

definition index_guardrail ::
  "(string, guardrail_port) gomap \<Rightarrow> guardrail_port \<Rightarrow> go_error + (string, guardrail_port) gomap" where
  "index_guardrail byName g =
     (if gp_Name g = '''' then Inl (err_New CodeInternal ''a guardrail reported an empty name'')
      else if map_of byName (gp_Name g) \<noteq> None
      then Inl (err_Newf CodeInternal ''two guardrails named %q'' [AStr (gp_Name g)])
      else Inr (AList.update (gp_Name g) g byName))"

definition NewStaticRegistry :: "guardrail_port list \<Rightarrow> go_error + (string, guardrail_port) gomap" where
  "NewStaticRegistry gs = loop_err index_guardrail [] gs"

definition static_Guardrail :: "(string, guardrail_port) gomap \<Rightarrow> guardrail_registry" where
  "static_Guardrail byName name = map_of byName name"

definition NewCompositeRegistry :: "guardrail_registry option list \<Rightarrow> go_error + guardrail_registry list" where
  "NewCompositeRegistry rs =
     (let kept = concat (map (\<lambda>r. case r of None \<Rightarrow> [] | Some x \<Rightarrow> [x]) rs)
      in if kept = [] then Inl (err_New CodeInternal ''a composite registry needs at least one registry'') else Inr kept)"

fun composite_Guardrail :: "guardrail_registry list \<Rightarrow> guardrail_registry" where
  "composite_Guardrail [] name = None"
| "composite_Guardrail (r # rs) name =
     (case r name of Some g \<Rightarrow> Some g | None \<Rightarrow> composite_Guardrail rs name)"

section \<open>The chain\<close>

definition guardrail_DefaultTimeout :: duration where
  "guardrail_DefaultTimeout = 50 * millisecond"

record guard_outcome =
  go_Payload :: string
  go_Denied :: bool
  go_Reason :: string

record chain_stats =
  cs_Evaluated :: int
  cs_Denied :: int
  cs_Mutated :: int
  cs_FailedOpen :: int
  cs_FailedShut :: int
  cs_Skipped :: int

record off_path_job =
  job_binding :: guardrail_binding
  job_guardrail :: guardrail_port
  job_input :: guardrail_input

text \<open>\<open>ch_running\<close> holds the off-path inspections whose slot is taken; \<open>ch_alerts\<close> is what they logged.\<close>

record chain =
  ch_counts :: chain_stats
  ch_limit :: nat
  ch_running :: "off_path_job list"
  ch_alerts :: "(string \<times> string \<times> string) list"

definition chain_New :: "bool \<Rightarrow> int option \<Rightarrow> go_error + chain" where
  \<comment> \<open>Whether a registry was given, and the argument of \<open>WithOffPathLimit\<close>.\<close>
  "chain_New registry limit =
     (if \<not> registry then Inl (err_New CodeInternal ''a guardrail chain needs a registry'')
      else Inr \<lparr>ch_counts = \<lparr>cs_Evaluated = 0, cs_Denied = 0, cs_Mutated = 0, cs_FailedOpen = 0,
                             cs_FailedShut = 0, cs_Skipped = 0\<rparr>,
                ch_limit = (case limit of Some n \<Rightarrow> if n > 0 then nat n else 64 | None \<Rightarrow> 64),
                ch_running = [], ch_alerts = []\<rparr>)"

definition chain_Stats :: "chain \<Rightarrow> chain_stats" where
  "chain_Stats c = ch_counts c"

abbreviation bump :: "(chain_stats \<Rightarrow> chain_stats) \<Rightarrow> chain \<Rightarrow> chain" where
  "bump f c \<equiv> c\<lparr>ch_counts := f (ch_counts c)\<rparr>"

definition evaluate ::
  "chain \<Rightarrow> guardrail_binding \<Rightarrow> guardrail_port \<Rightarrow> guardrail_input \<Rightarrow> (go_error + guardrail_result) \<times> chain" where
  "evaluate c b g inp =
     (let timeout = (if gb_Timeout (g_Budget b) \<le> 0 then guardrail_DefaultTimeout else gb_Timeout (g_Budget b));
          c1 = bump (cs_Evaluated_update (\<lambda>n. n + 1)) c
      in (case gp_Inspect g timeout inp of
            Inl err \<Rightarrow> Inl err
          | Inr None \<Rightarrow> Inl (err_Newf CodeInternal ''guardrail %q returned no result and no error'' [AStr (g_Component b)])
          | Inr (Some r) \<Rightarrow>
              if gr_Verdict r = VerdictMutate \<and> gr_Payload r = None
              then Inl (err_Newf CodeInternal ''guardrail %q asked to mutate but returned no payload'' [AStr (g_Component b)])
              else Inr r,
          c1))"

definition dispatch :: "chain \<Rightarrow> guardrail_binding \<Rightarrow> guardrail_port \<Rightarrow> guardrail_input \<Rightarrow> string \<Rightarrow> chain" where
  "dispatch c b g inp payload =
     (if length (ch_running c) \<ge> ch_limit c then bump (cs_Skipped_update (\<lambda>n. n + 1)) c
      else c\<lparr>ch_running := ch_running c @ [\<lparr>job_binding = b, job_guardrail = g, job_input = inp\<lparr>gi_Payload := payload\<rparr>\<rparr>]\<rparr>)"

definition off_path_finish :: "chain \<Rightarrow> nat \<Rightarrow> chain" where
  \<comment> \<open>The inspection at position \<open>i\<close> runs and gives its slot back.\<close>
  "off_path_finish c i =
     (if i \<ge> length (ch_running c) then c
      else (let j = ch_running c ! i; b = job_binding j in
        case evaluate c b (job_guardrail j) (job_input j) of (res, c1) \<Rightarrow>
          (let c2 = (case res of
                 Inl _ \<Rightarrow> bump (cs_FailedOpen_update (\<lambda>n. n + 1)) c1
               | Inr r \<Rightarrow> if gr_Verdict r \<noteq> VerdictAllow
                         then c1\<lparr>ch_alerts := ch_alerts c1 @ [(g_Component b, RequestID (gi_Meta (job_input j)), gr_Reason r)]\<rparr>
                         else c1)
           in c2\<lparr>ch_running := take i (ch_running c) @ drop (Suc i) (ch_running c)\<rparr>)))"

abbreviation deny :: "guard_outcome \<Rightarrow> guardrail_binding \<Rightarrow> guard_outcome" where
  "deny out b \<equiv> out\<lparr>go_Denied := True, go_Reason := g_Component b\<rparr>"

text \<open>One turn of the loop in \<open>Run\<close>: the chain, the outcome so far, and whether the loop returns.\<close>

definition run_binding ::
  "guardrail_registry \<Rightarrow> guardrail_input \<Rightarrow> chain \<Rightarrow> guard_outcome \<Rightarrow> guardrail_binding \<Rightarrow>
   chain \<times> guard_outcome \<times> bool" where
  "run_binding reg inp c out b =
     (case reg (g_Component b) of
        None \<Rightarrow>
          (let c1 = bump (cs_Skipped_update (\<lambda>n. n + 1)) c in
           if gb_Mode (g_Budget b) = FailClosed \<and> gb_Blocking (g_Budget b)
           then (bump (cs_FailedShut_update (\<lambda>n. n + 1)) c1, deny out b, True)
           else (c1, out, False))
      | Some g \<Rightarrow>
          if \<not> gb_Blocking (g_Budget b) then (dispatch c b g inp (go_Payload out), out, False)
          else (case evaluate c b g (inp\<lparr>gi_Payload := go_Payload out\<rparr>) of (res, c1) \<Rightarrow>
            (case res of
               Inl _ \<Rightarrow>
                 if gb_Mode (g_Budget b) = FailClosed
                 then (bump (cs_FailedShut_update (\<lambda>n. n + 1)) c1, deny out b, True)
                 else (bump (cs_FailedOpen_update (\<lambda>n. n + 1)) c1, out, False)
             | Inr r \<Rightarrow>
                 (case gr_Verdict r of
                    VerdictDeny \<Rightarrow> (bump (cs_Denied_update (\<lambda>n. n + 1)) c1, deny out b, True)
                  | VerdictMutate \<Rightarrow>
                      (bump (cs_Mutated_update (\<lambda>n. n + 1)) c1,
                       out\<lparr>go_Payload := (case gr_Payload r of Some p \<Rightarrow> p | None \<Rightarrow> '''')\<rparr>, False)
                  | VerdictAllow \<Rightarrow> (c1, out, False)))))"

fun run_bindings ::
  "guardrail_registry \<Rightarrow> guardrail_input \<Rightarrow> chain \<Rightarrow> guard_outcome \<Rightarrow> guardrail_binding list \<Rightarrow> guard_outcome \<times> chain" where
  "run_bindings reg inp c out [] = (out, c)"
| "run_bindings reg inp c out (b # bs) =
     (case run_binding reg inp c out b of
        (c', out', stop) \<Rightarrow> if stop then (out', c') else run_bindings reg inp c' out' bs)"

definition Run ::
  "guardrail_registry \<Rightarrow> chain \<Rightarrow> guardrail_binding list \<Rightarrow> guardrail_input \<Rightarrow> guard_outcome \<times> chain" where
  "Run reg c bs inp =
     run_bindings reg inp c \<lparr>go_Payload = gi_Payload inp, go_Denied = False, go_Reason = ''''\<rparr> bs"

section \<open>What the blocking guardrails enforce\<close>

text \<open>
  The specification: each blocking binding in turn either refuses the payload or passes a payload on.
  A guardrail that cannot answer refuses when its binding fails closed and passes the payload
  unchanged when it fails open.
\<close>

definition judge :: "guardrail_registry \<Rightarrow> guardrail_input \<Rightarrow> guardrail_binding \<Rightarrow> string \<Rightarrow> string option" where
  "judge reg inp b payload =
     (let failed = (if gb_Mode (g_Budget b) = FailClosed then None else Some payload);
          timeout = (if gb_Timeout (g_Budget b) \<le> 0 then guardrail_DefaultTimeout else gb_Timeout (g_Budget b))
      in case reg (g_Component b) of
           None \<Rightarrow> failed
         | Some g \<Rightarrow>
             (case gp_Inspect g timeout (inp\<lparr>gi_Payload := payload\<rparr>) of
                Inl _ \<Rightarrow> failed
              | Inr None \<Rightarrow> failed
              | Inr (Some r) \<Rightarrow>
                  (case gr_Verdict r of
                     VerdictDeny \<Rightarrow> None
                   | VerdictAllow \<Rightarrow> Some payload
                   | VerdictMutate \<Rightarrow> (case gr_Payload r of None \<Rightarrow> failed | Some p \<Rightarrow> Some p))))"

fun enforce :: "guardrail_registry \<Rightarrow> guardrail_input \<Rightarrow> guardrail_binding list \<Rightarrow> string \<Rightarrow> string + string" where
  \<comment> \<open>Left the component that refused, right the payload to send on.\<close>
  "enforce reg inp [] payload = Inr payload"
| "enforce reg inp (b # bs) payload =
     (case judge reg inp b payload of None \<Rightarrow> Inl (g_Component b) | Some p \<Rightarrow> enforce reg inp bs p)"

lemma evaluate_judge:
  assumes "reg (g_Component b) = Some g"
  shows "judge reg inp b payload =
     (case fst (evaluate c b g (inp\<lparr>gi_Payload := payload\<rparr>)) of
        Inl _ \<Rightarrow> if gb_Mode (g_Budget b) = FailClosed then None else Some payload
      | Inr r \<Rightarrow> (case gr_Verdict r of VerdictDeny \<Rightarrow> None | VerdictAllow \<Rightarrow> Some payload
                 | VerdictMutate \<Rightarrow> Some (case gr_Payload r of Some p \<Rightarrow> p | None \<Rightarrow> '''')))"
proof -
  define t where "t = (if gb_Timeout (g_Budget b) \<le> 0 then guardrail_DefaultTimeout else gb_Timeout (g_Budget b))"
  show ?thesis
    by (cases "gp_Inspect g t (inp\<lparr>gi_Payload := payload\<rparr>)")
      (simp_all add: judge_def evaluate_def Let_def assms t_def[symmetric] split: option.split verdict.split)
qed

lemma run_binding_off_path: "\<not> gb_Blocking (g_Budget b) \<Longrightarrow> snd (run_binding reg inp c out b) = (out, False)"
  by (simp add: run_binding_def Let_def split: option.split)

lemma run_binding_blocking:
  assumes "gb_Blocking (g_Budget b)"
  shows "snd (run_binding reg inp c out b) =
     (case judge reg inp b (go_Payload out) of None \<Rightarrow> (deny out b, True) | Some p \<Rightarrow> (out\<lparr>go_Payload := p\<rparr>, False))"
proof (cases "reg (g_Component b)")
  case None
  then show ?thesis by (simp add: assms run_binding_def judge_def Let_def)
next
  case (Some g)
  obtain res c1 where e: "evaluate c b g (inp\<lparr>gi_Payload := go_Payload out\<rparr>) = (res, c1)" by fastforce
  show ?thesis
    by (cases res) (simp_all add: assms Some run_binding_def e evaluate_judge[of reg b g, OF Some, of inp "go_Payload out" c] split: verdict.split)
qed

lemma run_bindings_refines:
  "\<not> go_Denied out \<Longrightarrow>
   (case enforce reg inp (filter (\<lambda>b. gb_Blocking (g_Budget b)) bs) (go_Payload out) of
      Inl who \<Rightarrow> go_Denied (fst (run_bindings reg inp c out bs)) \<and> go_Reason (fst (run_bindings reg inp c out bs)) = who
    | Inr p \<Rightarrow> \<not> go_Denied (fst (run_bindings reg inp c out bs)) \<and> go_Payload (fst (run_bindings reg inp c out bs)) = p)"
proof (induction bs arbitrary: c out)
  case (Cons b bs)
  obtain c' out' stop where s: "run_binding reg inp c out b = (c', out', stop)" by (metis prod_cases3)
  show ?case
  proof (cases "gb_Blocking (g_Budget b)")
    case True
    note r = run_binding_blocking[OF True, of reg inp c out, unfolded s]
    show ?thesis
    proof (cases "judge reg inp b (go_Payload out)")
      case None
      with r True s show ?thesis by simp
    next
      case (Some p)
      with r True s Cons.IH[of "out\<lparr>go_Payload := p\<rparr>" c'] Cons.prems show ?thesis
        by (simp split: sum.splits)
    qed
  next
    case False
    with run_binding_off_path[OF False, of reg inp c out, unfolded s] Cons.IH[OF Cons.prems, of c'] s
    show ?thesis by (simp split: sum.splits)
  qed
qed simp

section \<open>Off-path inspections\<close>

definition chain_wf :: "chain \<Rightarrow> bool" where
  "chain_wf c = (length (ch_running c) \<le> ch_limit c)"

lemma evaluate_frame [simp]:
  "ch_running (snd (evaluate c b g inp)) = ch_running c" "ch_limit (snd (evaluate c b g inp)) = ch_limit c"
  by (simp_all add: evaluate_def Let_def)

lemma dispatch_wf: "chain_wf c \<Longrightarrow> chain_wf (dispatch c b g inp p) \<and> ch_limit (dispatch c b g inp p) = ch_limit c"
  by (auto simp: dispatch_def chain_wf_def)

lemma off_path_finish_wf:
  assumes "chain_wf c"
  shows "chain_wf (off_path_finish c i)"
proof -
  let ?j = "ch_running c ! i"
  obtain res c1 where e: "evaluate c (job_binding ?j) (job_guardrail ?j) (job_input ?j) = (res, c1)" by fastforce
  then have "ch_limit c1 = ch_limit c" using evaluate_frame(2) by (metis snd_conv)
  with assms e show ?thesis
    by (cases res) (auto simp: off_path_finish_def chain_wf_def Let_def)
qed
lemma run_binding_wf: "chain_wf c \<Longrightarrow> chain_wf (fst (run_binding reg inp c out b))"
proof (cases "reg (g_Component b)")
  case None
  then show "chain_wf c \<Longrightarrow> ?thesis" by (simp add: run_binding_def Let_def chain_wf_def)
next
  case (Some g)
  assume c: "chain_wf c"
  obtain res c1 where e: "evaluate c b g (inp\<lparr>gi_Payload := go_Payload out\<rparr>) = (res, c1)" by fastforce
  with c have "chain_wf c1" using evaluate_frame[of c b g "inp\<lparr>gi_Payload := go_Payload out\<rparr>"] by (simp add: chain_wf_def)
  then have c1: "chain_wf (bump f c1)" for f by (simp add: chain_wf_def)
  have "chain_wf (dispatch c b g inp (go_Payload out))" using dispatch_wf[OF c] by blast
  with \<open>chain_wf c1\<close> c1 show ?thesis
    by (cases res) (simp_all add: Some run_binding_def e split: verdict.split)
qed

lemma run_bindings_wf: "chain_wf c \<Longrightarrow> chain_wf (snd (run_bindings reg inp c out bs))"
proof (induction bs arbitrary: c out)
  case (Cons b bs)
  with run_binding_wf[OF Cons.prems, of reg inp out b] show ?case by (auto split: prod.split)
qed simp

section \<open>Properties\<close>

text \<open>Claim C22. The chain enforces exactly its blocking bindings: running it refuses, naming the first
  component that refused, if and only if the specification \<open>enforce\<close> of the blocking bindings alone
  refuses, and otherwise passes on the payload they produced in order. A missing, failing, silent or
  half-mutating guardrail counts as a refusal exactly when its binding fails closed, and nothing an
  off-path guardrail does can change the outcome.\<close>

theorem Run_enforces_blocking:
  "case enforce reg inp (filter (\<lambda>b. gb_Blocking (g_Budget b)) bs) (gi_Payload inp) of
     Inl who \<Rightarrow> go_Denied (fst (Run reg c bs inp)) \<and> go_Reason (fst (Run reg c bs inp)) = who
   | Inr p \<Rightarrow> \<not> go_Denied (fst (Run reg c bs inp)) \<and> go_Payload (fst (Run reg c bs inp)) = p"
  using run_bindings_refines[of "\<lparr>go_Payload = gi_Payload inp, go_Denied = False, go_Reason = ''''\<rparr>" reg inp c bs]
  by (simp add: Run_def split: sum.splits)

end
