(* ===== verification/PII_Detect.thy ===== *)
theory PII_Detect
  imports Core_Identity "HOL-Library.Multiset"
begin

text \<open>
  \<open>dataplane/internal/pii/detect.go\<close>: the deterministic detectors, their checksums, and the merging
  of overlapping matches. The patterns are terms of a small regular expression language with Go's
  matching rule (the leftmost match, and among those the first in backtracking order, greedy
  repetition first), so that detection runs on concrete text. All character classes of the patterns are ASCII,
  so matching bytes and matching runes agree.
\<close>

section \<open>Patterns\<close>

datatype re =
    RChar "char \<Rightarrow> bool"
  | RBoundary
  | RSeq re re
  | RAlt re re
  | ROpt re
  | RRep re nat "nat option"

definition is_word :: "char \<Rightarrow> bool" where
  "is_word c = (is_digit c \<or> (65 \<le> (of_char c :: nat) \<and> (of_char c :: nat) \<le> 90) \<or>
                (97 \<le> (of_char c :: nat) \<and> (of_char c :: nat) \<le> 122) \<or> c = CHR ''_'')"

definition at_boundary :: "string \<Rightarrow> nat \<Rightarrow> bool" where
  "at_boundary s i = ((i > 0 \<and> i \<le> length s \<and> is_word (s ! (i - 1))) \<noteq> (i < length s \<and> is_word (s ! i)))"

text \<open>Where a match that starts at a position may end, in the order backtracking tries the ends.\<close>

fun rep_ends :: "(nat \<Rightarrow> nat list) \<Rightarrow> nat \<Rightarrow> nat \<Rightarrow> nat \<Rightarrow> nat list" where
  "rep_ends f m 0 i = (if m = 0 then [i] else [])"
| "rep_ends f m (Suc n) i = concat (map (rep_ends f (m - 1) n) (f i)) @ (if m = 0 then [i] else [])"

fun re_ends :: "re \<Rightarrow> string \<Rightarrow> nat \<Rightarrow> nat list" where
  "re_ends (RChar p) s i = (if i < length s \<and> p (s ! i) then [Suc i] else [])"
| "re_ends RBoundary s i = (if at_boundary s i then [i] else [])"
| "re_ends (RSeq a b) s i = concat (map (re_ends b s) (re_ends a s i))"
| "re_ends (RAlt a b) s i = re_ends a s i @ re_ends b s i"
| "re_ends (ROpt a) s i = re_ends a s i @ [i]"
| "re_ends (RRep a m n) s i = rep_ends (re_ends a s) m (case n of Some k \<Rightarrow> k | None \<Rightarrow> max m (length s)) i"

function find_from :: "re \<Rightarrow> string \<Rightarrow> nat \<Rightarrow> (nat \<times> nat) list" where
  "find_from r s i =
     (if i > length s then []
      else (case re_ends r s i of
          [] \<Rightarrow> find_from r s (Suc i)
        | e # _ \<Rightarrow> (i, e) # find_from r s (max e (Suc i))))"
  by pat_completeness auto
termination
  by (relation "measure (\<lambda>(r, s, i). Suc (length s) - i)") auto

declare find_from.simps [simp del]

definition FindAllStringIndex :: "re \<Rightarrow> string \<Rightarrow> (nat \<times> nat) list" where
  "FindAllStringIndex r s = find_from r s 0"

section \<open>Checksums\<close>

definition digitsOf :: "string \<Rightarrow> string" where
  "digitsOf s = filter is_digit s"

fun luhn_sum :: "bool \<Rightarrow> string \<Rightarrow> nat" where
  \<comment> \<open>Over the digits from the last to the first.\<close>
  "luhn_sum dbl [] = 0"
| "luhn_sum dbl (c # cs) =
     (let n = digit_val c; m = (if dbl then (if n * 2 > 9 then n * 2 - 9 else n * 2) else n)
      in m + luhn_sum (\<not> dbl) cs)"

definition luhn :: "string \<Rightarrow> bool" where
  "luhn digits = (if length digits < 12 then False else luhn_sum False (rev digits) mod 10 = 0)"

definition iban_value :: "char \<Rightarrow> nat option" where
  "iban_value c =
     (if is_digit c then Some (of_char c - 48)
      else if 65 \<le> (of_char c :: nat) \<and> (of_char c :: nat) \<le> 90 then Some (of_char c - 65 + 10)
      else None)"

fun iban_remainder :: "nat \<Rightarrow> string \<Rightarrow> nat option" where
  "iban_remainder r [] = Some r"
| "iban_remainder r (c # cs) =
     (case iban_value c of
        None \<Rightarrow> None
      | Some v \<Rightarrow> iban_remainder (if v > 9 then (r * 100 + v) mod 97 else (r * 10 + v) mod 97) cs)"

definition validIBAN :: "string \<Rightarrow> bool" where
  "validIBAN s =
     (if length s < 15 \<or> length s > 34 then False
      else iban_remainder 0 (drop 4 s @ take 4 s) = Some 1)"

fun split_dots :: "string \<Rightarrow> string list" where
  "split_dots [] = [[]]"
| "split_dots (c # cs) =
     (if c = CHR ''.'' then [] # split_dots cs
      else (case split_dots cs of p # ps \<Rightarrow> (c # p) # ps | [] \<Rightarrow> [[c]]))"

definition octet_value :: "string \<Rightarrow> int" where
  "octet_value part = foldl (\<lambda>n c. n * 10 + (int (of_char c) - 48)) 0 part"

definition validIPv4 :: "string \<Rightarrow> bool" where
  "validIPv4 s =
     (let parts = split_dots s in
      if length parts \<noteq> 4 then False
      else list_all (\<lambda>part. \<not> (length part > 1 \<and> hd part = CHR ''0'') \<and> octet_value part \<le> 255) parts)"

section \<open>Detectors\<close>

type_synonym kind = string

record pii_match =
  mt_Kind :: kind
  mt_Start :: nat
  mt_End :: nat
  mt_Value :: string

record detector =
  det_kind :: kind
  det_re :: re
  det_validate :: "(string \<Rightarrow> bool) option"

abbreviation KindEmail :: kind where "KindEmail \<equiv> ''EMAIL''"
abbreviation KindPhone :: kind where "KindPhone \<equiv> ''PHONE''"
abbreviation KindCard :: kind where "KindCard \<equiv> ''CARD''"
abbreviation KindIBAN :: kind where "KindIBAN \<equiv> ''IBAN''"
abbreviation KindEmiratesID :: kind where "KindEmiratesID \<equiv> ''EMIRATES_ID''"
abbreviation KindIPAddress :: kind where "KindIPAddress \<equiv> ''IP''"

fun re_seq :: "re list \<Rightarrow> re" where
  "re_seq [] = RRep RBoundary 0 (Some 0)"
| "re_seq [r] = r"
| "re_seq (r # rs) = RSeq r (re_seq rs)"

definition is_upper :: "char \<Rightarrow> bool" where
  "is_upper c = (65 \<le> (of_char c :: nat) \<and> (of_char c :: nat) \<le> 90)"

definition is_alpha :: "char \<Rightarrow> bool" where
  "is_alpha c = (is_upper c \<or> (97 \<le> (of_char c :: nat) \<and> (of_char c :: nat) \<le> 122))"

abbreviation re_lit :: "char \<Rightarrow> re" where "re_lit c \<equiv> RChar (\<lambda>x. x = c)"
abbreviation re_digit :: re where "re_digit \<equiv> RChar is_digit"
abbreviation re_space_dash :: re where
  "re_space_dash \<equiv> RChar (\<lambda>c. c \<in> {CHR 0x09, CHR 0x0A, CHR 0x0C, CHR 0x0D, CHR '' '', CHR ''-''})"

definition email_re :: re where
  "email_re = re_seq
     [RBoundary, RRep (RChar (\<lambda>c. is_alpha c \<or> is_digit c \<or> c \<in> set ''._%+-'')) 1 None, re_lit (CHR ''@''),
      RRep (RChar (\<lambda>c. is_alpha c \<or> is_digit c \<or> c \<in> set ''.-'')) 1 None, re_lit (CHR ''.''),
      RRep (RChar is_alpha) 2 None, RBoundary]"

definition emirates_re :: re where
  "emirates_re = re_seq
     [RBoundary, re_lit (CHR ''7''), re_lit (CHR ''8''), re_lit (CHR ''4''), ROpt (re_lit (CHR ''-'')),
      RRep re_digit 4 (Some 4), ROpt (re_lit (CHR ''-'')), RRep re_digit 7 (Some 7),
      ROpt (re_lit (CHR ''-'')), re_digit, RBoundary]"

definition card_re :: re where
  "card_re = re_seq
     [RBoundary, RRep (RSeq re_digit (ROpt (RChar (\<lambda>c. c \<in> set '' -'')))) 12 (Some 18), re_digit, RBoundary]"

definition iban_re :: re where
  "iban_re = re_seq
     [RBoundary, RRep (RChar is_upper) 2 (Some 2), RRep re_digit 2 (Some 2),
      RRep (RChar (\<lambda>c. is_upper c \<or> is_digit c)) 10 (Some 30), RBoundary]"

definition phone_re :: re where
  "phone_re = re_seq
     [re_lit (CHR ''+''), RRep re_digit 1 (Some 3), ROpt re_space_dash, ROpt (re_lit (CHR ''('')),
      RRep re_digit 1 (Some 4), ROpt (re_lit (CHR '')'')), ROpt re_space_dash, RRep re_digit 3 (Some 4),
      ROpt re_space_dash, RRep re_digit 3 (Some 4), RBoundary]"

definition ipv4_re :: re where
  "ipv4_re = re_seq
     [RBoundary, RRep re_digit 1 (Some 3), re_lit (CHR ''.''), RRep re_digit 1 (Some 3), re_lit (CHR ''.''),
      RRep re_digit 1 (Some 3), re_lit (CHR ''.''), RRep re_digit 1 (Some 3), RBoundary]"

definition detectors :: "detector list" where
  "detectors =
     [\<lparr>det_kind = KindEmail, det_re = email_re, det_validate = None\<rparr>,
      \<lparr>det_kind = KindEmiratesID, det_re = emirates_re, det_validate = Some (\<lambda>s. luhn (digitsOf s))\<rparr>,
      \<lparr>det_kind = KindCard, det_re = card_re, det_validate = Some (\<lambda>s. luhn (digitsOf s))\<rparr>,
      \<lparr>det_kind = KindIBAN, det_re = iban_re, det_validate = Some validIBAN\<rparr>,
      \<lparr>det_kind = KindPhone, det_re = phone_re, det_validate = None\<rparr>,
      \<lparr>det_kind = KindIPAddress, det_re = ipv4_re, det_validate = Some validIPv4\<rparr>]"

section \<open>Merging\<close>

text \<open>
  \<open>sortByStart\<close>: one pass of the outer loop moves element \<open>i\<close> left past larger ones. On the
  reversed sorted prefix that is an insertion before the first element that is not larger.
\<close>

fun sink :: "pii_match \<Rightarrow> pii_match list \<Rightarrow> pii_match list" where
  "sink m [] = [m]"
| "sink m (x # xs) = (if mt_Start m < mt_Start x then x # sink m xs else m # x # xs)"

definition sortByStart :: "pii_match list \<Rightarrow> pii_match list" where
  "sortByStart ms = rev (foldl (\<lambda>sorted m. sink m sorted) [] ms)"

fun keep_disjoint :: "int \<Rightarrow> pii_match list \<Rightarrow> pii_match list" where
  "keep_disjoint e [] = []"
| "keep_disjoint e (m # ms) =
     (if int (mt_Start m) < e then keep_disjoint e ms else m # keep_disjoint (int (mt_End m)) ms)"

definition withoutOverlaps :: "pii_match list \<Rightarrow> pii_match list" where
  "withoutOverlaps ms = (if length ms < 2 then ms else keep_disjoint (- 1) (sortByStart ms))"

definition detect_one :: "string \<Rightarrow> detector \<Rightarrow> pii_match list" where
  "detect_one text d =
     concat (map (\<lambda>(a, b).
       (let v = take (b - a) (drop a text) in
        if (case det_validate d of None \<Rightarrow> False | Some ok \<Rightarrow> \<not> ok v) then []
        else [\<lparr>mt_Kind = det_kind d, mt_Start = a, mt_End = b, mt_Value = v\<rparr>]))
       (FindAllStringIndex (det_re d) text))"

definition Detect :: "string \<Rightarrow> pii_match list" where
  "Detect payload = withoutOverlaps (concat (map (detect_one payload) detectors))"

text \<open>\<open>DetectAll\<close> over several tiers, each a function that may fail.\<close>

fun collect_matches ::
  "string \<Rightarrow> (string \<Rightarrow> go_error + pii_match list) list \<Rightarrow> pii_match list \<Rightarrow> go_error list \<Rightarrow> pii_match list \<times> go_error list" where
  "collect_matches payload [] found errs = (found, errs)"
| "collect_matches payload (d # ds) found errs =
     (case d payload of
        Inl e \<Rightarrow> collect_matches payload ds found (errs @ [e])
      | Inr ms \<Rightarrow> collect_matches payload ds (found @ ms) errs)"

definition DetectAll ::
  "string \<Rightarrow> (string \<Rightarrow> go_error + pii_match list) list \<Rightarrow> pii_match list \<times> go_error list" where
  "DetectAll payload ds = (case collect_matches payload ds [] [] of (found, errs) \<Rightarrow> (withoutOverlaps found, errs))"

definition Deterministic :: "string \<Rightarrow> go_error + pii_match list" where
  "Deterministic payload = Inr (Detect payload)"

section \<open>Spans lie in the text\<close>

lemma rep_ends_range:
  assumes "\<And>i e. i \<le> N \<Longrightarrow> e \<in> set (f i) \<Longrightarrow> i \<le> e \<and> e \<le> N"
  shows "e \<in> set (rep_ends f m n i) \<Longrightarrow> i \<le> N \<Longrightarrow> i \<le> e \<and> e \<le> N"
proof (induction n arbitrary: m i)
  case (Suc n)
  from Suc.prems(1) consider "e = i" | j where "j \<in> set (f i)" "e \<in> set (rep_ends f (m - 1) n j)"
    by (auto split: if_splits)
  then show ?case
  proof cases
    case 2
    from assms[OF Suc.prems(2) 2(1)] have j: "i \<le> j" "j \<le> N" by auto
    from Suc.IH[OF 2(2) j(2)] j(1) show ?thesis by simp
  qed (use Suc.prems in simp)
qed (auto split: if_splits)

lemma re_ends_range: "e \<in> set (re_ends r s i) \<Longrightarrow> i \<le> length s \<Longrightarrow> i \<le> e \<and> e \<le> length s"
proof (induction r arbitrary: i e)
  case (RSeq a b)
  from RSeq.prems(1) obtain j where j: "j \<in> set (re_ends a s i)" "e \<in> set (re_ends b s j)" by auto
  from RSeq.IH(1)[OF j(1) RSeq.prems(2)] RSeq.IH(2)[OF j(2)] show ?case by auto
next
  case (RRep a m n)
  show ?case
    by (rule rep_ends_range[of "length s" "re_ends a s"]) (use RRep in auto)
qed (auto split: if_splits)

lemma find_from_range: "(a, b) \<in> set (find_from r s i) \<Longrightarrow> i \<le> a \<and> a \<le> b \<and> b \<le> length s"
proof (induction r s i rule: find_from.induct)
  case (1 r s i)
  show ?case
  proof (cases "i > length s")
    case True
    then have "find_from r s i = []" by (subst find_from.simps) simp
    with 1(3) show ?thesis by simp
  next
    case False
    show ?thesis
    proof (cases "re_ends r s i")
      case Nil
      then have "find_from r s i = find_from r s (Suc i)" using False by (subst find_from.simps) simp
      with 1(1)[OF False Nil] 1(3) show ?thesis by simp
    next
      case (Cons e es)
      then have eq: "find_from r s i = (i, e) # find_from r s (max e (Suc i))"
        using False by (subst find_from.simps) simp
      have "i \<le> e \<and> e \<le> length s" using re_ends_range[of e r s i] Cons False by simp
      with 1(2)[OF False Cons] 1(3) show ?thesis unfolding eq by auto
    qed
  qed
qed

section \<open>Merged matches are sorted and disjoint\<close>

definition span_ok :: "string \<Rightarrow> pii_match \<Rightarrow> bool" where
  "span_ok text m = (mt_Start m \<le> mt_End m \<and> mt_End m \<le> length text \<and>
                     mt_Value m = take (mt_End m - mt_Start m) (drop (mt_Start m) text))"

fun disjoint_from :: "nat \<Rightarrow> pii_match list \<Rightarrow> bool" where
  \<comment> \<open>In order of position, each starting at or after the end of the one before.\<close>
  "disjoint_from e [] = True"
| "disjoint_from e (m # ms) = (e \<le> mt_Start m \<and> mt_Start m \<le> mt_End m \<and> disjoint_from (mt_End m) ms)"

lemma sink_mset: "mset (sink m xs) = add_mset m (mset xs)"
  by (induction xs) auto

lemma sortByStart_mset: "mset (sortByStart ms) = mset ms"
proof -
  have "mset (foldl (\<lambda>sorted m. sink m sorted) acc ms) = mset acc + mset ms" for acc
    by (induction ms arbitrary: acc) (auto simp: sink_mset)
  then show ?thesis by (simp add: sortByStart_def)
qed

lemma sink_sorted:
  "sorted_wrt (\<lambda>a b. mt_Start b \<le> mt_Start a) xs \<Longrightarrow> sorted_wrt (\<lambda>a b. mt_Start b \<le> mt_Start a) (sink m xs)"
proof (induction xs)
  case (Cons x xs)
  have "set (sink m xs) = insert m (set xs)" using sink_mset[of m xs] by (metis set_mset_mset set_mset_add_mset_insert)
  with Cons show ?case by auto
qed simp

lemma sink_filter:
  assumes "sorted_wrt (\<lambda>a b. mt_Start b \<le> mt_Start a) xs"
  shows "filter (\<lambda>x. mt_Start x = k) (sink m xs) =
         (if mt_Start m = k then m # filter (\<lambda>x. mt_Start x = k) xs else filter (\<lambda>x. mt_Start x = k) xs)"
  using assms by (induction xs) auto

lemma sortByStart_fold:
  assumes "sorted_wrt (\<lambda>a b. mt_Start b \<le> mt_Start a) acc"
  shows "sorted_wrt (\<lambda>a b. mt_Start b \<le> mt_Start a) (foldl (\<lambda>sorted m. sink m sorted) acc ms) \<and>
         filter (\<lambda>x. mt_Start x = k) (foldl (\<lambda>sorted m. sink m sorted) acc ms) =
         rev (filter (\<lambda>x. mt_Start x = k) ms) @ filter (\<lambda>x. mt_Start x = k) acc"
  using assms
proof (induction ms arbitrary: acc)
  case (Cons m ms)
  from Cons.IH[OF sink_sorted[OF Cons.prems]] sink_filter[OF Cons.prems, of k m] show ?case by auto
qed simp

lemma sortByStart_is_stable_sort: "sortByStart ms = sort_key mt_Start ms"
proof -
  let ?f = "foldl (\<lambda>sorted m. sink m sorted) [] ms"
  have s: "sorted_wrt (\<lambda>a b. mt_Start b \<le> mt_Start a) ?f"
    and f: "filter (\<lambda>x. mt_Start x = k) ?f = rev (filter (\<lambda>x. mt_Start x = k) ms)" for k
    using sortByStart_fold[of "[]" ms] by simp_all
  show ?thesis
  proof (rule sym, rule properties_for_sort_key)
    show "mset (sortByStart ms) = mset ms" by (rule sortByStart_mset)
    show "filter (\<lambda>x. mt_Start k = mt_Start x) (sortByStart ms) = filter (\<lambda>x. mt_Start k = mt_Start x) ms"
      if "k \<in> set (sortByStart ms)" for k
      using f[of "mt_Start k"] by (simp add: sortByStart_def rev_filter[symmetric] eq_commute[of "mt_Start k"])
    show "sorted (map mt_Start (sortByStart ms))"
      using s by (simp add: sortByStart_def sorted_map sorted_wrt_rev)
  qed
qed

lemma keep_disjoint_subset: "set (keep_disjoint e ms) \<subseteq> set ms"
  by (induction e ms rule: keep_disjoint.induct) auto

lemma keep_disjoint_disjoint:
  assumes "\<forall>m \<in> set ms. mt_Start m \<le> mt_End m" "e \<le> int e'" "e' = 0 \<or> int e' \<le> e"
  shows "disjoint_from e' (keep_disjoint e ms)"
  using assms
proof (induction ms arbitrary: e e')
  case (Cons m ms)
  show ?case
  proof (cases "int (mt_Start m) < e")
    case True
    with Cons show ?thesis by simp
  next
    case False
    with Cons.prems Cons.IH[of "int (mt_End m)" "mt_End m"] show ?thesis by auto
  qed
qed simp

lemma withoutOverlaps_disjoint:
  assumes "\<forall>m \<in> set ms. mt_Start m \<le> mt_End m"
  shows "disjoint_from 0 (withoutOverlaps ms)" "set (withoutOverlaps ms) \<subseteq> set ms"
proof -
  have set_eq: "set (sortByStart ms) = set ms" using sortByStart_mset by (metis set_mset_mset)
  show "set (withoutOverlaps ms) \<subseteq> set ms"
    using keep_disjoint_subset[of "- 1" "sortByStart ms"] by (auto simp: withoutOverlaps_def set_eq)
  show "disjoint_from 0 (withoutOverlaps ms)"
  proof (cases "length ms < 2")
    case True
    then show ?thesis using assms by (cases ms) (auto simp: withoutOverlaps_def)
  next
    case False
    have "disjoint_from 0 (keep_disjoint (- 1) (sortByStart ms))"
      by (rule keep_disjoint_disjoint) (use assms set_eq in auto)
    with False show ?thesis by (simp add: withoutOverlaps_def)
  qed
qed

text \<open>Every match that is dropped overlaps one that is kept.\<close>

lemma keep_disjoint_maximal:
  assumes "sorted (map mt_Start ms)" "m \<in> set ms" "m \<notin> set (keep_disjoint e ms)"
    "\<forall>x \<in> set ms. mt_Start x \<le> mt_End x"
  shows "int (mt_Start m) < e \<or> (\<exists>k \<in> set (keep_disjoint e ms). mt_Start k \<le> mt_Start m \<and> mt_Start m < mt_End k)"
  using assms
proof (induction ms arbitrary: e)
  case (Cons x xs)
  show ?case
  proof (cases "int (mt_Start x) < e")
    case True
    with Cons show ?thesis by auto
  next
    case False
    with Cons.prems have m: "m \<in> set xs" "m \<notin> set (keep_disjoint (int (mt_End x)) xs)" by auto
    from Cons.IH[OF _ m] Cons.prems have
      "int (mt_Start m) < int (mt_End x) \<or>
       (\<exists>k \<in> set (keep_disjoint (int (mt_End x)) xs). mt_Start k \<le> mt_Start m \<and> mt_Start m < mt_End k)" by simp
    moreover have "mt_Start x \<le> mt_Start m" using Cons.prems(1) m(1) by auto
    ultimately show ?thesis using False by auto
  qed
qed simp

lemma withoutOverlaps_maximal:
  assumes "\<forall>m \<in> set ms. mt_Start m \<le> mt_End m" "m \<in> set ms" "m \<notin> set (withoutOverlaps ms)"
  shows "\<exists>k \<in> set (withoutOverlaps ms). mt_Start k \<le> mt_Start m \<and> mt_Start m < mt_End k"
proof -
  from assms(2,3) have len: "\<not> length ms < 2" by (auto simp: withoutOverlaps_def)
  have set_eq: "set (sortByStart ms) = set ms" using sortByStart_mset by (metis set_mset_mset)
  have "sorted (map mt_Start (sortByStart ms))" by (simp add: sortByStart_is_stable_sort)
  from keep_disjoint_maximal[OF this, of m "- 1"] assms len set_eq show ?thesis
    by (auto simp: withoutOverlaps_def)
qed

lemma detect_one_span_ok: "m \<in> set (detect_one text d) \<Longrightarrow> span_ok text m \<and> mt_Kind m = det_kind d"
  using find_from_range
  by (fastforce simp: detect_one_def FindAllStringIndex_def span_ok_def Let_def split: if_splits option.splits)

lemma Detect_ok: "disjoint_from 0 (Detect text)" "m \<in> set (Detect text) \<Longrightarrow> span_ok text m"
proof -
  let ?ms = "concat (map (detect_one text) detectors)"
  have ok: "\<forall>m \<in> set ?ms. span_ok text m" using detect_one_span_ok by (auto simp del: set_concat simp: set_concat)
  then have le: "\<forall>m \<in> set ?ms. mt_Start m \<le> mt_End m" by (auto simp: span_ok_def)
  show "disjoint_from 0 (Detect text)" using withoutOverlaps_disjoint(1)[OF le] by (simp add: Detect_def)
  show "m \<in> set (Detect text) \<Longrightarrow> span_ok text m"
    using withoutOverlaps_disjoint(2)[OF le] ok by (auto simp only: Detect_def)
qed

section \<open>Checksums\<close>

text \<open>The number an IBAN stands for: every character replaced by its decimal value, read as one decimal number.\<close>

definition iban_digits :: "string \<Rightarrow> string" where
  "iban_digits cs = concat (map (\<lambda>c. format_nat (the (iban_value c))) cs)"

definition decimal :: "nat \<Rightarrow> string \<Rightarrow> nat" where
  "decimal n ds = foldl (\<lambda>n c. n * 10 + digit_val c) n ds"

lemma decimal_append: "decimal n (xs @ ys) = decimal (decimal n xs) ys"
  by (simp add: decimal_def)

lemma iban_value_bound: "iban_value c = Some v \<Longrightarrow> v < 100"
  by (auto simp: iban_value_def is_digit_def split: if_splits)

lemma decimal_format_nat:
  assumes "v < 100" shows "decimal n (format_nat v) = (if v > 9 then n * 100 + v else n * 10 + v)"
proof (cases "v > 9")
  case True
  then have "format_nat v = [digit_char (v div 10), digit_char (v mod 10)]"
    using assms div_less_iff_less_mult[of 10 v 10] by (subst format_nat.simps) (simp add: format_nat.simps[of "v div 10"])
  moreover have "v div 10 * 10 + v mod 10 = v" by simp
  ultimately show ?thesis using True assms by (simp add: decimal_def digit_char_facts algebra_simps)
next
  case False
  then show ?thesis by (subst format_nat.simps) (simp add: decimal_def digit_char_facts)
qed

lemma mod_step: "(n mod 97 * k + v) mod 97 = (n * k + v) mod (97 :: nat)"
  by (metis mod_add_left_eq mod_mult_left_eq)

lemma iban_remainder_correct:
  "iban_remainder (n mod 97) cs =
     (if list_all (\<lambda>c. iban_value c \<noteq> None) cs then Some (decimal n (iban_digits cs) mod 97) else None)"
proof (induction cs arbitrary: n)
  case Nil
  then show ?case by (simp add: decimal_def iban_digits_def)
next
  case (Cons c cs)
  show ?case
  proof (cases "iban_value c")
    case (Some v)
    let ?n = "if v > 9 then n * 100 + v else n * 10 + v"
    have "iban_remainder (n mod 97) (c # cs) = iban_remainder (?n mod 97) cs"
      by (simp add: Some mod_step)
    moreover have "decimal n (iban_digits (c # cs)) = decimal ?n (iban_digits cs)"
      using decimal_format_nat[OF iban_value_bound[OF Some], of n]
      by (simp add: iban_digits_def decimal_append Some)
    ultimately show ?thesis using Cons.IH[of ?n] Some by simp
  qed simp
qed

text \<open>A changed digit changes the sum by something that is not a multiple of ten.\<close>

definition luhn_weight :: "bool \<Rightarrow> char \<Rightarrow> nat" where
  "luhn_weight dbl c = (let n = digit_val c in if dbl then (if n * 2 > 9 then n * 2 - 9 else n * 2) else n)"

lemma luhn_sum_append:
  "luhn_sum dbl (xs @ c # ys) = luhn_sum dbl xs + luhn_weight (dbl \<noteq> odd (length xs)) c
                                + luhn_sum (dbl = odd (length xs)) ys"
proof (induction xs arbitrary: dbl)
  case Nil
  then show ?case by (simp add: luhn_weight_def Let_def)
next
  case (Cons x xs)
  show ?case using Cons.IH[of "\<not> dbl"] by (cases dbl) (simp_all add: Let_def)
qed

lemma digit_val_range: "is_digit c \<Longrightarrow> digit_val c \<in> {0..9}"
  by (auto simp: is_digit_def digit_val_def)

lemma luhn_weight_inj:
  assumes "is_digit a" "is_digit b" "luhn_weight dbl a mod 10 = luhn_weight dbl b mod 10"
  shows "digit_val a = digit_val b"
proof -
  have r: "{0..9} = {0,1,2,3,4,5,6,7,8,9::nat}" by auto
  from digit_val_range[OF assms(1)] digit_val_range[OF assms(2)] assms(3) show ?thesis
    unfolding r luhn_weight_def Let_def by (cases dbl) auto
qed

lemma digit_val_inj: "is_digit a \<Longrightarrow> is_digit b \<Longrightarrow> digit_val a = digit_val b \<Longrightarrow> a = b"
  by (auto simp: is_digit_def digit_val_def) (metis eq_diff_iff of_char_eq_iff)

end
