(* ===== verification/PII_Transform.thy ===== *)
theory PII_Transform
  imports PII_Detect KV_Store
begin

text \<open>
  \<open>dataplane/internal/pii/transform.go\<close> and \<open>stream.go\<close>: replacing detected values, the token vault,
  and putting the originals back into a response, either whole (\<open>Restore\<close>) or chunk by chunk
  (\<open>Restorer\<close>). A slice expression that Go would panic on is None. The placeholder pattern is
  matched by a direct matcher: where it matches at a position, the match is unique, because the
  letters and the digits of a placeholder are followed by characters outside their classes.
\<close>

section \<open>Placeholders\<close>

definition MaxPlaceholderLen :: nat where
  "MaxPlaceholderLen = 64"

abbreviation placeholderOpen :: string where "placeholderOpen \<equiv> ''[[''"
abbreviation placeholderClose :: string where "placeholderClose \<equiv> '']]''"

definition is_kind_char :: "char \<Rightarrow> bool" where
  "is_kind_char c = (is_upper c \<or> c = CHR ''_'')"

definition placeholder_len :: "string \<Rightarrow> nat option" where
  \<comment> \<open>The length of the placeholder a text starts with.\<close>
  "placeholder_len s =
     (if \<not> HasPrefix s placeholderOpen then None
      else (let l = takeWhile is_kind_char (drop 2 s);
                r = drop (length l) (drop 2 s);
                d = takeWhile is_digit r
            in if length l < 2 \<or> last l \<noteq> CHR ''_'' \<or> d = [] \<or> \<not> HasPrefix (drop (length d) r) placeholderClose
               then None
               else Some (length l + length d + 4)))"

datatype piece = Text char | Hole string

lemma placeholder_len_pos: "placeholder_len s = Some n \<Longrightarrow> 4 < n"
  by (auto simp: placeholder_len_def Let_def split: if_splits)

text \<open>How \<open>ReplaceAllStringFunc\<close> walks a text: at a match it takes the match, elsewhere one character.\<close>

function pieces :: "string \<Rightarrow> piece list" where
  "pieces [] = []"
| "pieces (c # s) =
     (case placeholder_len (c # s) of
        Some n \<Rightarrow> Hole (take n (c # s)) # pieces (drop n (c # s))
      | None \<Rightarrow> Text c # pieces s)"
  by pat_completeness auto
termination
  by (relation "measure length") (auto dest: placeholder_len_pos)

fun piece_text :: "(string \<Rightarrow> string) \<Rightarrow> piece \<Rightarrow> string" where
  "piece_text f (Text c) = [c]"
| "piece_text f (Hole h) = f h"

definition replace_all :: "(string \<Rightarrow> string) \<Rightarrow> string \<Rightarrow> string" where
  "replace_all f s = concat (map (piece_text f) (pieces s))"

definition original_of :: "(string, string) gomap \<Rightarrow> string \<Rightarrow> string" where
  "original_of repl h = (case map_of repl h of Some v \<Rightarrow> v | None \<Rightarrow> h)"

fun missed :: "(string, string) gomap \<Rightarrow> piece \<Rightarrow> nat" where
  "missed repl (Text c) = 0"
| "missed repl (Hole h) = (if map_of repl h = None then 1 else 0)"

section \<open>Transforming\<close>

datatype strategy = StrategyUnset | StrategyNone | StrategyRedact | StrategyHash | StrategyTokenize

record pii_result =
  res_Payload :: string
  res_Replacements :: "(string, string) gomap"
  res_Count :: nat

definition placeholder :: "kind \<Rightarrow> nat \<Rightarrow> string" where
  "placeholder k n = placeholderOpen @ k @ ''_'' @ format_nat n @ placeholderClose"

definition hashValue :: "hmac_fun \<Rightarrow> string \<Rightarrow> pii_match \<Rightarrow> string" where
  "hashValue hmac pepper m =
     placeholderOpen @ mt_Kind m @ ''_'' @ take 12 (hex_encode (hmac pepper (mt_Value m))) @ placeholderClose"

definition go_slice :: "string \<Rightarrow> nat \<Rightarrow> nat \<Rightarrow> string option" where
  "go_slice s a b = (if a \<le> b \<and> b \<le> length s then Some (take (b - a) (drop a s)) else None)"

definition transform_one ::
  "hmac_fun \<Rightarrow> string \<Rightarrow> strategy \<Rightarrow> pii_match \<Rightarrow> (kind, nat) gomap \<Rightarrow> (string, string) gomap \<Rightarrow>
   string \<times> (kind, nat) gomap \<times> (string, string) gomap" where
  "transform_one hmac pepper strat m counters repl =
     (case strat of
        StrategyHash \<Rightarrow> (hashValue hmac pepper m, counters, repl)
      | StrategyNone \<Rightarrow> (mt_Value m, counters, repl)
      | StrategyUnset \<Rightarrow> ('''', counters, repl)
      | _ \<Rightarrow>
          (let n = gomap_get 0 counters (mt_Kind m) + 1; ph = placeholder (mt_Kind m) n
           in (ph, AList.update (mt_Kind m) n counters,
               if strat = StrategyTokenize then AList.update ph (mt_Value m) repl else repl)))"

fun transform_from ::
  "hmac_fun \<Rightarrow> string \<Rightarrow> strategy \<Rightarrow> string \<Rightarrow> nat \<Rightarrow> (kind, nat) gomap \<Rightarrow> (string, string) gomap \<Rightarrow>
   pii_match list \<Rightarrow> (string \<times> (string, string) gomap) option" where
  "transform_from hmac pepper strat text from counters repl [] =
     map_option (\<lambda>s. (s, repl)) (go_slice text from (length text))"
| "transform_from hmac pepper strat text from counters repl (m # ms) =
     (case go_slice text from (mt_Start m) of
        None \<Rightarrow> None
      | Some seg \<Rightarrow>
          (case transform_one hmac pepper strat m counters repl of (pc, counters', repl') \<Rightarrow>
            (case transform_from hmac pepper strat text (mt_End m) counters' repl' ms of
               None \<Rightarrow> None
             | Some (rest, r) \<Rightarrow> Some (seg @ pc @ rest, r))))"

definition TransformMatches ::
  "hmac_fun \<Rightarrow> string \<Rightarrow> pii_match list \<Rightarrow> strategy \<Rightarrow> string \<Rightarrow> pii_result option" where
  "TransformMatches hmac payload ms strat pepper =
     (if strat = StrategyNone \<or> strat = StrategyUnset \<or> ms = []
      then Some \<lparr>res_Payload = payload, res_Replacements = [], res_Count = 0\<rparr>
      else map_option (\<lambda>(out, repl). \<lparr>res_Payload = out, res_Replacements = repl, res_Count = length ms\<rparr>)
             (transform_from hmac pepper strat payload 0 [] [] ms))"

definition Transform :: "hmac_fun \<Rightarrow> string \<Rightarrow> strategy \<Rightarrow> string \<Rightarrow> pii_result option" where
  "Transform hmac payload strat pepper = TransformMatches hmac payload (Detect payload) strat pepper"

definition Restore :: "string \<Rightarrow> (string, string) gomap \<Rightarrow> string" where
  "Restore payload repl = (if repl = [] then payload else replace_all (original_of repl) payload)"

section \<open>The vault\<close>

definition NewVault_ttl :: "duration \<Rightarrow> duration" where
  "NewVault_ttl ttl = (if ttl \<le> 0 then 5 * minute else ttl)"

definition vaultKey :: "string \<Rightarrow> string \<Rightarrow> string \<Rightarrow> string" where
  "vaultKey tenant requestID ph = ''pii:'' @ tenant @ '':'' @ requestID @ '':'' @ ph"

fun vault_Put ::
  "'s kv_ops \<Rightarrow> duration \<Rightarrow> gotime \<Rightarrow> string \<Rightarrow> string \<Rightarrow> 's \<Rightarrow> (string, string) gomap \<Rightarrow> go_error option \<times> 's" where
  "vault_Put ops ttl now tenant req s [] = (None, s)"
| "vault_Put ops ttl now tenant req s ((ph, v) # repl) =
     (case kv_Set ops s now (vaultKey tenant req ph) v ttl of
        (Some e, s') \<Rightarrow> (err_Wrap CodeUnavailable (Some e) ''storing tokenised values'', s')
      | (None, s') \<Rightarrow> vault_Put ops ttl now tenant req s' repl)"

definition vault_Get :: "'s kv_ops \<Rightarrow> gotime \<Rightarrow> string \<Rightarrow> string \<Rightarrow> 's \<Rightarrow> string \<Rightarrow> string option" where
  "vault_Get ops now tenant req s ph =
     (case kv_Get ops s now (vaultKey tenant req ph) of Inl _ \<Rightarrow> None | Inr r \<Rightarrow> r)"

fun vault_Forget :: "'s kv_ops \<Rightarrow> string \<Rightarrow> string \<Rightarrow> 's \<Rightarrow> (string, string) gomap \<Rightarrow> 's" where
  "vault_Forget ops tenant req s [] = s"
| "vault_Forget ops tenant req s ((ph, _) # repl) =
     vault_Forget ops tenant req (snd (kv_Delete ops s (vaultKey tenant req ph))) repl"

section \<open>Restoring a stream\<close>

record restorer =
  rs_replacements :: "(string, string) gomap"
  rs_held :: string
  rs_misses :: nat

definition NewRestorer :: "(string, string) gomap \<Rightarrow> restorer" where
  "NewRestorer repl = \<lparr>rs_replacements = repl, rs_held = '''', rs_misses = 0\<rparr>"

definition Active :: "restorer \<Rightarrow> bool" where
  "Active r = (rs_replacements r \<noteq> [])"

definition substitute :: "restorer \<Rightarrow> string \<Rightarrow> string \<times> restorer" where
  "substitute r text =
     (replace_all (original_of (rs_replacements r)) text,
      r\<lparr>rs_misses := rs_misses r + sum_list (map (missed (rs_replacements r)) (pieces text))\<rparr>)"

definition pendingTail :: "string \<Rightarrow> nat" where
  "pendingTail text =
     (let window = min MaxPlaceholderLen (length text);
          tail = drop (length text - window) text;
          trailing = (if HasSuffix text ''['' then 1 else 0)
      in case LastIndex tail placeholderOpen of
           Some opn \<Rightarrow> if \<not> Contains (drop opn tail) placeholderClose then window - opn else trailing
         | None \<Rightarrow> trailing)"

definition Push :: "restorer \<Rightarrow> string \<Rightarrow> string \<times> restorer" where
  "Push r chunk =
     (if \<not> Active r then (chunk, r)
      else (let text = rs_held r @ chunk; safe = length text - pendingTail text in
        if safe = 0 then ('''', r\<lparr>rs_held := text\<rparr>)
        else (case substitute r (take safe text) of (emitted, r') \<Rightarrow> (emitted, r'\<lparr>rs_held := drop safe text\<rparr>))))"

definition Flush :: "restorer \<Rightarrow> string \<times> restorer" where
  "Flush r =
     (if \<not> Active r then ('''', r)
      else (let left = rs_held r; r1 = r\<lparr>rs_held := ''''\<rparr> in
        if left = '''' then ('''', r1) else substitute r1 left))"

fun push_all :: "restorer \<Rightarrow> string list \<Rightarrow> string \<times> restorer" where
  \<comment> \<open>A whole stream: every chunk pushed, then the flush.\<close>
  "push_all r [] = Flush r"
| "push_all r (c # cs) =
     (case Push r c of (out, r1) \<Rightarrow> (case push_all r1 cs of (rest, r2) \<Rightarrow> (out @ rest, r2)))"

section \<open>The shape of a placeholder\<close>

lemma placeholder_len_shape:
  assumes "placeholder_len s = Some n"
  obtains l d r where "s = ''[['' @ l @ d @ '']]'' @ r" "n = length l + length d + 4"
    "list_all is_kind_char l" "list_all is_digit d" "d \<noteq> []" "2 \<le> length l" "last l = CHR ''_''"
proof -
  from assms have p: "HasPrefix s ''[[''" by (auto simp: placeholder_len_def split: if_splits)
  then obtain t where t: "s = ''[['' @ t" by (auto simp: HasPrefix_iff)
  define l where "l = takeWhile is_kind_char t"
  define r where "r = drop (length l) t"
  define d where "d = takeWhile is_digit r"
  from assms p have c: "2 \<le> length l" "last l = CHR ''_''" "d \<noteq> []" "HasPrefix (drop (length d) r) '']]''"
    "n = length l + length d + 4"
    by (auto simp: placeholder_len_def t l_def[symmetric] r_def[symmetric] d_def[symmetric] Let_def
        simp del: drop_drop split: if_splits)
  from c(4) obtain w where w: "drop (length d) r = '']]'' @ w" by (auto simp: HasPrefix_iff)
  have "t = l @ r" unfolding r_def l_def by (metis takeWhile_dropWhile_id dropWhile_eq_drop)
  moreover have "r = d @ '']]'' @ w" using w unfolding d_def
    by (metis takeWhile_dropWhile_id dropWhile_eq_drop)
  ultimately have "s = ''[['' @ l @ d @ '']]'' @ w" by (simp add: t)
  moreover have "list_all is_kind_char l" "list_all is_digit d"
    by (auto simp: l_def d_def list_all_iff dest: set_takeWhileD)
  ultimately show ?thesis using c that by blast
qed

lemma char_class_facts:
  "\<not> is_kind_char (CHR ''['')" "\<not> is_kind_char (CHR '']'')" "\<not> is_digit (CHR ''['')" "\<not> is_digit (CHR '']'')"
  "is_kind_char c \<Longrightarrow> \<not> is_digit c"
  by (auto simp: is_kind_char_def is_upper_def is_digit_def)

lemma takeWhile_all_then: "list_all P xs \<Longrightarrow> ys = [] \<or> \<not> P (hd ys) \<Longrightarrow> takeWhile P (xs @ ys) = xs"
  by (induction xs) (cases ys; auto)+

lemma placeholder_len_intro:
  assumes "list_all is_kind_char l" "list_all is_digit d" "d \<noteq> []" "2 \<le> length l" "last l = CHR ''_''"
  shows "placeholder_len (''[['' @ l @ d @ '']]'' @ r) = Some (length l + length d + 4)"
proof -
  obtain d0 ds where d: "d = d0 # ds" using assms(3) by (cases d) auto
  have "\<not> is_kind_char d0" using assms(2) char_class_facts(5) by (auto simp: d)
  then have 1: "takeWhile is_kind_char (l @ d @ '']]'' @ r) = l"
    by (intro takeWhile_all_then assms(1)) (simp add: d)
  have 2: "takeWhile is_digit (d @ '']]'' @ r) = d"
    by (intro takeWhile_all_then assms(2)) (simp add: char_class_facts)
  from assms 1 2 show ?thesis by (simp add: placeholder_len_def Let_def)
qed

lemma placeholder_len_append: "placeholder_len u = Some n \<Longrightarrow> placeholder_len (u @ v) = Some n"
proof -
  assume "placeholder_len u = Some n"
  then obtain l d r where s: "u = ''[['' @ l @ d @ '']]'' @ r" "n = length l + length d + 4"
    "list_all is_kind_char l" "list_all is_digit d" "d \<noteq> []" "2 \<le> length l" "last l = CHR ''_''"
    by (rule placeholder_len_shape)
  show ?thesis using placeholder_len_intro[OF s(3-7), of "r @ v"] by (simp add: s(1,2))
qed

lemma placeholder_len_take:
  assumes "placeholder_len (u @ v) = Some n" "n \<le> length u"
  shows "placeholder_len u = Some n"
proof -
  from assms(1) obtain l d r where s: "u @ v = ''[['' @ l @ d @ '']]'' @ r" "n = length l + length d + 4"
    "list_all is_kind_char l" "list_all is_digit d" "d \<noteq> []" "2 \<le> length l" "last l = CHR ''_''"
    by (rule placeholder_len_shape)
  define h where "h = ''[['' @ l @ d @ '']]''"
  have "length h = n" "u @ v = h @ r" by (simp_all add: h_def s(1,2))
  then have "u = h @ drop n u" using assms(2) by (metis append_eq_append_conv_if append_take_drop_id)
  then have "u = ''[['' @ l @ d @ '']]'' @ drop n u" by (simp add: h_def)
  with placeholder_len_intro[OF s(3-7), of "drop n u"] show ?thesis by (simp add: s(2))
qed

lemma placeholder_len_chars:
  assumes "placeholder_len s = Some n"
  shows "n \<le> length s" "6 < n" "s ! 0 = CHR ''[''" "s ! 1 = CHR ''[''"
    "s ! (n - 2) = CHR '']''" "s ! (n - 1) = CHR '']''"
    "1 < i \<Longrightarrow> i < n \<Longrightarrow> s ! i \<noteq> CHR ''[''" "i < n - 2 \<Longrightarrow> s ! i \<noteq> CHR '']''"
proof -
  obtain l d r where s: "s = ''[['' @ l @ d @ '']]'' @ r" "n = length l + length d + 4"
    "list_all is_kind_char l" "list_all is_digit d" "d \<noteq> []" "2 \<le> length l" "last l = CHR ''_''"
    using assms by (rule placeholder_len_shape)
  define m where "m = l @ d"
  have m: "s = ''[['' @ m @ '']]'' @ r" "n = length m + 4" by (simp_all add: m_def s)
  have notin: "CHR ''['' \<notin> set m" "CHR '']'' \<notin> set m"
    using s(3,4) char_class_facts by (auto simp: m_def list_all_iff)
  show "n \<le> length s" "6 < n" using s(5,6) by (simp_all add: s(1,2)) (cases d; simp)
  show "s ! 0 = CHR ''[''" "s ! 1 = CHR ''[''" by (simp_all add: m)
  show "s ! (n - 2) = CHR '']''" "s ! (n - 1) = CHR '']''" by (simp_all add: m nth_append)
  show "s ! i \<noteq> CHR ''[''" if "1 < i" "i < n"
  proof -
    define j where "j = i - 2"
    have j: "i = Suc (Suc j)" "j < length m + 2" using that m(2) by (simp_all add: j_def)
    consider "j < length m" | "j = length m" | "j = Suc (length m)" using j(2) by linarith
    then have "(m @ '']]'' @ r) ! j \<in> set m \<union> {CHR '']''}"
      by cases (simp_all add: nth_append)
    with notin(1) show ?thesis by (auto simp: m(1) j(1))
  qed
  show "s ! i \<noteq> CHR '']''" if "i < n - 2"
  proof (cases "i < 2")
    case True
    then have "i = 0 \<or> i = 1" by linarith
    then show ?thesis by (auto simp: m(1))
  next
    case False
    define j where "j = i - 2"
    have j: "i = Suc (Suc j)" "j < length m" using False that m(2) by (simp_all add: j_def)
    then have "m ! j \<in> set m" by simp
    with notin(2) have "m ! j \<noteq> CHR '']''" by metis
    then show ?thesis using j by (simp add: m(1) nth_append)
  qed
qed

section \<open>Splitting a text where no placeholder straddles the cut\<close>

definition no_straddle :: "string \<Rightarrow> nat \<Rightarrow> bool" where
  "no_straddle s k = (\<forall>a n. a < k \<longrightarrow> placeholder_len (drop a s) = Some n \<longrightarrow> a + n \<le> k)"

lemma drop_shift: "k \<le> length xs \<Longrightarrow> drop a (drop k xs @ v) = drop (a + k) (xs @ v)"
  by (simp add: add.commute)

lemma pieces_split:
  assumes "no_straddle (u @ v) (length u)"
  shows "pieces (u @ v) = pieces u @ pieces v"
  using assms
proof (induction u rule: pieces.induct)
  case (2 c s)
  have shift: "no_straddle (drop k (c # s) @ v) (length (drop k (c # s)))" if "k \<le> length (c # s)" for k
    unfolding no_straddle_def
  proof (intro allI impI)
    fix a n
    assume a: "a < length (drop k (c # s))" "placeholder_len (drop a (drop k (c # s) @ v)) = Some n"
    have "drop a (drop k (c # s) @ v) = drop (a + k) ((c # s) @ v)" by (rule drop_shift[OF that])
    with a that 2(3) have "a + k + n \<le> length (c # s)"
      unfolding no_straddle_def by (metis add.commute length_drop less_diff_conv)
    then show "a + n \<le> length (drop k (c # s))" by simp
  qed
  show ?case
  proof (cases "placeholder_len ((c # s) @ v)")
    case None
    then have n: "placeholder_len (c # s) = None"
      using placeholder_len_append[of "c # s" _ v] by (cases "placeholder_len (c # s)") auto
    from shift[of 1] have "no_straddle (s @ v) (length s)" by simp
    with 2(1)[OF n] n None show ?thesis by simp
  next
    case (Some n)
    have "0 < length (c # s)" by simp
    with 2(3) Some have le: "n \<le> length (c # s)" unfolding no_straddle_def by (metis add_0 drop_0)
    from placeholder_len_take[OF Some le] have n: "placeholder_len (c # s) = Some n" .
    from 2(2)[OF n] shift[OF le] have "pieces (drop n (c # s) @ v) = pieces (drop n (c # s)) @ pieces v" by blast
    moreover have "drop n (c # s @ v) = drop n (c # s) @ v" "take n (c # s @ v) = take n (c # s)"
      using le by (cases n; simp)+
    ultimately show ?thesis using Some n by simp
  qed
qed simp

lemma replace_all_split:
  "no_straddle (u @ v) (length u) \<Longrightarrow> replace_all f (u @ v) = replace_all f u @ replace_all f v"
  by (simp add: replace_all_def pieces_split)

section \<open>The held-back tail catches every placeholder that may still be forming\<close>

definition bounded_placeholders :: "string \<Rightarrow> bool" where
  "bounded_placeholders s = (\<forall>a n. placeholder_len (drop a s) = Some n \<longrightarrow> n \<le> MaxPlaceholderLen)"

lemma bounded_placeholders_drop: "bounded_placeholders s \<Longrightarrow> bounded_placeholders (drop k s)"
  by (simp add: bounded_placeholders_def)

lemma HasPrefix_two: "HasPrefix (drop i s) [a, b] \<longleftrightarrow> Suc i < length s \<and> s ! i = a \<and> s ! Suc i = b"
proof (cases "Suc i < length s")
  case True
  then have "drop i s = s ! i # s ! Suc i # drop (Suc (Suc i)) s"
    by (metis Cons_nth_drop_Suc Suc_lessD)
  with True show ?thesis by simp
next
  case False
  then have "length (drop i s) < 2" by simp
  then have "\<not> HasPrefix (drop i s) [a, b]" by (auto simp: HasPrefix_iff dest: arg_cong[where f = length])
  with False show ?thesis by simp
qed

lemma HasSuffix_one: "HasSuffix s [c] \<longleftrightarrow> s \<noteq> [] \<and> last s = c"
  by (auto simp: HasSuffix_iff) (metis append_butlast_last_id)

lemma pendingTail_cases:
  assumes "t = length text - pendingTail text"
  obtains
    (unclosed) "Suc t < length text" "text ! t = CHR ''[''" "text ! Suc t = CHR ''[''"
      "\<And>j. t < j \<Longrightarrow> Suc j < length text \<Longrightarrow> \<not> (text ! j = CHR ''['' \<and> text ! Suc j = CHR ''['')"
      "\<And>j. t \<le> j \<Longrightarrow> Suc j < length text \<Longrightarrow> \<not> (text ! j = CHR '']'' \<and> text ! Suc j = CHR '']'')"
  | (complete) "t = length text \<or> (text \<noteq> [] \<and> t = length text - 1 \<and> last text = CHR ''['')"
      "text \<noteq> [] \<Longrightarrow> last text = CHR ''['' \<Longrightarrow> t < length text"
      "\<And>a. length text - a \<le> MaxPlaceholderLen \<Longrightarrow> Suc a < length text \<Longrightarrow>
            text ! a = CHR ''['' \<Longrightarrow> text ! Suc a = CHR ''['' \<Longrightarrow>
            (\<exists>p > a. Suc p < length text \<and> text ! p = CHR ''['' \<and> text ! Suc p = CHR ''['') \<or>
            (\<exists>q \<ge> a. Suc q < length text \<and> text ! q = CHR '']'' \<and> text ! Suc q = CHR '']'')"
proof -
  define window where "window = min MaxPlaceholderLen (length text)"
  define off where "off = length text - window"
  define tail where "tail = drop off text"
  define trailing :: nat where "trailing = (if HasSuffix text ''['' then 1 else 0)"
  have len: "length tail = window" "off + window = length text"
    by (auto simp: tail_def off_def window_def)
  have nth: "drop i tail = drop (off + i) text" for i by (simp add: tail_def add.commute)
  have pt: "pendingTail text = (case LastIndex tail ''[['' of
        Some opn \<Rightarrow> if \<not> Contains (drop opn tail) '']]'' then window - opn else trailing | None \<Rightarrow> trailing)"
    unfolding pendingTail_def Let_def trailing_def tail_def off_def window_def ..
  have two: "HasPrefix (drop i tail) [a, b] \<longleftrightarrow>
      Suc (off + i) < length text \<and> text ! (off + i) = a \<and> text ! Suc (off + i) = b" for i a b
    by (simp add: nth HasPrefix_two)
  have tr: "pendingTail text = trailing \<Longrightarrow>
      (t = length text \<or> (text \<noteq> [] \<and> t = length text - 1 \<and> last text = CHR ''[''))
      \<and> (text \<noteq> [] \<longrightarrow> last text = CHR ''['' \<longrightarrow> t < length text)"
    using assms by (auto simp: trailing_def HasSuffix_one split: if_splits)
  have has: "off \<le> a \<and> HasPrefix (drop (a - off) tail) ''[[''"
    if "length text - a \<le> MaxPlaceholderLen" "Suc a < length text" "text ! a = CHR ''[''" "text ! Suc a = CHR ''[''" for a
  proof -
    have "off \<le> a" using that(1,2) by (auto simp: off_def window_def min_def)
    with that two[of "a - off" "CHR ''[''" "CHR ''[''"] show ?thesis by simp
  qed
  show ?thesis
  proof (cases "LastIndex tail ''[[''")
    case None
    then have "\<not> (off \<le> a \<and> HasPrefix (drop (a - off) tail) ''[['')" if "Suc a < length text" for a
      using LastIndex_last(2)[OF None, of "a - off"] that len by auto
    with has tr None pt show ?thesis by (intro complete) auto
  next
    case (Some k)
    have k: "HasPrefix (drop k tail) ''[[''" using LastIndex_SomeD[OF Some] by simp
    note kt = two[of k "CHR ''[''" "CHR ''[''", THEN iffD1, OF k]
    show ?thesis
    proof (cases "Contains (drop k tail) '']]''")
      case False
      then have t: "t = off + k" using assms pt Some len kt by simp
      show ?thesis
      proof (rule unclosed)
        show "Suc t < length text" "text ! t = CHR ''[''" "text ! Suc t = CHR ''[''" using kt by (auto simp: t)
        show "\<not> (text ! j = CHR ''['' \<and> text ! Suc j = CHR ''['')" if "t < j" "Suc j < length text" for j
          using LastIndex_last(1)[OF Some, of "j - off"] two[of "j - off" "CHR ''[''" "CHR ''[''"] that len
          by (auto simp: t)
        show "\<not> (text ! j = CHR '']'' \<and> text ! Suc j = CHR '']'')" if "t \<le> j" "Suc j < length text" for j
        proof -
          have "drop (j - t) (drop k tail) = drop (j - off) tail" using that(1) by (simp add: t)
          moreover have "j - t \<le> length (drop k tail)" using that len by (simp add: t)
          ultimately have "\<not> HasPrefix (drop (j - off) tail) '']]''"
            using False unfolding Contains_iff by metis
          with two[of "j - off" "CHR '']''" "CHR '']''"] that t show ?thesis by auto
        qed
      qed
    next
      case True
      then obtain i where i: "HasPrefix (drop (i + k) tail) '']]''" by (auto simp: Contains_iff add.commute)
      note it = two[of "i + k" "CHR '']''" "CHR '']''", THEN iffD1, OF i]
      show ?thesis
      proof (rule complete)
        show "t = length text \<or> (text \<noteq> [] \<and> t = length text - 1 \<and> last text = CHR ''['')"
          "text \<noteq> [] \<Longrightarrow> last text = CHR ''['' \<Longrightarrow> t < length text"
          using tr pt Some True by auto
        fix a
        assume a: "length text - a \<le> MaxPlaceholderLen" "Suc a < length text" "text ! a = CHR ''[''" "text ! Suc a = CHR ''[''"
        from has[OF a] LastIndex_last(1)[OF Some, of "a - off"] a(2) len have "a \<le> off + k" by fastforce
        then show "(\<exists>p > a. Suc p < length text \<and> text ! p = CHR ''['' \<and> text ! Suc p = CHR ''['') \<or>
            (\<exists>q \<ge> a. Suc q < length text \<and> text ! q = CHR '']'' \<and> text ! Suc q = CHR '']'')"
          using kt it by (intro disjI2 exI[of _ "off + (i + k)"]) auto
      qed
    qed
  qed
qed

lemma pendingTail_no_straddle:
  assumes "bounded_placeholders (text @ v)"
  shows "no_straddle (text @ v) (length text - pendingTail text)"
  unfolding no_straddle_def
proof (intro allI impI, rule ccontr)
  define t where "t = length text - pendingTail text"
  fix a n
  assume a: "a < length text - pendingTail text" and p: "placeholder_len (drop a (text @ v)) = Some n"
    and "\<not> a + n \<le> length text - pendingTail text"
  then have at: "a < t" "t < a + n" by (simp_all add: t_def)
  have tN: "t \<le> length text" by (simp add: t_def)
  have n: "n \<le> 64" using assms p by (auto simp: bounded_placeholders_def MaxPlaceholderLen_def)
  have at_text: "(drop a (text @ v)) ! i = text ! (a + i)" if "a + i < length text" for i
    using that by (simp add: nth_append less_diff_conv add.commute)
  note sh = placeholder_len_chars[OF p]
  have F1: "text ! j \<noteq> CHR ''[''" if "Suc a < j" "j < a + n" "j < length text" for j
    using sh(7)[of "j - a"] at_text[of "j - a"] that by auto
  have F2: "text ! j \<noteq> CHR '']''" if "a \<le> j" "j + 2 < a + n" "j < length text" for j
    using sh(8)[of "j - a"] at_text[of "j - a"] that by auto
  have F0: "text ! a = CHR ''[''" using sh(3) at_text[of 0] at(1) tN by simp
  have F0': "Suc a < length text \<Longrightarrow> text ! Suc a = CHR ''[''" using sh(4) at_text[of 1] by simp
  from t_def show False
  proof (cases rule: pendingTail_cases)
    case unclosed
    show False
    proof (cases "Suc t < a + n")
      case True
      with F1[of "Suc t"] unclosed(1,3) at show False by simp
    next
      case False
      then have e: "t = a + (n - 1)" using at sh(2) by simp
      then have "a + (n - 1) < length text" using unclosed(1) by simp
      from at_text[OF this] have "text ! t = CHR '']''" unfolding e using sh(6) by simp
      with unclosed(2) show False by simp
    qed
  next
    case complete
    have inside: False if "Suc a < length text" "length text < a + n"
    proof -
      have "length text - a \<le> MaxPlaceholderLen" using that n by (simp add: MaxPlaceholderLen_def)
      from complete(3)[OF this that(1) F0 F0'[OF that(1)]] show False
      proof
        assume "\<exists>q > a. Suc q < length text \<and> text ! q = CHR ''['' \<and> text ! Suc q = CHR ''[''"
        then obtain q where "a < q" "Suc q < length text" "text ! Suc q = CHR ''[''" by blast
        with F1[of "Suc q"] that show False by simp
      next
        assume "\<exists>q \<ge> a. Suc q < length text \<and> text ! q = CHR '']'' \<and> text ! Suc q = CHR '']''"
        then obtain q where q: "a \<le> q" "Suc q < length text" "text ! q = CHR '']''" by blast
        with F2[of q] that show False by simp
      qed
    qed
    from complete(1) show False
    proof
      assume t: "t = length text"
      show False
      proof (cases "Suc a < length text")
        case True
        with inside at t show False by simp
      next
        case False
        then have "text \<noteq> []" and e: "length text - 1 = a" using at t by auto
        then have "last text = text ! a" by (simp add: last_conv_nth)
        with \<open>text \<noteq> []\<close> have "text \<noteq> []" "last text = text ! a" by auto
        with complete(2) F0 t show False by simp
      qed
    next
      assume t: "text \<noteq> [] \<and> t = length text - 1 \<and> last text = CHR ''[''"
      then have l: "text ! t = CHR ''[''" "t < length text" by (auto simp: last_conv_nth)
      show False
      proof (cases "t = Suc a")
        case True
        with t at sh(2) have "length text = Suc (Suc a)" by simp
        with inside sh(2) show False by simp
      next
        case False
        with F1[of t] at l show False by simp
      qed
    qed
  qed
qed

section \<open>Streaming restores what whole-response restoration does\<close>

lemma substitute_simps:
  "fst (substitute r text) = replace_all (original_of (rs_replacements r)) text"
  "rs_replacements (snd (substitute r text)) = rs_replacements r"
  "rs_held (snd (substitute r text)) = rs_held r"
  "rs_misses (snd (substitute r text)) = rs_misses r + sum_list (map (missed (rs_replacements r)) (pieces text))"
  by (simp_all add: substitute_def)

lemma replace_all_Nil [simp]: "replace_all f [] = []" "pieces [] = []"
  by (simp_all add: replace_all_def)

lemma Push_active:
  assumes "Active r" "Push r c = (out, r')"
  defines "tx \<equiv> rs_held r @ c"
  defines "k \<equiv> length tx - pendingTail tx"
  shows "out = replace_all (original_of (rs_replacements r)) (take k tx)" "rs_held r' = drop k tx"
    "rs_replacements r' = rs_replacements r"
    "rs_misses r' = rs_misses r + sum_list (map (missed (rs_replacements r)) (pieces (take k tx)))"
proof -
  have "Push r c = (if k = 0 then ('''', r\<lparr>rs_held := tx\<rparr>)
        else (fst (substitute r (take k tx)), (snd (substitute r (take k tx)))\<lparr>rs_held := drop k tx\<rparr>))"
    unfolding Push_def Let_def tx_def[symmetric] k_def[symmetric] using assms(1) by (simp add: case_prod_beta)
  with assms(2) have "out = replace_all (original_of (rs_replacements r)) (take k tx) \<and> rs_held r' = drop k tx \<and>
    rs_replacements r' = rs_replacements r \<and>
    rs_misses r' = rs_misses r + sum_list (map (missed (rs_replacements r)) (pieces (take k tx)))"
    by (cases "k = 0") (auto simp: substitute_def)
  then show "out = replace_all (original_of (rs_replacements r)) (take k tx)" "rs_held r' = drop k tx"
    "rs_replacements r' = rs_replacements r"
    "rs_misses r' = rs_misses r + sum_list (map (missed (rs_replacements r)) (pieces (take k tx)))" by auto
qed
lemma push_all_correct:
  assumes "Active r" "bounded_placeholders (rs_held r @ concat cs)" "push_all r cs = (out, r')"
  shows "out = replace_all (original_of (rs_replacements r)) (rs_held r @ concat cs) \<and>
         rs_misses r' = rs_misses r + sum_list (map (missed (rs_replacements r)) (pieces (rs_held r @ concat cs)))"
  using assms
proof (induction cs arbitrary: r out)
  case Nil
  then show ?case by (auto simp: Flush_def Let_def substitute_def split: if_splits)
next
  case (Cons c cs)
  obtain out1 r1 where p: "Push r c = (out1, r1)" by fastforce
  obtain out2 where rest: "push_all r1 cs = (out2, r')" and out: "out = out1 @ out2"
    using Cons.prems(3) p by (auto split: prod.splits)
  define tx where "tx = rs_held r @ c"
  define k where "k = length tx - pendingTail tx"
  note P = Push_active[OF Cons.prems(1) p, folded tx_def, folded k_def]
  let ?v = "drop k tx @ concat cs"
  have k: "k \<le> length tx" by (simp add: k_def)
  have "rs_held r @ concat (c # cs) = (take k tx @ drop k tx) @ concat cs"
    by (simp only: append_take_drop_id) (simp add: tx_def)
  then have whole: "rs_held r @ concat (c # cs) = take k tx @ ?v" by simp
  have eq: "take k tx @ drop k tx @ concat cs = tx @ concat cs" by (metis append.assoc append_take_drop_id)
  have "bounded_placeholders (tx @ concat cs)" using Cons.prems(2) by (simp add: tx_def)
  from pendingTail_no_straddle[OF this] have ns: "no_straddle (take k tx @ ?v) (length (take k tx))"
    using k by (simp add: k_def[symmetric] min_absorb2 eq)
  have a: "Active r1" using Cons.prems(1) P(3) by (simp add: Active_def)
  have "drop k (take k tx @ ?v) = ?v" using k by (simp add: min_absorb2)
  then have "bounded_placeholders (rs_held r1 @ concat cs)"
    using bounded_placeholders_drop[OF Cons.prems(2), of k] unfolding whole P(2) by simp
  from Cons.IH[OF a this rest]
  have "out2 = replace_all (original_of (rs_replacements r)) ?v"
    "rs_misses r' = rs_misses r1 + sum_list (map (missed (rs_replacements r)) (pieces ?v))"
    by (simp_all add: P(2,3))
  with P(1,4) out show ?case
    unfolding whole by (simp add: replace_all_split[OF ns] pieces_split[OF ns])
qed

section \<open>Tokenising and restoring is the identity\<close>

definition kind_ok :: "kind \<Rightarrow> bool" where
  "kind_ok k = (k \<noteq> '''' \<and> list_all is_kind_char k)"

definition placeholder_free :: "string \<Rightarrow> bool" where
  "placeholder_free s = (\<forall>a. placeholder_len (drop a s) = None)"

lemma list_all_append_iff: "list_all P (xs @ ys) \<longleftrightarrow> list_all P xs \<and> list_all P ys"
  by (induction xs) auto

lemma placeholder_len_placeholder:
  assumes "kind_ok k"
  shows "placeholder_len (placeholder k n @ r) = Some (length (placeholder k n))"
proof -
  have "placeholder_len (''[['' @ (k @ ''_'') @ format_nat n @ '']]'' @ r) = Some (length (k @ ''_'') + length (format_nat n) + 4)"
    by (rule placeholder_len_intro)
       (use assms format_nat_digits in \<open>auto simp: kind_ok_def list_all_append_iff is_kind_char_def Suc_le_eq\<close>)
  then show ?thesis by (simp add: placeholder_def)
qed

lemma placeholder_inj:
  assumes "kind_ok k" "kind_ok k'" "placeholder k n = placeholder k' n'"
  shows "k = k' \<and> n = n'"
proof -
  have tw: "takeWhile is_kind_char (drop 2 (placeholder k n)) = k @ ''_''" if "kind_ok k" for k n
  proof -
    obtain d ds where "format_nat n = d # ds" "is_digit d"
      using format_nat_digits[of n] by (cases "format_nat n") auto
    then have "takeWhile is_kind_char ((k @ ''_'') @ format_nat n @ '']]'') = k @ ''_''"
      using that char_class_facts(5)[of d]
      by (intro takeWhile_all_then) (auto simp: kind_ok_def list_all_append_iff is_kind_char_def)
    then show ?thesis by (simp add: placeholder_def)
  qed
  from tw[OF assms(1)] tw[OF assms(2)] assms(3) have k: "k = k'" by (metis append1_eq_conv)
  with assms(3) have "format_nat n = format_nat n'" by (simp add: placeholder_def)
  with k show ?thesis by (metis parse_format_nat option.inject)
qed

lemma pieces_hole: "placeholder_len s = Some n \<Longrightarrow> pieces s = Hole (take n s) # pieces (drop n s)"
  by (cases s) (auto simp: placeholder_len_def)

lemma pieces_free: "placeholder_free s \<Longrightarrow> pieces s = map Text s"
proof (induction s rule: pieces.induct)
  case (2 c s)
  have "placeholder_len (c # s) = None" using 2(3) by (metis placeholder_free_def drop_0)
  moreover have "placeholder_free s" using 2(3) unfolding placeholder_free_def by (metis drop_Suc_Cons)
  ultimately show ?case using 2(1) by simp
qed simp

lemma no_straddle_open:
  assumes "v = ''[['' @ w"
  shows "no_straddle (u @ v) (length u)"
  unfolding no_straddle_def
proof (intro allI impI, rule ccontr)
  fix a n
  assume a: "a < length u" and p: "placeholder_len (drop a (u @ v)) = Some n" and "\<not> a + n \<le> length u"
  note sh = placeholder_len_chars[OF p]
  have at_v: "(drop a (u @ v)) ! (length u - a + i) = v ! i" for i
  proof -
    have "(drop a (u @ v)) ! (length u - a + i) = (u @ v) ! (length u + i)" using a by (subst nth_drop) auto
    then show ?thesis by (simp add: nth_append)
  qed
  show False
  proof (cases "length u - a + 1 < n")
    case True
    with sh(7)[of "length u - a + 1"] at_v[of 1] a assms show False by simp
  next
    case False
    then have "n - 1 = length u - a + 0" using a \<open>\<not> a + n \<le> length u\<close> sh(2) by simp
    with sh(6) at_v[of 0] assms show False by simp
  qed
qed

lemma replace_all_segment:
  assumes "placeholder_free seg" "kind_ok k"
  shows "replace_all f (seg @ placeholder k n @ rest) = seg @ f (placeholder k n) @ replace_all f rest"
proof -
  obtain w where w: "placeholder k n @ rest = ''[['' @ w" by (simp add: placeholder_def)
  have "pieces (placeholder k n @ rest) = Hole (placeholder k n) # pieces rest"
    using pieces_hole[OF placeholder_len_placeholder[OF assms(2), of n rest]] by simp
  moreover have "pieces (seg @ (placeholder k n @ rest)) = pieces seg @ pieces (placeholder k n @ rest)"
    by (rule pieces_split[OF no_straddle_open[OF w]])
  moreover have "concat (map (piece_text f \<circ> Text) seg) = seg" by (induction seg) auto
  ultimately show ?thesis using assms(1) by (simp add: replace_all_def pieces_free)
qed

definition issued :: "(kind, nat) gomap \<Rightarrow> (string, string) gomap \<Rightarrow> bool" where
  \<comment> \<open>Every placeholder in the table was made from a counter value already passed.\<close>
  "issued counters repl =
     (\<forall>h v. map_of repl h = Some v \<longrightarrow> (\<exists>k n. h = placeholder k n \<and> kind_ok k \<and> n \<le> gomap_get 0 counters k))"

lemma placeholder_free_slice: "placeholder_free s \<Longrightarrow> placeholder_free (take b (drop a s))"
  unfolding placeholder_free_def
proof
  fix i
  assume f: "\<forall>a. placeholder_len (drop a s) = None"
  show "placeholder_len (drop i (take b (drop a s))) = None"
  proof (rule ccontr)
    assume "placeholder_len (drop i (take b (drop a s))) \<noteq> None"
    then obtain n where "placeholder_len (take (b - i) (drop i (drop a s))) = Some n" by (auto simp: drop_take)
    from placeholder_len_append[OF this, of "drop (b - i) (drop i (drop a s))"]
    have "placeholder_len (drop i (drop a s)) = Some n" by (simp only: append_take_drop_id)
    with f show False by simp
  qed
qed

lemma transform_from_restores:
  assumes "placeholder_free text" "disjoint_from from ms" "from \<le> length text"
    "\<forall>m \<in> set ms. span_ok text m \<and> kind_ok (mt_Kind m)" "issued counters repl"
  shows "\<exists>out R. transform_from hmac pepper StrategyTokenize text from counters repl ms = Some (out, R) \<and>
           (\<forall>h v. map_of repl h = Some v \<longrightarrow> map_of R h = Some v) \<and>
           replace_all (original_of R) out = drop from text \<and> (ms \<noteq> [] \<longrightarrow> R \<noteq> [])"
  using assms
proof (induction ms arbitrary: "from" counters repl)
  case Nil
  have "placeholder_free (drop from text)"
    using placeholder_free_slice[OF Nil.prems(1), of "length text - from" "from"] by simp
  moreover have "concat (map (piece_text f \<circ> Text) s) = s" for f s by (induction s) auto
  ultimately show ?case
    using Nil.prems(3) by (simp add: go_slice_def replace_all_def pieces_free)
next
  case (Cons m ms)
  let ?k = "mt_Kind m"
  define n where "n = Suc (gomap_get 0 counters ?k)"
  define ph where "ph = placeholder ?k n"
  define counters' where "counters' = AList.update ?k n counters"
  define repl' where "repl' = AList.update ph (mt_Value m) repl"
  have m: "from \<le> mt_Start m" "mt_Start m \<le> mt_End m" "mt_End m \<le> length text" "kind_ok ?k"
    "mt_Value m = take (mt_End m - mt_Start m) (drop (mt_Start m) text)"
    using Cons.prems(2,4) by (auto simp: span_ok_def)
  define seg where "seg = take (mt_Start m - from) (drop from text)"
  have slice: "go_slice text from (mt_Start m) = Some seg" using m by (simp add: go_slice_def seg_def)
  have new: "map_of repl ph = None"
  proof (rule ccontr)
    assume "map_of repl ph \<noteq> None"
    then obtain k' n' where "ph = placeholder k' n'" "kind_ok k'" "n' \<le> gomap_get 0 counters k'"
      using Cons.prems(5) by (auto simp: issued_def)
    with placeholder_inj[OF m(4)] ph_def have "k' = ?k" "n' = n" by metis+
    with \<open>n' \<le> gomap_get 0 counters k'\<close> n_def show False by simp
  qed
  have iss: "issued counters' repl'"
    unfolding issued_def
  proof (intro allI impI)
    fix h v
    assume "map_of repl' h = Some v"
    then consider "h = ph" | "map_of repl h = Some v" by (auto simp: repl'_def split: if_splits)
    then show "\<exists>k n. h = placeholder k n \<and> kind_ok k \<and> n \<le> gomap_get 0 counters' k"
    proof cases
      case 1
      then show ?thesis using m(4) by (intro exI[of _ ?k] exI[of _ n]) (simp add: ph_def counters'_def)
    next
      case 2
      with Cons.prems(5) obtain k' n' where "h = placeholder k' n'" "kind_ok k'" "n' \<le> gomap_get 0 counters k'"
        by (auto simp: issued_def)
      then show ?thesis by (intro exI[of _ k'] exI[of _ n']) (auto simp: counters'_def n_def)
    qed
  qed
  have "disjoint_from (mt_End m) ms" using Cons.prems(2) by simp
  from Cons.IH[OF Cons.prems(1) this m(3) _ iss] Cons.prems(4) obtain out R
    where IH: "transform_from hmac pepper StrategyTokenize text (mt_End m) counters' repl' ms = Some (out, R)"
      "\<forall>h v. map_of repl' h = Some v \<longrightarrow> map_of R h = Some v"
      "replace_all (original_of R) out = drop (mt_End m) text" by auto
  have "transform_from hmac pepper StrategyTokenize text from counters repl (m # ms) = Some (seg @ ph @ out, R)"
    using IH(1) slice
    by (simp add: transform_one_def Let_def n_def[symmetric] ph_def[symmetric] counters'_def[symmetric] repl'_def[symmetric])
  moreover have orig: "map_of R ph = Some (mt_Value m)" using IH(2) by (simp add: repl'_def)
  moreover have "\<forall>h v. map_of repl h = Some v \<longrightarrow> map_of R h = Some v"
  proof (intro allI impI)
    fix h v
    assume "map_of repl h = Some v"
    with new have "map_of repl' h = Some v" by (auto simp: repl'_def)
    with IH(2) show "map_of R h = Some v" by blast
  qed
  moreover have "replace_all (original_of R) (seg @ ph @ out) = drop from text"
  proof -
    have "placeholder_free seg" unfolding seg_def by (rule placeholder_free_slice[OF Cons.prems(1)])
    from replace_all_segment[OF this m(4), of "original_of R" n out] orig IH(3)
    have "replace_all (original_of R) (seg @ ph @ out) = seg @ mt_Value m @ drop (mt_End m) text"
      by (simp add: ph_def[symmetric] original_of_def)
    also have "mt_Value m @ drop (mt_End m) text = drop (mt_Start m) text"
      using m(2,5) by (metis append_take_drop_id drop_drop le_add_diff_inverse add.commute)
    also have "seg @ drop (mt_Start m) text = drop from text"
      using m(1) unfolding seg_def by (metis append_take_drop_id drop_drop le_add_diff_inverse add.commute)
    finally show ?thesis .
  qed
  moreover have "R \<noteq> []" using orig by auto
  ultimately show ?case by blast
qed

lemma TransformMatches_restores:
  assumes "placeholder_free payload" "disjoint_from 0 ms" "\<forall>m \<in> set ms. span_ok payload m \<and> kind_ok (mt_Kind m)"
  shows "\<exists>r. TransformMatches hmac payload ms StrategyTokenize pepper = Some r \<and>
           Restore (res_Payload r) (res_Replacements r) = payload \<and> res_Count r = length ms"
proof (cases "ms = []")
  case True
  then show ?thesis by (simp add: TransformMatches_def Restore_def)
next
  case False
  have "issued [] []" by (simp add: issued_def)
  from transform_from_restores[OF assms(1,2) _ assms(3) this, of hmac pepper] False obtain out R
    where "transform_from hmac pepper StrategyTokenize payload 0 [] [] ms = Some (out, R)"
      "replace_all (original_of R) out = payload" "R \<noteq> []" by auto
  with False show ?thesis by (simp add: TransformMatches_def Restore_def)
qed

lemma detectors_kinds: "d \<in> set detectors \<Longrightarrow> kind_ok (det_kind d)"
  by (auto simp: detectors_def kind_ok_def is_kind_char_def is_upper_def)

lemma Detect_kind_ok: "m \<in> set (Detect s) \<Longrightarrow> kind_ok (mt_Kind m)"
proof -
  assume m: "m \<in> set (Detect s)"
  let ?ms = "concat (map (detect_one s) detectors)"
  have "\<forall>m \<in> set ?ms. mt_Start m \<le> mt_End m" using detect_one_span_ok by (fastforce simp: span_ok_def)
  from withoutOverlaps_disjoint(2)[OF this] m have "m \<in> set ?ms" by (auto simp only: Detect_def)
  then obtain d where "d \<in> set detectors" "m \<in> set (detect_one s d)" by auto
  with detect_one_span_ok detectors_kinds show ?thesis by metis
qed

text \<open>No strategy but tokenize keeps an original.\<close>

lemma transform_from_total:
  assumes "disjoint_from from ms" "from \<le> length text" "\<forall>m \<in> set ms. span_ok text m"
  shows "\<exists>out R. transform_from hmac pepper strat text from counters repl ms = Some (out, R) \<and>
           (strat \<noteq> StrategyTokenize \<longrightarrow> R = repl)"
  using assms
proof (induction ms arbitrary: "from" counters repl)
  case (Cons m ms)
  obtain pc c' r' where one: "transform_one hmac pepper strat m counters repl = (pc, c', r')" by (metis prod_cases3)
  have keep: "strat \<noteq> StrategyTokenize \<longrightarrow> r' = repl"
    using one by (auto simp: transform_one_def Let_def split: strategy.splits)
  have "disjoint_from (mt_End m) ms" "mt_End m \<le> length text" "\<forall>m \<in> set ms. span_ok text m"
    using Cons.prems by (auto simp: span_ok_def)
  from Cons.IH[OF this, of c' r'] keep one Cons.prems(1,3) show ?case
    by (auto simp: go_slice_def span_ok_def)
qed (simp add: go_slice_def)

section \<open>The vault\<close>

lemma vaultKey_inj: "vaultKey t r p = vaultKey t r q \<longleftrightarrow> p = q"
  by (simp add: vaultKey_def)

context kv_store
begin

lemma vault_Put_frame:
  assumes "vault_Put ops ttl now t req s repl = (None, s')" "\<forall>p \<in> set (map fst repl). k \<noteq> vaultKey t req p"
    and ok: "ttl_ok ttl"
  shows "content s' k = content s k"
  using assms(1,2)
proof (induction repl arbitrary: s)
  case (Cons x repl)
  obtain p v where x: "x = (p, v)" by fastforce
  from Cons.prems(1) x obtain s1 where s1: "kv_Set ops s now (vaultKey t req p) v ttl = (None, s1)"
    "vault_Put ops ttl now t req s1 repl = (None, s')"
    by (auto simp: err_Wrap_def split: prod.splits option.splits)
  have "content s' k = content s1 k" using Cons.IH[OF s1(2)] Cons.prems(2) by simp
  also have "\<dots> = content s k" using set_frame[OF s1(1) ok] Cons.prems(2) x by simp
  finally show ?case .
qed simp

lemma vault_Put_content:
  assumes "vault_Put ops ttl now t req s repl = (None, s')" "gomap_wf repl" "map_of repl p = Some v"
    and ok: "ttl_ok ttl"
  shows "\<exists>e. expires_in now ttl e \<and> content s' (vaultKey t req p) = Some (v, e)"
  using assms(1-3)
proof (induction repl arbitrary: s)
  case (Cons x repl)
  obtain q w where x: "x = (q, w)" by fastforce
  from Cons.prems(1) x obtain s1 where s1: "kv_Set ops s now (vaultKey t req q) w ttl = (None, s1)"
    "vault_Put ops ttl now t req s1 repl = (None, s')"
    by (auto simp: err_Wrap_def split: prod.splits option.splits)
  show ?case
  proof (cases "q = p")
    case True
    with Cons.prems x have "v = w" "p \<notin> set (map fst repl)" by auto
    with vault_Put_frame[OF s1(2) _ ok, of "vaultKey t req p"] set_law[OF s1(1) ok] True
    show ?thesis by (fastforce simp: vaultKey_inj)
  next
    case False
    with Cons.IH[OF s1(2)] Cons.prems x show ?thesis by simp
  qed
qed simp

lemma vault_round_trip:
  assumes "vault_Put ops ttl now t req s repl = (None, s')" "gomap_wf repl" "map_of repl p = Some v"
    "now' \<le> now + ttl" "ttl_ok ttl" "kv_Get ops s' now' (vaultKey t req p) = Inr r"
  shows "vault_Get ops now' t req s' p = Some v"
  using vault_Put_content[OF assms(1-3,5)] get_law[OF assms(6)] assms(4,6)
  by (auto simp: vault_Get_def live_def expires_in_def)

end

section \<open>Properties\<close>

lemma bounded_if_short: "length s \<le> MaxPlaceholderLen \<Longrightarrow> bounded_placeholders s"
  using placeholder_len_chars(1) unfolding bounded_placeholders_def by (metis diff_le_self le_trans length_drop)

lemma push_all_Restore:
  assumes "bounded_placeholders (concat cs)"
  shows "fst (push_all (NewRestorer repl) cs) = Restore (concat cs) repl"
proof (cases "repl = []")
  case True
  have "fst (push_all r cs) = concat cs" if "\<not> Active r" for r
    using that by (induction cs) (auto simp: Push_def Flush_def split: prod.splits)
  then show ?thesis by (simp add: True NewRestorer_def Active_def Restore_def)
next
  case False
  obtain out r' where p: "push_all (NewRestorer repl) cs = (out, r')" by fastforce
  from False assms push_all_correct[OF _ _ p] p show ?thesis
    by (simp add: NewRestorer_def Active_def Restore_def)
qed

text \<open>Claim C2. Restoring a response as it streams gives the caller the same text as restoring it
  whole, however the upstream cuts it into chunks: what the pushes and the final flush emit is
  \<open>Restore\<close> of the concatenated chunks, provided no placeholder-shaped run of the response is longer
  than the window \<open>MaxPlaceholderLen\<close> the restorer holds back.\<close>

theorem stream_restore_equals_whole:
  assumes "bounded_placeholders (concat cs)"
  shows "fst (push_all (NewRestorer repl) cs) = Restore (concat cs) repl"
  using assms by (rule push_all_Restore)

theorem stream_restore_witness:
  "fst (push_all (NewRestorer [(''[[EMAIL_1]]'', ''a@b.io'')]) [''to [[EM'', ''AIL_1'', '']] ok'']) =
   Restore ''to [[EMAIL_1]] ok'' [(''[[EMAIL_1]]'', ''a@b.io'')]"
  using stream_restore_equals_whole[of "[''to [[EM'', ''AIL_1'', '']] ok'']" "[(''[[EMAIL_1]]'', ''a@b.io'')]"]
    bounded_if_short[of "''to [[EMAIL_1]] ok''"]
  by (simp add: MaxPlaceholderLen_def)

text \<open>Claim C3. Tokenising is reversible: for a payload that contains no placeholder of its own,
  replacing everything \<open>Detect\<close> finds by tokens never panics, and \<open>Restore\<close> with the replacement
  table it returned gives back exactly the payload.\<close>

theorem tokenize_restore_round_trip:
  assumes "placeholder_free payload"
  shows "\<exists>r. Transform hmac payload StrategyTokenize pepper = Some r \<and>
           Restore (res_Payload r) (res_Replacements r) = payload \<and> res_Count r = length (Detect payload)"
  unfolding Transform_def
  using TransformMatches_restores[OF assms, of "Detect payload"] Detect_ok Detect_kind_ok by blast

lemma placeholder_free_no_bracket: "CHR ''['' \<notin> set s \<Longrightarrow> placeholder_free s"
  unfolding placeholder_free_def
proof
  fix a
  assume "CHR ''['' \<notin> set s"
  then have "CHR ''['' \<notin> set (drop a s)" by (meson in_set_dropD)
  then have "\<not> HasPrefix (drop a s) placeholderOpen" by (auto simp: HasPrefix_iff)
  then show "placeholder_len (drop a s) = None" by (simp add: placeholder_len_def)
qed

theorem tokenize_restore_witness:
  "(\<exists>r. Transform (\<lambda>k m. m) ''to ana@ex.io'' StrategyTokenize ''p'' = Some r \<and>
          Restore (res_Payload r) (res_Replacements r) = ''to ana@ex.io'' \<and>
          res_Count r = length (Detect ''to ana@ex.io'')) \<and>
   map mt_Value (Detect ''to ana@ex.io'') = [''ana@ex.io'']"
proof
  show "\<exists>r. Transform (\<lambda>k m. m) ''to ana@ex.io'' StrategyTokenize ''p'' = Some r \<and>
          Restore (res_Payload r) (res_Replacements r) = ''to ana@ex.io'' \<and>
          res_Count r = length (Detect ''to ana@ex.io'')"
    by (rule tokenize_restore_round_trip) (simp add: placeholder_free_no_bracket)
  show "map mt_Value (Detect ''to ana@ex.io'') = [''ana@ex.io'']" by code_simp
qed


end
