(* ===== verification/Shadow.thy ===== *)
theory Shadow
  imports Core_Snapshot
begin

text \<open>
  \<open>dataplane/internal/shadow/shadow.go\<close>: the mirror that copies served requests to shadowing
  adapters. The channel of jobs is a bounded queue; a worker's turn takes its first job and runs it
  (\<open>mirror_work\<close>), and turns interleave with \<open>Send\<close> in any order. The random draws, one per
  adapter considered, are an argument. The call a job makes is the pipeline's \<open>ShadowCall\<close>.
\<close>

definition mirror_DefaultQueue :: nat where
  "mirror_DefaultQueue = 64"

record shadow_request =
  sr_Meta :: request_meta
  sr_Body :: string
  sr_Tenant :: string
  sr_Principal :: string
  sr_Tier :: string
  sr_SnapshotVersion :: nat
  sr_BudgetIDs :: "string list"

record shadow_job =
  sj_deployment :: deployment
  sj_request :: shadow_request

record mirror =
  mi_queueSize :: nat
  mi_queue :: "shadow_job list"
  mi_mirrored :: int
  mi_dropped :: int
  mi_failed :: int

definition mirror_New :: "bool \<Rightarrow> int \<Rightarrow> go_error + mirror" where
  \<comment> \<open>Whether a call was supplied, and the queue depth of \<open>WithCapacity\<close> (0 when the option is absent).\<close>
  "mirror_New call queue =
     (if \<not> call then Inl (err_New CodeInternal ''a mirror needs something to call'')
      else Inr \<lparr>mi_queueSize = (if queue > 0 then nat queue else mirror_DefaultQueue),
                mi_queue = [], mi_mirrored = 0, mi_dropped = 0, mi_failed = 0\<rparr>)"

definition enqueue :: "mirror \<Rightarrow> deployment \<Rightarrow> shadow_request \<Rightarrow> mirror" where
  "enqueue m d req =
     (if length (mi_queue m) < mi_queueSize m
      then m\<lparr>mi_queue := mi_queue m @ [\<lparr>sj_deployment = d, sj_request = req\<rparr>]\<rparr>
      else m\<lparr>mi_dropped := mi_dropped m + 1\<rparr>)"

fun send_each :: "mirror \<Rightarrow> (nat \<Rightarrow> real) \<Rightarrow> nat \<Rightarrow> shadow_request \<Rightarrow> deployment list \<Rightarrow> mirror" where
  "send_each m draw n req [] = m"
| "send_each m draw n req (d # ds) =
     (if draw n * 100 \<ge> real (dep_ShadowPercent d) then send_each m draw (Suc n) req ds
      else send_each (enqueue m d req) draw (Suc n) req ds)"

definition Send :: "mirror \<Rightarrow> (nat \<Rightarrow> real) \<Rightarrow> snapshot option \<Rightarrow> deployment \<Rightarrow> shadow_request option \<Rightarrow> mirror" where
  "Send m draw snap served req =
     (case (snap, req) of
        (Some s, Some r) \<Rightarrow>
          if IsAdapter (dep_Key served) then m
          else send_each m draw 0 r (snap_Shadows s (BaseModel (dep_Key served)))
      | _ \<Rightarrow> m)"

definition mirror_run :: "mirror \<Rightarrow> go_error option \<Rightarrow> mirror" where
  \<comment> \<open>\<open>run\<close>, with what the call returned.\<close>
  "mirror_run m err =
     (case err of Some _ \<Rightarrow> m\<lparr>mi_failed := mi_failed m + 1\<rparr> | None \<Rightarrow> m\<lparr>mi_mirrored := mi_mirrored m + 1\<rparr>)"

definition mirror_work :: "mirror \<Rightarrow> (deployment \<Rightarrow> shadow_request \<Rightarrow> go_error option) \<Rightarrow> mirror" where
  "mirror_work m call =
     (case mi_queue m of
        [] \<Rightarrow> m
      | j # js \<Rightarrow> mirror_run (m\<lparr>mi_queue := js\<rparr>) (call (sj_deployment j) (sj_request j)))"

definition mirror_Stats :: "mirror \<Rightarrow> int \<times> int \<times> int" where
  "mirror_Stats m = (mi_mirrored m, mi_dropped m, mi_failed m)"

section \<open>Lemmas\<close>

definition mirror_wf :: "mirror \<Rightarrow> bool" where
  "mirror_wf m = (length (mi_queue m) \<le> mi_queueSize m)"

definition handled :: "mirror \<Rightarrow> int" where
  \<comment> \<open>The copies a mirror has accepted or dropped so far.\<close>
  "handled m = int (length (mi_queue m)) + mi_mirrored m + mi_dropped m + mi_failed m"

fun sampled :: "(nat \<Rightarrow> real) \<Rightarrow> nat \<Rightarrow> deployment list \<Rightarrow> deployment list" where
  \<comment> \<open>The adapters whose draw falls within their share.\<close>
  "sampled draw n [] = []"
| "sampled draw n (d # ds) =
     (if draw n * 100 < real (dep_ShadowPercent d) then d # sampled draw (Suc n) ds else sampled draw (Suc n) ds)"

lemma enqueue_facts:
  "mirror_wf m \<Longrightarrow> mirror_wf (enqueue m d req)"
  "handled (enqueue m d req) = handled m + 1"
  "mi_queueSize (enqueue m d req) = mi_queueSize m"
  by (simp_all add: enqueue_def mirror_wf_def handled_def)

lemma enqueue_all:
  "mi_queue (foldl (\<lambda>m d. enqueue m d req) m ds) =
     mi_queue m @ map (\<lambda>d. \<lparr>sj_deployment = d, sj_request = req\<rparr>) (take (mi_queueSize m - length (mi_queue m)) ds) \<and>
   mi_dropped (foldl (\<lambda>m d. enqueue m d req) m ds) =
     mi_dropped m + int (length ds - (mi_queueSize m - length (mi_queue m)))"
proof (induction ds arbitrary: m)
  case (Cons d ds)
  show ?case
  proof (cases "length (mi_queue m) < mi_queueSize m")
    case True
    then obtain k where k: "mi_queueSize m - length (mi_queue m) = Suc k" by (metis Suc_diff_Suc)
    then have "mi_queueSize m - Suc (length (mi_queue m)) = k" by simp
    with Cons.IH[of "enqueue m d req"] True k show ?thesis by (simp add: enqueue_def)
  next
    case False
    with Cons.IH[of "enqueue m d req"] show ?thesis by (simp add: enqueue_def)
  qed
qed simp

lemma send_each_sampled: "send_each m draw n req ds = foldl (\<lambda>m d. enqueue m d req) m (sampled draw n ds)"
  by (induction ds arbitrary: m n) (auto simp: not_le)

lemma send_each_facts:
  "mirror_wf m \<Longrightarrow> mirror_wf (send_each m draw n req ds)"
  "handled (send_each m draw n req ds) = handled m + int (length (sampled draw n ds))"
  by (induction ds arbitrary: m n) (auto simp: enqueue_facts)

lemma mirror_work_facts:
  "mirror_wf m \<Longrightarrow> mirror_wf (mirror_work m call)"
  "handled (mirror_work m call) = handled m"
  by (auto simp: mirror_work_def mirror_run_def mirror_wf_def handled_def split: list.split option.split)

section \<open>Properties\<close>

text \<open>Mirroring never blocks and never loses count: for a request served by a base model,
  \<open>Send\<close> queues a copy for the sampled shadowing adapters in order until the queue is full and counts
  every further one as dropped; a request served by an adapter is never mirrored, and the work of the
  mirror's workers never changes the number of copies accounted for.\<close>

lemma Send_accounts_for_every_copy:
  "(let targets = (if IsAdapter (dep_Key served) then [] else sampled draw 0 (snap_Shadows s (BaseModel (dep_Key served))));
        room = mi_queueSize m - length (mi_queue m);
        m' = Send m draw (Some s) served (Some req)
    in mi_queue m' = mi_queue m @ map (\<lambda>d. \<lparr>sj_deployment = d, sj_request = req\<rparr>) (take room targets) \<and>
       mi_dropped m' = mi_dropped m + int (length targets - room) \<and>
       handled m' = handled m + int (length targets)) \<and>
   handled (mirror_work m call) = handled m"
  using enqueue_all[where m = m and req = req] send_each_facts(2)
  by (simp add: Send_def Let_def send_each_sampled mirror_work_facts)

end
