(* ===== verification/Core_Events.thy ===== *)
theory Core_Events
  imports Core_Identity
begin

text \<open>
  The telemetry events of \<open>dataplane/internal/core/events.go\<close>: the usage event emitted once per
  request, the audit event emitted once per decision, and what they have in common.
\<close>

record stage_timing =
  st_Name :: string
  st_Duration :: duration
  st_Outcome :: code

record usage_event =
  ue_RequestID :: string
  ue_Timestamp :: gotime
  ue_Tenant :: string
  ue_KeyID :: string
  ue_Tier :: string
  ue_Deployment :: string
  ue_Route :: routing_key
  ue_Provider :: string
  ue_Stream :: bool
  ue_Shadow :: bool
  ue_Stages :: "stage_timing list"
  ue_InputTokens :: int
  ue_OutputTokens :: int
  ue_CachedInputTokens :: int
  ue_CacheWriteTokens :: int
  ue_CostMicroUSD :: micro_usd
  ue_PriceMicroUSD :: micro_usd
  ue_LatencyMs :: int
  ue_TimeToFirstByte :: duration
  ue_Outcome :: code
  ue_SnapshotVersion :: nat
  ue_Budgets :: "string list"

record audit_event =
  au_EventID :: string
  au_RequestID :: string
  au_Timestamp :: gotime
  au_Tenant :: string
  au_Actor :: string
  au_Action :: string
  au_Resource :: string
  au_Outcome :: code
  au_Reason :: message
  au_SourceIP :: "addr option"
  au_SnapshotVersion :: nat

datatype event = UsageEvent usage_event | AuditEvent audit_event

fun event_Kind :: "event \<Rightarrow> string" where
  "event_Kind (UsageEvent _) = ''usage''"
| "event_Kind (AuditEvent _) = ''audit''"

fun OccurredAt :: "event \<Rightarrow> gotime" where
  "OccurredAt (UsageEvent e) = ue_Timestamp e"
| "OccurredAt (AuditEvent e) = au_Timestamp e"

end
