(* ===== verification/Pipeline.thy ===== *)
theory Pipeline
  imports Router Rate_Limits Policy Guardrails PII_Transform Shadow Core_Events
begin

text \<open>
  \<open>dataplane/internal/gateway\<close>: the request path (\<open>pipeline.go\<close>), the audit tap (\<open>audit.go\<close>) and
  the static registries (\<open>registry.go\<close>). A \<open>pipeline\<close> holds what a \<open>Pipeline\<close> is built from: ports
  and constants. A \<open>worker\<close> holds what its calls change: the shared store, the limiter, the router,
  the guardrail chain, the policy cache, the mirror and, as traces, the events emitted and the calls
  made to providers. Readings of the clock are numbered by \<open>w_ticks\<close>. A nil limiter, chain, vault,
  detector or mirror is None, which stands for the defaults of \<open>New\<close>.
\<close>

section \<open>State\<close>

record request =
  rq_Meta :: request_meta
  rq_APIKey :: string
  rq_Body :: string
  rq_deepInspection :: bool

record handle_result =
  hr_StatusCode :: int
  hr_Body :: string
  hr_Principal :: principal
  hr_Deployment :: string
  hr_Route :: routing_key
  hr_Usage :: token_usage
  hr_Latency :: duration
  hr_Stages :: "stage_timing list"
  hr_TimeToFirstByte :: duration

record 's pipeline =
  pl_kv :: "'s kv_ops"
  pl_providers :: provider_endpoints
  pl_invoke :: "nat \<Rightarrow> duration \<Rightarrow> provider_call \<Rightarrow> go_error + provider_response"
  pl_stream :: "nat \<Rightarrow> duration \<Rightarrow> provider_call \<Rightarrow> go_error + chunk list"
  pl_credentials :: "string \<Rightarrow> go_error + credential"
  pl_registry :: guardrail_registry
  pl_vault :: "duration option"
  pl_ner :: "(string \<Rightarrow> go_error + pii_match list) option"
  pl_region :: string
  pl_pepper :: string
  pl_hmac :: hmac_fun
  pl_decode :: "string \<Rightarrow> go_error + policy_bundle"
  pl_clock :: "nat \<Rightarrow> gotime"
  pl_stageTime :: "string \<Rightarrow> duration"
  pl_attempt :: "nat \<Rightarrow> (unit, unit) attempt_env"
  pl_ctxDeadline :: "gotime option"
  pl_draw :: real
  pl_shadowDraw :: "nat \<Rightarrow> real"

record 's worker =
  w_store :: 's
  w_limiter :: "limiter option"
  w_router :: router
  w_chain :: "chain option"
  w_policies :: policy_cache
  w_mirror :: "mirror option"
  w_events :: "event list"
  w_sent :: "provider_call list"
  w_ticks :: nat

definition tick :: "'s pipeline \<Rightarrow> 's worker \<Rightarrow> gotime \<times> 's worker" where
  "tick pl w = (pl_clock pl (w_ticks w), w\<lparr>w_ticks := Suc (w_ticks w)\<rparr>)"

definition emit_event :: "event \<Rightarrow> 's worker \<Rightarrow> 's worker" where
  "emit_event e w = w\<lparr>w_events := w_events w @ [e]\<rparr>"

section \<open>Zero values\<close>

definition zero_key :: routing_key where
  "zero_key = \<lparr>BaseModel = '''', AdapterID = ''''\<rparr>"

definition zero_cost :: cost where
  "zero_cost = \<lparr>InputPer1K = 0, OutputPer1K = 0, CachedInputPer1K = 0, CacheWritePer1K = 0\<rparr>"

definition zero_deployment :: deployment where
  "zero_deployment =
     \<lparr>dep_ID = '''', dep_Key = zero_key, dep_Provider = '''', dep_Endpoint = '''', dep_Region = '''',
      dep_TrustTier = TrustUnset, dep_CredentialRef = '''', dep_Weight = 0, dep_ShadowPercent = 0,
      dep_Cost = zero_cost, dep_Capabilities = []\<rparr>"

definition zero_principal :: principal where
  "zero_principal =
     \<lparr>p_KeyID = '''', p_Tenant = '''', p_Org = '''', p_Team = '''', p_User = '''', p_App = '''', p_Roles = [],
      p_Models = \<lparr>AllowAll = False, allow_Names = []\<rparr>, p_Budgets = [], p_DefaultClass = '''',
      p_MinTrustTier = TrustUnset, p_Limits = \<lparr>RequestsPerMinute = 0, TokensPerMinute = 0, MaxConcurrent = 0\<rparr>,
      p_Deprecated = False, p_NotAfter = 0\<rparr>"

definition zero_result :: handle_result where
  "zero_result =
     \<lparr>hr_StatusCode = 0, hr_Body = '''', hr_Principal = zero_principal, hr_Deployment = '''', hr_Route = zero_key,
      hr_Usage = no_usage, hr_Latency = 0, hr_Stages = [], hr_TimeToFirstByte = 0\<rparr>"

section \<open>Registries\<close>

text \<open>A provider is what the pipeline sees of it: its name and the endpoints it serves.\<close>

definition index_provider ::
  "(string, endpoint list) gomap \<Rightarrow> string \<times> endpoint list \<Rightarrow> go_error + (string, endpoint list) gomap" where
  "index_provider byName p =
     (if fst p = '''' then Inl (err_New CodeInternal ''a provider reported an empty name'')
      else if map_of byName (fst p) \<noteq> None
      then Inl (err_Newf CodeInternal ''two providers named %q'' [AStr (fst p)])
      else Inr (AList.update (fst p) (snd p) byName))"

definition NewStaticProviders :: "(string \<times> endpoint list) list \<Rightarrow> go_error + (string, endpoint list) gomap" where
  "NewStaticProviders ps = loop_err index_provider [] ps"

definition static_Provider :: "(string, endpoint list) gomap \<Rightarrow> provider_endpoints" where
  "static_Provider byName name = map_of byName name"

definition NoCredentials_Resolve :: "string \<Rightarrow> go_error + credential" where
  "NoCredentials_Resolve ref =
     (if ref \<noteq> '''' then Inl (err_Newf CodeUnavailable
        ''deployment needs credential %q but no secret store is configured'' [AStr ref])
      else Inr \<lparr>cred_Ref = '''', cred_Secret = ''''\<rparr>)"

section \<open>Telemetry\<close>

definition budgetIDs :: "budget_ref list \<Rightarrow> string list" where
  "budgetIDs refs = map ref_ID refs"

definition usage_event_of ::
  "snapshot \<Rightarrow> request \<Rightarrow> handle_result \<Rightarrow> deployment \<Rightarrow> bool \<Rightarrow> go_error option \<Rightarrow> gotime \<Rightarrow> usage_event" where
  "usage_event_of snap req res d stream err now =
     (let c = cost_For (dep_Cost d) (hr_Usage res); p = hr_Principal res; u = hr_Usage res in
      \<lparr>ue_RequestID = RequestID (rq_Meta req), ue_Timestamp = now, ue_Tenant = p_Tenant p, ue_KeyID = p_KeyID p,
       ue_Tier = snap_Tier snap (p_Tenant p), ue_Deployment = hr_Deployment res, ue_Route = hr_Route res,
       ue_Provider = dep_Provider d, ue_Stream = stream, ue_Shadow = False, ue_Stages = hr_Stages res,
       ue_InputTokens = tu_Input u, ue_OutputTokens = tu_Output u, ue_CachedInputTokens = tu_CachedInput u,
       ue_CacheWriteTokens = tu_CacheWrite u, ue_CostMicroUSD = c, ue_PriceMicroUSD = c,
       ue_LatencyMs = Milliseconds (hr_Latency res), ue_TimeToFirstByte = hr_TimeToFirstByte res,
       ue_Outcome = CodeOf err, ue_SnapshotVersion = v_Number (GlobalVersion snap),
       ue_Budgets = budgetIDs (p_Budgets p)\<rparr>)"

definition emitUsage ::
  "'s pipeline \<Rightarrow> snapshot \<Rightarrow> request \<Rightarrow> handle_result \<Rightarrow> deployment \<Rightarrow> bool \<Rightarrow> go_error option \<Rightarrow> 's worker \<Rightarrow> 's worker" where
  "emitUsage pl snap req res d stream err w =
     (case tick pl w of (now, w1) \<Rightarrow> emit_event (UsageEvent (usage_event_of snap req res d stream err now)) w1)"
definition auditable :: "request \<Rightarrow> principal \<Rightarrow> nat \<Rightarrow> go_error option \<Rightarrow> string \<times> message" where
  "auditable req p redactions err =
     (if err \<noteq> None then (m_Endpoint (rq_Meta req), no_message)
      else if redactions > 0 then (''pii.redact'', Msg ''redacted %d values before sending'' [AInt (int redactions)])
      else if p_DefaultClass p \<noteq> '''' \<and> p_DefaultClass p \<noteq> DataClassPublic
      then (m_Endpoint (rq_Meta req), Msg (''data classified '' @ p_DefaultClass p) [])
      else ('''', no_message))"

definition sourceIP :: "addr \<Rightarrow> addr option" where
  "sourceIP a = (if addr_IsValid a then Some a else None)"

definition audit_event_of ::
  "snapshot \<Rightarrow> request \<Rightarrow> handle_result \<Rightarrow> string \<Rightarrow> message \<Rightarrow> go_error option \<Rightarrow> gotime \<Rightarrow> audit_event" where
  "audit_event_of snap req res action reason err now =
     \<lparr>au_EventID = RequestID (rq_Meta req) @ '':'' @ action, au_RequestID = RequestID (rq_Meta req),
      au_Timestamp = now, au_Tenant = p_Tenant (hr_Principal res), au_Actor = p_KeyID (hr_Principal res),
      au_Action = action,
      au_Resource = (if hr_Deployment res \<noteq> '''' then hr_Deployment res else m_Model (rq_Meta req)),
      au_Outcome = CodeOf err, au_Reason = reason, au_SourceIP = sourceIP (m_SourceIP (rq_Meta req)),
      au_SnapshotVersion = v_Number (GlobalVersion snap)\<rparr>"

definition emitAudit ::
  "'s pipeline \<Rightarrow> snapshot \<Rightarrow> request \<Rightarrow> handle_result \<Rightarrow> nat \<Rightarrow> go_error option \<Rightarrow> 's worker \<Rightarrow> 's worker" where
  "emitAudit pl snap req res redactions err w =
     (case auditable req (hr_Principal res) redactions err of (action, reason) \<Rightarrow>
       if action = '''' then w
       else (case tick pl w of (now, w1) \<Rightarrow>
         emit_event (AuditEvent (audit_event_of snap req res action reason err now)) w1))"
section \<open>Stages\<close>

definition stage :: "'s pipeline \<Rightarrow> string \<Rightarrow> go_error option \<Rightarrow> stage_timing" where
  "stage pl name err = \<lparr>st_Name = name, st_Duration = pl_stageTime pl name, st_Outcome = CodeOf err\<rparr>"

definition authenticate :: "'s pipeline \<Rightarrow> snapshot \<Rightarrow> request \<Rightarrow> gotime \<Rightarrow> go_error + principal" where
  "authenticate pl snap req now =
     (case ParseAPIKey (rq_APIKey req) of
        Inl e \<Rightarrow> Inl e
      | Inr (pre, secret) \<Rightarrow>
          (case TenantForPrefix snap pre of
             None \<Rightarrow> Inl (err_New CodeUnauthenticated ''unknown api key'')
           | Some tenant \<Rightarrow>
               (case snap_Principal snap tenant (ComputeKeyLookup (pl_hmac pl) (pl_pepper pl) secret) of
                  None \<Rightarrow> Inl (err_New CodeUnauthenticated ''unknown api key'')
                | Some p \<Rightarrow> (case Validate p now of Some e \<Rightarrow> Inl e | None \<Rightarrow> Inr p))))"

definition payloadBytes :: "int \<Rightarrow> nat" where
  "payloadBytes n = (if n < 0 then 0 else nat n)"

definition policy_input_of :: "'s pipeline \<Rightarrow> principal \<Rightarrow> request \<Rightarrow> policy_input" where
  "policy_input_of pl p req =
     \<lparr>in_Model = m_Model (rq_Meta req), in_Endpoint = m_Endpoint (rq_Meta req), in_Roles = p_Roles p,
      in_Region = pl_region pl, in_Source = m_SourceIP (rq_Meta req),
      in_Payload = payloadBytes (m_PayloadBytes (rq_Meta req))\<rparr>"

definition stamp :: "policy_decision \<Rightarrow> principal \<Rightarrow> principal" where
  "stamp dec p =
     (let p1 = (if pd_DataClass dec \<noteq> '''' then p\<lparr>p_DefaultClass := pd_DataClass dec\<rparr> else p)
      in if pd_MinTrustTier dec > p_MinTrustTier p1 then p1\<lparr>p_MinTrustTier := pd_MinTrustTier dec\<rparr> else p1)"

definition applyPolicy ::
  "'s pipeline \<Rightarrow> snapshot \<Rightarrow> principal \<Rightarrow> request \<Rightarrow> policy_cache \<Rightarrow> (go_error + principal \<times> request) \<times> policy_cache" where
  "applyPolicy pl snap p req cache =
     (let raw = snap_Policy snap (p_Tenant p) in
      if raw = '''' then (Inr (p, req), cache)
      else (case cache_For (pl_decode pl) cache (p_Tenant p) (v_Digest (GlobalVersion snap)) raw of
          (Inl e, cache') \<Rightarrow> (Inl (GwError CodeForbidden (Msg ''policy could not be evaluated'' []) False (Some e)), cache')
        | (Inr b, cache') \<Rightarrow>
            (let dec = Evaluate b (policy_input_of pl p req) in
             if \<not> pd_Allowed dec
             then (Inl (err_Newf CodeForbidden ''%s (rule %s)''
                     [AStr (if pd_Reason dec = '''' then ''refused by policy'' else pd_Reason dec), AStr (pd_RuleID dec)]), cache')
             else (Inr (stamp dec p, req\<lparr>rq_deepInspection := pd_DeepInspection dec\<rparr>), cache'))))"

definition duration_Round :: "duration \<Rightarrow> duration \<Rightarrow> duration" where
  \<comment> \<open>\<open>Duration.Round\<close>: to the nearest multiple, halves away from zero (the saturation at the ends of int64 aside).\<close>
  "duration_Round d m =
     (if m \<le> 0 then d
      else (let r = \<bar>d\<bar> mod m; q = (if 2 * r < m then \<bar>d\<bar> - r else \<bar>d\<bar> + m - r) in sgn d * q))"

definition limiter_Admit :: "'s pipeline \<Rightarrow> principal \<Rightarrow> 's worker \<Rightarrow> limit_decision \<times> 's worker" where
  "limiter_Admit pl p w =
     (case w_limiter w of
        None \<Rightarrow> (allowed, w)
      | Some l \<Rightarrow> (case tick pl w of (now, w1) \<Rightarrow>
          (case Admit (pl_kv pl) l (w_store w1) now p of
             (dec, l', s') \<Rightarrow> (dec, w1\<lparr>w_limiter := Some l', w_store := s'\<rparr>))))"

definition release_limit :: "principal \<Rightarrow> 's worker \<Rightarrow> 's worker" where
  "release_limit p w = w\<lparr>w_limiter := map_option (\<lambda>l. limiter_Release l p) (w_limiter w)\<rparr>"

definition record_tokens :: "'s pipeline \<Rightarrow> principal \<Rightarrow> int \<Rightarrow> 's worker \<Rightarrow> 's worker" where
  "record_tokens pl p tokens w =
     (case w_limiter w of
        None \<Rightarrow> w
      | Some _ \<Rightarrow> (case tick pl w of (now, w1) \<Rightarrow> w1\<lparr>w_store := RecordTokens (pl_kv pl) (w_store w1) now p tokens\<rparr>))"

definition admit ::
  "'s pipeline \<Rightarrow> snapshot \<Rightarrow> principal \<Rightarrow> request \<Rightarrow> 's worker \<Rightarrow> (go_error + principal \<times> request) \<times> 's worker" where
  "admit pl snap p req w =
     (if \<not> Permits (p_Models p) (m_Model (rq_Meta req))
      then (Inl (err_Newf CodeForbidden ''this key may not call %q'' [AStr (m_Model (rq_Meta req))]), w)
      else (case applyPolicy pl snap p req (w_policies w) of (pol, cache) \<Rightarrow>
        (let w1 = w\<lparr>w_policies := cache\<rparr> in
         case pol of
           Inl e \<Rightarrow> (Inl e, w1)
         | Inr (p', req') \<Rightarrow>
             (case DeniedBudget snap p' of
                Some b \<Rightarrow> (Inl (err_Newf CodeBudgetExhausted ''budget %q is exhausted'' [AStr (bud_ID b)]), w1)
              | None \<Rightarrow>
                  (case limiter_Admit pl p' w1 of (dec, w2) \<Rightarrow>
                     if \<not> ld_Allowed dec
                     then (Inl (err_Newf (ld_Reason dec) ''rate limit exceeded; retry in %s''
                             [ADur (duration_Round (ld_RetryAfter dec) second)]), w2)
                     else (Inr (p', req'), w2))))))"

definition guard :: "'s pipeline \<Rightarrow> snapshot \<Rightarrow> principal \<Rightarrow> request \<Rightarrow> 's worker \<Rightarrow> (go_error + string) \<times> 's worker" where
  "guard pl snap p req w =
     (let bindings = snap_Guardrails snap (p_Tenant p) PhaseRequest in
      if bindings = [] then (Inr (rq_Body req), w)
      else (case w_chain w of
          None \<Rightarrow> (Inr (rq_Body req), w)
        | Some c \<Rightarrow>
            (case Run (pl_registry pl) c bindings
                    \<lparr>gi_Phase = PhaseRequest, gi_Meta = rq_Meta req, gi_Class = p_DefaultClass p,
                     gi_Tier = TrustUnset, gi_Payload = rq_Body req\<rparr> of
               (out, c') \<Rightarrow>
                 (if go_Denied out
                  then Inl (err_Newf CodeGuardrailDenied ''request refused by the %s guardrail'' [AStr (go_Reason out)])
                  else Inr (go_Payload out), w\<lparr>w_chain := Some c'\<rparr>))))"

definition strategyFor :: "data_class \<Rightarrow> trust_tier \<Rightarrow> strategy" where
  "strategyFor cls tier =
     (if tier \<ge> TrustInternal then StrategyNone
      else if cls = DataClassRestricted \<or> cls = DataClassConfidential then StrategyTokenize
      else if cls = DataClassInternal then StrategyRedact
      else StrategyNone)"

text \<open>
  A detector whose spans leave the payload would make \<open>TransformMatches\<close> panic; \<open>slice_panic\<close> marks
  that case, which no detector of this repository produces.
\<close>

definition slice_panic :: go_error where
  "slice_panic = Foreign ''runtime error: slice bounds out of range'' None"

definition inspect_payload :: "'s pipeline \<Rightarrow> request \<Rightarrow> pii_match list \<times> go_error option" where
  \<comment> \<open>What the detection tiers found, and why the statistical tier did not run if it was asked for.\<close>
  "inspect_payload pl req =
     (let (ds, missing) =
            (if rq_deepInspection req
             then (case pl_ner pl of
                     None \<Rightarrow> ([Deterministic], Some (err_New CodeUnavailable ''this worker has no NER sidecar''))
                   | Some ner \<Rightarrow> ([Deterministic, ner], None))
             else ([Deterministic], None))
      in case DetectAll (rq_Body req) ds of
           (matches, errs) \<Rightarrow> (matches, case errs of [] \<Rightarrow> missing | e # _ \<Rightarrow> Some e))"

definition keep_originals ::
  "'s pipeline \<Rightarrow> principal \<Rightarrow> request \<Rightarrow> strategy \<Rightarrow> (string, string) gomap \<Rightarrow> 's worker \<Rightarrow> go_error option \<times> 's worker" where
  "keep_originals pl p req strat repl w =
     (case pl_vault pl of
        None \<Rightarrow> (None, w)
      | Some ttl \<Rightarrow>
          if strat \<noteq> StrategyTokenize then (None, w)
          else (case tick pl w of (now, w1) \<Rightarrow>
            (case vault_Put (pl_kv pl) ttl now (p_Tenant p) (RequestID (rq_Meta req)) (w_store w1) repl of
               (err, s') \<Rightarrow> (err, w1\<lparr>w_store := s'\<rparr>))))"

definition protect ::
  "'s pipeline \<Rightarrow> principal \<Rightarrow> request \<Rightarrow> deployment \<Rightarrow> 's worker \<Rightarrow>
   (go_error + string \<times> (string, string) gomap) \<times> 's worker" where
  "protect pl p req d w =
     (let strat = strategyFor (p_DefaultClass p) (dep_TrustTier d) in
      if strat = StrategyNone then (Inr (rq_Body req, []), w)
      else (case inspect_payload pl req of (matches, deepErr) \<Rightarrow>
        if deepErr \<noteq> None \<and> strat = StrategyTokenize
        then (Inl (GwError CodeUnavailable (Msg ''deep inspection was required and is unavailable'' []) False deepErr), w)
        else (case TransformMatches (pl_hmac pl) (rq_Body req) matches strat (pl_pepper pl) of
            None \<Rightarrow> (Inl slice_panic, w)
          | Some res \<Rightarrow>
              if res_Count res = 0 then (Inr (rq_Body req, []), w)
              else (case keep_originals pl p req strat (res_Replacements res) w of
                  (Some e, w1) \<Rightarrow> (Inl e, w1)
                | (None, w1) \<Rightarrow> (Inr (res_Payload res, res_Replacements res), w1)))))"
definition floor_tier :: "snapshot \<Rightarrow> principal \<Rightarrow> trust_tier" where
  "floor_tier snap p =
     (if p_MinTrustTier p > snap_MinTrustTier snap (p_Tenant p) then p_MinTrustTier p
      else snap_MinTrustTier snap (p_Tenant p))"

definition route_input :: "'s pipeline \<Rightarrow> snapshot \<Rightarrow> principal \<Rightarrow> request \<Rightarrow> selection_input" where
  "route_input pl snap p req =
     \<lparr>si_Snapshot = snap, si_Tenant = p_Tenant p, si_Model = m_Model (rq_Meta req),
      si_Endpoint = m_Endpoint (rq_Meta req), si_MinTrustTier = floor_tier snap p, si_Required = [],
      si_Objective = ObjectiveBalanced, si_Region = pl_region pl,
      si_ReferenceTokens = go_div (m_PayloadBytes (rq_Meta req)) 4\<rparr>"

definition route ::
  "'s pipeline \<Rightarrow> snapshot \<Rightarrow> principal \<Rightarrow> request \<Rightarrow> 's worker \<Rightarrow> (go_error + candidate list) \<times> 's worker" where
  "route pl snap p req w =
     (case tick pl w of (now, w1) \<Rightarrow>
       (case Select (pl_providers pl) (w_router w1) now (pl_draw pl) (route_input pl snap p req) of
          (r, out) \<Rightarrow> (out, w1\<lparr>w_router := r\<rparr>)))"

section \<open>Calling providers\<close>

datatype served = Whole provider_response | Cursor "chunk list"

fun served_body :: "served \<Rightarrow> provider_response" where
  "served_body (Whole r) = r"
| "served_body (Cursor _) = \<lparr>resp_StatusCode = 0, resp_Body = '''', resp_Usage = no_usage\<rparr>"

fun served_chunks :: "served \<Rightarrow> chunk list" where
  "served_chunks (Whole _) = []"
| "served_chunks (Cursor cs) = cs"

text \<open>The closure \<open>adapt\<close> gives to \<open>Execute\<close>: the worker and the replacements of the latest attempt are its state.\<close>

definition call_provider ::
  "'s pipeline \<Rightarrow> principal \<Rightarrow> request \<Rightarrow> bool \<Rightarrow> duration \<Rightarrow> deployment \<Rightarrow>
   's worker \<times> (string, string) gomap \<Rightarrow> (go_error + served) \<times> 's worker \<times> (string, string) gomap" where
  "call_provider pl p req stream left d st =
     (case st of (w, out) \<Rightarrow>
       (case pl_credentials pl (dep_CredentialRef d) of
          Inl e \<Rightarrow> (Inl e, w, out)
        | Inr cred \<Rightarrow>
            (case protect pl p req d w of
               (Inl e, w1) \<Rightarrow> (Inl e, w1, out)
             | (Inr (body, repl), w1) \<Rightarrow>
                 (let call = \<lparr>call_Deployment = d, call_Meta = rq_Meta req, call_Body = body, call_Credential = cred\<rparr>;
                      n = length (w_sent w1); w2 = w1\<lparr>w_sent := w_sent w1 @ [call]\<rparr>
                  in (if stream then map_sum id Cursor (pl_stream pl n left call)
                      else map_sum id Whole (pl_invoke pl n left call), w2, repl)))))"

definition attempt_for ::
  "'s pipeline \<Rightarrow> principal \<Rightarrow> request \<Rightarrow> bool \<Rightarrow> candidate list \<Rightarrow> nat \<Rightarrow>
   (served, 's worker \<times> (string, string) gomap) attempt_env" where
  "attempt_for pl p req stream cs i =
     \<lparr>ae_begin = ae_begin (pl_attempt pl i), ae_started = ae_started (pl_attempt pl i), ae_ended = ae_ended (pl_attempt pl i),
      ae_jitter = ae_jitter (pl_attempt pl i), ae_done_within = ae_done_within (pl_attempt pl i),
      ae_provider = (i < length cs \<and> pl_providers pl (dep_Provider (c_Deployment (cs ! i))) \<noteq> None),
      ae_call = call_provider pl p req stream\<rparr>"

definition adapt ::
  "'s pipeline \<Rightarrow> candidate list \<Rightarrow> request \<Rightarrow> principal \<Rightarrow> bool \<Rightarrow> 's worker \<Rightarrow>
   attempt list \<times> (go_error + deployment \<times> served) \<times> (string, string) gomap \<times> 's worker" where
  "adapt pl cs req p stream w =
     (case Execute (attempt_for pl p req stream cs) (pl_ctxDeadline pl) (m_Deadline (rq_Meta req)) (w_router w) (w, []) cs of
        (r, (w1, repl), atts, out) \<Rightarrow> (atts, out, repl, w1\<lparr>w_router := r\<rparr>))"

definition forget :: "'s pipeline \<Rightarrow> string \<Rightarrow> string \<Rightarrow> (string, string) gomap \<Rightarrow> 's worker \<Rightarrow> 's worker" where
  "forget pl tenant requestID repl w =
     (if pl_vault pl \<noteq> None \<and> repl \<noteq> []
      then w\<lparr>w_store := vault_Forget (pl_kv pl) tenant requestID (w_store w) repl\<rparr> else w)"

definition shadow_request_of :: "snapshot \<Rightarrow> request \<Rightarrow> principal \<Rightarrow> shadow_request" where
  "shadow_request_of snap req p =
     \<lparr>sr_Meta = rq_Meta req, sr_Body = rq_Body req, sr_Tenant = p_Tenant p, sr_Principal = p_KeyID p,
      sr_Tier = snap_Tier snap (p_Tenant p), sr_SnapshotVersion = v_Number (GlobalVersion snap),
      sr_BudgetIDs = budgetIDs (p_Budgets p)\<rparr>"

definition mirror_request ::
  "'s pipeline \<Rightarrow> snapshot \<Rightarrow> deployment \<Rightarrow> request \<Rightarrow> principal \<Rightarrow> 's worker \<Rightarrow> 's worker" where
  "mirror_request pl snap d req p w =
     (case w_mirror w of
        None \<Rightarrow> w
      | Some m \<Rightarrow> w\<lparr>w_mirror := Some (Send m (pl_shadowDraw pl) (Some snap) d (Some (shadow_request_of snap req p)))\<rparr>)"

section \<open>A buffered request\<close>

definition emit ::
  "'s pipeline \<Rightarrow> snapshot \<Rightarrow> request \<Rightarrow> gotime \<Rightarrow> stage_timing list \<Rightarrow> nat \<Rightarrow> deployment \<Rightarrow> bool \<Rightarrow>
   handle_result \<Rightarrow> go_error option \<Rightarrow> 's worker \<Rightarrow> handle_result \<times> 's worker" where
  "emit pl snap req started stages redactions d stream res err w =
     (case tick pl w of (now, w1) \<Rightarrow>
       (let res1 = res\<lparr>hr_Latency := now - started, hr_Stages := stages\<rparr> in
        (res1, emitAudit pl snap req res1 redactions err (emitUsage pl snap req res1 d stream err w1))))"

definition refuse ::
  "'s pipeline \<Rightarrow> snapshot \<Rightarrow> request \<Rightarrow> gotime \<Rightarrow> stage_timing list \<Rightarrow> deployment \<Rightarrow> handle_result \<Rightarrow>
   go_error \<Rightarrow> 's worker \<Rightarrow> handle_result \<times> go_error option \<times> 's worker" where
  "refuse pl snap req started stages d res e w =
     (case emit pl snap req started stages 0 d False res (Some e) w of (res1, w1) \<Rightarrow> (res1, Some e, w1))"

definition handle_served ::
  "'s pipeline \<Rightarrow> snapshot \<Rightarrow> request \<Rightarrow> principal \<Rightarrow> gotime \<Rightarrow> stage_timing list \<Rightarrow> handle_result \<Rightarrow>
   deployment \<Rightarrow> provider_response \<Rightarrow> (string, string) gomap \<Rightarrow> 's worker \<Rightarrow> handle_result \<times> go_error option \<times> 's worker" where
  "handle_served pl snap req p started stages res d resp repl w =
     (let res1 = res\<lparr>hr_Deployment := dep_ID d, hr_Route := dep_Key d, hr_StatusCode := resp_StatusCode resp,
                     hr_Body := Restore (resp_Body resp) repl, hr_Usage := resp_Usage resp\<rparr>;
          w1 = forget pl (p_Tenant p) (RequestID (rq_Meta req)) repl w;
          w2 = record_tokens pl p (usage_Total (resp_Usage resp)) w1
      in case emit pl snap req started stages (length repl) d False res1 None w2 of
           (res2, w3) \<Rightarrow> (res2, None, mirror_request pl snap d req p w3))"

definition handle_routed ::
  "'s pipeline \<Rightarrow> snapshot \<Rightarrow> request \<Rightarrow> principal \<Rightarrow> gotime \<Rightarrow> stage_timing list \<Rightarrow> handle_result \<Rightarrow>
   candidate list \<Rightarrow> 's worker \<Rightarrow> handle_result \<times> go_error option \<times> 's worker" where
  "handle_routed pl snap req p started stages res cs w =
     (let first = c_Deployment (cs ! 0);
          res1 = res\<lparr>hr_Deployment := dep_ID first, hr_Route := dep_Key first\<rparr>
      in case adapt pl cs req p False w of
           (_, Inl e, _, w1) \<Rightarrow> refuse pl snap req started (stages @ [stage pl ''adapt'' (Some e)]) first res1 e w1
         | (_, Inr (d, resp), repl, w1) \<Rightarrow>
             handle_served pl snap req p started (stages @ [stage pl ''adapt'' None]) res1 d (served_body resp) repl w1)"

definition handle_admitted ::
  "'s pipeline \<Rightarrow> snapshot \<Rightarrow> request \<Rightarrow> principal \<Rightarrow> gotime \<Rightarrow> stage_timing list \<Rightarrow> handle_result \<Rightarrow>
   's worker \<Rightarrow> handle_result \<times> go_error option \<times> 's worker" where
  "handle_admitted pl snap req p started stages res w =
     (case guard pl snap p req w of
        (Inl e, w1) \<Rightarrow> refuse pl snap req started (stages @ [stage pl ''guard'' (Some e)]) zero_deployment res e w1
      | (Inr body, w1) \<Rightarrow>
          (let req1 = req\<lparr>rq_Body := body\<rparr>; stages1 = stages @ [stage pl ''guard'' None] in
           case route pl snap p req1 w1 of
             (Inl e, w2) \<Rightarrow> refuse pl snap req1 started (stages1 @ [stage pl ''route'' (Some e)]) zero_deployment res e w2
           | (Inr cs, w2) \<Rightarrow> handle_routed pl snap req1 p started (stages1 @ [stage pl ''route'' None]) res cs w2))"

definition Handle ::
  "'s pipeline \<Rightarrow> snapshot \<Rightarrow> request \<Rightarrow> 's worker \<Rightarrow> handle_result \<times> go_error option \<times> 's worker" where
  "Handle pl snap req w =
     (case tick pl w of (started, w1) \<Rightarrow>
       (case tick pl w1 of (now, w2) \<Rightarrow>
         (case authenticate pl snap req now of
            Inl e \<Rightarrow> refuse pl snap req started [stage pl ''authenticate'' (Some e)] zero_deployment zero_result e w2
          | Inr p \<Rightarrow>
              (let res = zero_result\<lparr>hr_Principal := p\<rparr>; stages = [stage pl ''authenticate'' None] in
               case admit pl snap p req w2 of
                 (Inl e, w3) \<Rightarrow> refuse pl snap req started (stages @ [stage pl ''admit'' (Some e)]) zero_deployment res e w3
               | (Inr (p', req'), w3) \<Rightarrow>
                   (case handle_admitted pl snap req' p' started (stages @ [stage pl ''admit'' None]) res w3 of
                      (res', err, w4) \<Rightarrow> (res', err, release_limit p' w4))))))"

section \<open>A streamed request\<close>

text \<open>The closures of a \<open>StreamResult\<close> are kept as the values they capture.\<close>

record stream_result =
  so_Chunks :: "chunk list"
  so_Principal :: principal
  so_Deployment :: string
  so_Route :: routing_key
  so_Restorer :: "restorer option"
  so_deployment :: deployment
  so_finish :: "(request \<times> principal \<times> gotime \<times> nat) option"
  so_releaseLimit :: "principal option"
  so_forget :: "(string \<times> string \<times> (string, string) gomap) option"
  so_finished :: bool

definition zero_stream :: stream_result where
  "zero_stream =
     \<lparr>so_Chunks = [], so_Principal = zero_principal, so_Deployment = '''', so_Route = zero_key, so_Restorer = None,
      so_deployment = zero_deployment, so_finish = None, so_releaseLimit = None, so_forget = None, so_finished = False\<rparr>"

definition stream_refuse ::
  "'s pipeline \<Rightarrow> snapshot \<Rightarrow> request \<Rightarrow> gotime \<Rightarrow> stage_timing list \<Rightarrow> stream_result \<Rightarrow> go_error \<Rightarrow> 's worker \<Rightarrow>
   stream_result \<times> go_error option \<times> 's worker" where
  "stream_refuse pl snap req started stages sr e w =
     (sr, Some e,
      snd (emit pl snap req started stages 0 (so_deployment sr) True
             (zero_result\<lparr>hr_Principal := so_Principal sr, hr_Deployment := so_Deployment sr, hr_Route := so_Route sr\<rparr>) (Some e) w))"

definition stream_routed ::
  "'s pipeline \<Rightarrow> snapshot \<Rightarrow> request \<Rightarrow> principal \<Rightarrow> gotime \<Rightarrow> stage_timing list \<Rightarrow> stream_result \<Rightarrow>
   candidate list \<Rightarrow> 's worker \<Rightarrow> stream_result \<times> go_error option \<times> 's worker" where
  "stream_routed pl snap req p started stages sr cs w =
     (case adapt pl cs req p True w of
        (atts, Inl e, _, w1) \<Rightarrow>
          stream_refuse pl snap req started (stages @ [stage pl ''adapt'' (Some e)])
            (if atts \<noteq> [] then sr\<lparr>so_Deployment := att_Deployment (last atts)\<rparr> else sr) e w1
      | (_, Inr (d, resp), repl, w1) \<Rightarrow>
          (sr\<lparr>so_deployment := d, so_Deployment := dep_ID d, so_Route := dep_Key d,
              so_forget := (if pl_vault pl \<noteq> None \<and> repl \<noteq> [] then Some (p_Tenant p, RequestID (rq_Meta req), repl) else None),
              so_Chunks := served_chunks resp, so_Restorer := Some (NewRestorer repl),
              so_finish := Some (req, p, started, length repl)\<rparr>, None, w1))"

definition stream_admitted ::
  "'s pipeline \<Rightarrow> snapshot \<Rightarrow> request \<Rightarrow> principal \<Rightarrow> gotime \<Rightarrow> stage_timing list \<Rightarrow> stream_result \<Rightarrow>
   's worker \<Rightarrow> stream_result \<times> go_error option \<times> 's worker" where
  "stream_admitted pl snap req p started stages sr w =
     (case guard pl snap p req w of
        (Inl e, w1) \<Rightarrow> stream_refuse pl snap req started (stages @ [stage pl ''guard'' (Some e)]) sr e w1
      | (Inr body, w1) \<Rightarrow>
          (let req1 = req\<lparr>rq_Body := body\<rparr>; stages1 = stages @ [stage pl ''guard'' None] in
           case route pl snap p req1 w1 of
             (Inl e, w2) \<Rightarrow> stream_refuse pl snap req1 started (stages1 @ [stage pl ''route'' (Some e)]) sr e w2
           | (Inr cs, w2) \<Rightarrow> stream_routed pl snap req1 p started (stages1 @ [stage pl ''route'' None]) sr cs w2))"

definition HandleStream ::
  "'s pipeline \<Rightarrow> snapshot \<Rightarrow> request \<Rightarrow> 's worker \<Rightarrow> stream_result \<times> go_error option \<times> 's worker" where
  "HandleStream pl snap req w =
     (case tick pl w of (started, w1) \<Rightarrow>
       (case tick pl w1 of (now, w2) \<Rightarrow>
         (case authenticate pl snap req now of
            Inl e \<Rightarrow> stream_refuse pl snap req started [stage pl ''authenticate'' (Some e)] zero_stream e w2
          | Inr p \<Rightarrow>
              (let sr = zero_stream\<lparr>so_Principal := p\<rparr>; stages = [stage pl ''authenticate'' None] in
               case admit pl snap p req w2 of
                 (Inl e, w3) \<Rightarrow> stream_refuse pl snap req started (stages @ [stage pl ''admit'' (Some e)]) sr e w3
               | (Inr (p', req'), w3) \<Rightarrow>
                   stream_admitted pl snap req' p' started (stages @ [stage pl ''admit'' None])
                     (sr\<lparr>so_releaseLimit := Some p'\<rparr>) w3))))"

definition run_finish ::
  "'s pipeline \<Rightarrow> snapshot \<Rightarrow> stream_result \<Rightarrow> token_usage \<Rightarrow> duration \<Rightarrow> go_error option \<Rightarrow>
   request \<times> principal \<times> gotime \<times> nat \<Rightarrow> 's worker \<Rightarrow> 's worker" where
  \<comment> \<open>The closure \<open>result.finish\<close>, on the values it captured.\<close>
  "run_finish pl snap sr usage ttfb err captured w =
     (case captured of (req, p, started, redactions) \<Rightarrow>
       (case tick pl (record_tokens pl p (usage_Total usage) w) of (now, w1) \<Rightarrow>
         (let res = zero_result\<lparr>hr_Principal := so_Principal sr, hr_Deployment := so_Deployment sr,
                      hr_Route := so_Route sr, hr_Usage := usage, hr_Latency := now - started,
                      hr_TimeToFirstByte := ttfb\<rparr>
          in emitAudit pl snap req res redactions err (emitUsage pl snap req res (so_deployment sr) True err w1))))"

definition Finish ::
  "'s pipeline \<Rightarrow> snapshot \<Rightarrow> stream_result \<Rightarrow> token_usage \<Rightarrow> duration \<Rightarrow> go_error option \<Rightarrow> 's worker \<Rightarrow>
   stream_result \<times> 's worker" where
  "Finish pl snap sr usage ttfb err w =
     (if so_finished sr then (sr, w)
      else (let w1 = (case so_forget sr of None \<Rightarrow> w
                      | Some (t, r, repl) \<Rightarrow> w\<lparr>w_store := vault_Forget (pl_kv pl) t r (w_store w) repl\<rparr>);
                w2 = (case so_releaseLimit sr of None \<Rightarrow> w1 | Some p \<Rightarrow> release_limit p w1);
                w3 = (case so_finish sr of None \<Rightarrow> w2 | Some captured \<Rightarrow> run_finish pl snap sr usage ttfb err captured w2)
            in (sr\<lparr>so_finished := True\<rparr>, w3)))"
section \<open>A mirrored request\<close>

definition emitShadowUsage ::
  "'s pipeline \<Rightarrow> deployment \<Rightarrow> shadow_request \<Rightarrow> token_usage \<Rightarrow> duration \<Rightarrow> go_error option \<Rightarrow> 's worker \<Rightarrow> 's worker" where
  "emitShadowUsage pl d sr u latency err w =
     (case tick pl w of (now, w1) \<Rightarrow>
       emit_event (UsageEvent
         \<lparr>ue_RequestID = RequestID (sr_Meta sr) @ '':shadow:'' @ dep_ID d, ue_Timestamp = now, ue_Tenant = sr_Tenant sr,
          ue_KeyID = sr_Principal sr, ue_Tier = sr_Tier sr, ue_Deployment = dep_ID d, ue_Route = dep_Key d,
          ue_Provider = dep_Provider d, ue_Stream = False, ue_Shadow = True, ue_Stages = [],
          ue_InputTokens = tu_Input u, ue_OutputTokens = tu_Output u, ue_CachedInputTokens = tu_CachedInput u,
          ue_CacheWriteTokens = tu_CacheWrite u, ue_CostMicroUSD = cost_For (dep_Cost d) u, ue_PriceMicroUSD = 0,
          ue_LatencyMs = Milliseconds latency, ue_TimeToFirstByte = 0, ue_Outcome = CodeOf err,
          ue_SnapshotVersion = sr_SnapshotVersion sr, ue_Budgets = sr_BudgetIDs sr\<rparr>) w1)"

definition ShadowCall :: "'s pipeline \<Rightarrow> duration \<Rightarrow> deployment \<Rightarrow> shadow_request \<Rightarrow> 's worker \<Rightarrow> go_error option \<times> 's worker" where
  "ShadowCall pl timeout d sr w =
     (case tick pl w of (started, w1) \<Rightarrow>
       if pl_providers pl (dep_Provider d) = None
       then (Some (err_Newf CodeInternal ''no provider %q for shadow %s'' [AStr (dep_Provider d), AStr (dep_ID d)]), w1)
       else (case pl_credentials pl (dep_CredentialRef d) of
           Inl e \<Rightarrow> (Some e, w1)
         | Inr cred \<Rightarrow>
             (case protect pl (zero_principal\<lparr>p_Tenant := sr_Tenant sr, p_KeyID := sr_Principal sr\<rparr>)
                     \<lparr>rq_Meta = sr_Meta sr, rq_APIKey = '''', rq_Body = sr_Body sr, rq_deepInspection = False\<rparr> d w1 of
                (Inl e, w2) \<Rightarrow> (Some e, w2)
              | (Inr (body, _), w2) \<Rightarrow>
                  (let call = \<lparr>call_Deployment = d, call_Meta = sr_Meta sr, call_Body = body, call_Credential = cred\<rparr>;
                       out = pl_invoke pl (length (w_sent w2)) timeout call;
                       w3 = w2\<lparr>w_sent := w_sent w2 @ [call]\<rparr>;
                       err = (case out of Inl e \<Rightarrow> Some e | Inr _ \<Rightarrow> None);
                       usage = (case out of Inl _ \<Rightarrow> no_usage | Inr r \<Rightarrow> resp_Usage r)
                   in case tick pl w3 of (ended, w4) \<Rightarrow>
                        (err, emitShadowUsage pl d sr usage (ended - started) err w4)))))"

end
