(* ===== verification/Pipeline_Example.thy ===== *)
theory Pipeline_Example
  imports Pipeline Gateway_Example
begin

text \<open>
  A worker over the in-process store with an echoing provider, serving the configuration of
  \<open>Gateway_Example\<close>. One request is run through the whole pipeline: it carries an e-mail address,
  its key is classified as restricted, and the first deployment tried is outside the trust boundary.
\<close>

definition ex_attempt :: "nat \<Rightarrow> (unit, unit) attempt_env" where
  "ex_attempt i = \<lparr>ae_begin = 0, ae_started = 0, ae_ended = 100, ae_jitter = 0, ae_done_within = (\<lambda>_. False),
     ae_provider = True, ae_call = (\<lambda>_ _ w. (Inl (Foreign '''' None), w))\<rparr>"

definition ex_pipeline :: "mem_store pipeline" where
  "ex_pipeline =
     \<lparr>pl_kv = memkv_ops, pl_providers = (\<lambda>n. if n = ''prov'' then Some [EndpointChatCompletions] else None),
      pl_invoke = (\<lambda>n left c. Inr \<lparr>resp_StatusCode = 200, resp_Body = call_Body c, resp_Usage = no_usage\<rparr>),
      pl_stream = (\<lambda>n left c. Inr []), pl_credentials = NoCredentials_Resolve, pl_registry = (\<lambda>_. None),
      pl_vault = Some (5 * minute), pl_ner = None, pl_region = ''us'', pl_pepper = ''pep'', pl_hmac = (\<lambda>k m. m),
      pl_decode = (\<lambda>_. Inr empty_bundle), pl_clock = (\<lambda>n. 62135596800000000000 + int n), pl_stageTime = (\<lambda>_. 1), pl_attempt = ex_attempt,
      pl_ctxDeadline = None, pl_draw = 0, pl_shadowDraw = (\<lambda>_. 0)\<rparr>"

definition ex_request :: request where
  "ex_request =
     \<lparr>rq_Meta = \<lparr>RequestID = ''r1'', m_Model = ''chat'', m_Endpoint = EndpointChatCompletions, m_Stream = False,
        m_PayloadBytes = 6, m_SourceIP = AddrNone, m_Region = '''', m_Priority = PriorityInteractive, m_IdempotencyKey = '''',
        m_ReceivedAt = 0, m_Deadline = 0\<rparr>,
      rq_APIKey = ''gw_ac_s3cret'', rq_Body = ''a@b.co'', rq_deepInspection = False\<rparr>"

definition ex_worker :: "mem_store worker" where
  "ex_worker =
     \<lparr>w_store = mem_New, w_limiter = Some (limiter_New None), w_router = router_New None None [] None, w_chain = None,
      w_policies = NewCache, w_mirror = None, w_events = [], w_sent = [], w_ticks = 1\<rparr>"

lemma ex_run:
  "case Handle ex_pipeline ex_snapshot ex_request ex_worker of (res, err, w') \<Rightarrow>
     err = None \<and> hr_Body res = ''a@b.co'' \<and> map call_Body (w_sent w') = [''[[EMAIL_1]]''] \<and>
     map event_Kind (w_events w') = [''usage'', ''audit''] \<and> gomap_keys (w_store w') = [''rl:acme:k1:rpm:0'']"
  by code_simp

end
