(* ===== verification/Pipeline_Laws.thy ===== *)
theory Pipeline_Laws
  imports Pipeline_Example
begin

text \<open>
  What the request path guarantees: who a request is authenticated as, that free checks come before
  any that costs, which deployments a payload may be sent to and in what form, what is recorded of
  each request, and that the concurrency slot it took is given back.
\<close>

section \<open>What each stage leaves alone\<close>

text \<open>
  Each lemma says which components of the worker a stage may change: any reading \<open>f\<close> of the worker
  that does not depend on them is unchanged.
\<close>

lemma tick_keeps: "(\<And>w n. f (w\<lparr>w_ticks := n\<rparr>) = f w) \<Longrightarrow> f (snd (tick pl w)) = f w"
  by (simp add: tick_def)

lemma protect_keeps:
  assumes s: "\<And>w s. f (w\<lparr>w_store := s\<rparr>) = f w" and n: "\<And>w n. f (w\<lparr>w_ticks := n\<rparr>) = f w"
  shows "f (snd (protect pl p req d w)) = f w"
proof -
  have put: "f (snd (keep_originals pl p req strat m w)) = f w" for strat m
    by (simp add: keep_originals_def tick_def s n split: option.split prod.split)
  obtain ms de where i: "inspect_payload pl req = (ms, de)" by fastforce
  show ?thesis
  proof (cases "TransformMatches (pl_hmac pl) (rq_Body req) ms (strategyFor (p_DefaultClass p) (dep_TrustTier d)) (pl_pepper pl)")
    case None
    then show ?thesis by (simp add: protect_def Let_def i)
  next
    case (Some res)
    obtain e w1 where k: "keep_originals pl p req (strategyFor (p_DefaultClass p) (dep_TrustTier d)) (res_Replacements res) w = (e, w1)"
      by fastforce
    with put have "f w1 = f w" by (metis snd_conv)
    with Some k show ?thesis by (cases e) (simp_all add: protect_def Let_def i)
  qed
qed
lemma guard_keeps: "(\<And>w c. f (w\<lparr>w_chain := c\<rparr>) = f w) \<Longrightarrow> f (snd (guard pl snap p req w)) = f w"
  by (simp add: guard_def Let_def split: prod.split option.split)

lemma route_keeps:
  "(\<And>w r. f (w\<lparr>w_router := r\<rparr>) = f w) \<Longrightarrow> (\<And>w n. f (w\<lparr>w_ticks := n\<rparr>) = f w) \<Longrightarrow> f (snd (route pl snap p req w)) = f w"
  by (simp add: route_def tick_def split: prod.split)

lemma forget_keeps: "(\<And>w s. f (w\<lparr>w_store := s\<rparr>) = f w) \<Longrightarrow> f (forget pl t r repl w) = f w"
  by (simp add: forget_def)

lemma record_tokens_keeps:
  "(\<And>w s. f (w\<lparr>w_store := s\<rparr>) = f w) \<Longrightarrow> (\<And>w n. f (w\<lparr>w_ticks := n\<rparr>) = f w) \<Longrightarrow> f (record_tokens pl p k w) = f w"
  by (simp add: record_tokens_def tick_def split: option.split)

lemma mirror_request_keeps: "(\<And>w m. f (w\<lparr>w_mirror := m\<rparr>) = f w) \<Longrightarrow> f (mirror_request pl snap d req p w) = f w"
  by (simp add: mirror_request_def split: option.split)

lemma emit_keeps:
  assumes e: "\<And>w es. f (w\<lparr>w_events := es\<rparr>) = f w" and n: "\<And>w n. f (w\<lparr>w_ticks := n\<rparr>) = f w"
  shows "f (snd (emit pl snap req started stages redactions d stream res err w)) = f w"
proof -
  have "f (emitUsage pl snap req r d stream err w) = f w" for r w
    by (simp add: emitUsage_def tick_def emit_event_def e n)
  moreover have "f (emitAudit pl snap req r redactions err w) = f w" for r w
    by (simp add: emitAudit_def tick_def emit_event_def e n split: prod.split)
  ultimately show ?thesis by (simp add: emit_def tick_def n Let_def)
qed

lemma call_provider_keeps:
  assumes s: "\<And>w s. f (w\<lparr>w_store := s\<rparr>) = f w" and n: "\<And>w n. f (w\<lparr>w_ticks := n\<rparr>) = f w"
    and c: "\<And>w cs. f (w\<lparr>w_sent := cs\<rparr>) = f w"
  shows "f (fst (snd (call_provider pl p req stream left d (w, out)))) = f w"
proof -
  obtain res w1 where p: "protect pl p req d w = (res, w1)" by fastforce
  have "f w1 = f w" using protect_keeps[of f pl p req d w, OF s n] by (simp add: p)
  then show ?thesis by (simp add: call_provider_def p Let_def c split: sum.split prod.split)
qed

lemma adapt_keeps:
  assumes s: "\<And>w s. f (w\<lparr>w_store := s\<rparr>) = f w" and n: "\<And>w n. f (w\<lparr>w_ticks := n\<rparr>) = f w"
    and c: "\<And>w cs. f (w\<lparr>w_sent := cs\<rparr>) = f w" and r: "\<And>w r. f (w\<lparr>w_router := r\<rparr>) = f w"
  shows "adapt pl cs req p stream w = (atts, out, repl, w') \<Longrightarrow> f w' = f w"
proof -
  assume a: "adapt pl cs req p stream w = (atts, out, repl, w')"
  obtain rt w1 repl1 where e: "Execute (attempt_for pl p req stream cs) (pl_ctxDeadline pl) (m_Deadline (rq_Meta req))
      (w_router w) (w, []) cs = (rt, (w1, repl1), atts, out)" and w': "w' = w1\<lparr>w_router := rt\<rparr>"
    using a by (auto simp: adapt_def split: prod.splits)
  have "f (fst (w1, repl1)) = f w"
    by (rule execute_from_world[OF e[unfolded Execute_def], where I = "\<lambda>st. f (fst st) = f w"])
      (simp_all add: attempt_for_def call_provider_keeps[of f, OF s n c] split_paired_all)
  then show ?thesis by (simp add: w' r)
qed

section \<open>What is sent, and where\<close>

definition protected_as ::
  "'s pipeline \<Rightarrow> principal \<Rightarrow> request \<Rightarrow> deployment \<Rightarrow> string \<Rightarrow> (string, string) gomap \<Rightarrow> bool" where
  \<comment> \<open>The body is the payload with every detected value replaced as the destination requires; when values
     must come back, every tier of detection that was asked for has run.\<close>
  "protected_as pl p req d body repl =
     (let strat = strategyFor (p_DefaultClass p) (dep_TrustTier d) in
      (\<exists>res. TransformMatches (pl_hmac pl) (rq_Body req) (fst (inspect_payload pl req)) strat (pl_pepper pl) = Some res \<and>
         body = res_Payload res \<and> repl = res_Replacements res) \<and>
      (strat = StrategyTokenize \<longrightarrow> snd (inspect_payload pl req) = None))"

lemma TransformMatches_untouched:
  "TransformMatches hmac s ms strat pepper = Some res \<Longrightarrow> res_Count res = 0 \<Longrightarrow> res_Payload res = s \<and> res_Replacements res = []"
  by (auto simp: TransformMatches_def split: if_splits)

lemma protect_Inr:
  assumes "protect pl p req d w = (Inr (body, repl), w')"
  shows "protected_as pl p req d body repl"
proof -
  define strat where "strat = strategyFor (p_DefaultClass p) (dep_TrustTier d)"
  obtain ms de where i: "inspect_payload pl req = (ms, de)" by fastforce
  show ?thesis
  proof (cases "strat = StrategyNone")
    case True
    with assms show ?thesis
      by (auto simp: protect_def protected_as_def Let_def strat_def[symmetric] i TransformMatches_def)
  next
    case False
    with assms i obtain res where t: "TransformMatches (pl_hmac pl) (rq_Body req) ms strat (pl_pepper pl) = Some res"
      and de: "\<not> (de \<noteq> None \<and> strat = StrategyTokenize)"
      by (auto simp: protect_def Let_def strat_def[symmetric] split: if_splits option.splits)
    obtain e w1 where k: "keep_originals pl p req strat (res_Replacements res) w = (e, w1)" by fastforce
    have "body = res_Payload res \<and> repl = res_Replacements res"
    proof (cases "res_Count res = 0")
      case True
      with assms False de t i TransformMatches_untouched[OF t] show ?thesis
        by (auto simp: protect_def Let_def strat_def[symmetric])
    next
      case False
      with assms \<open>strat \<noteq> StrategyNone\<close> de t i k show ?thesis
        by (cases e) (auto simp: protect_def Let_def strat_def[symmetric])
    qed
    with t de i show ?thesis by (auto simp: protected_as_def Let_def strat_def[symmetric])
  qed
qed

text \<open>
  The state of an execution: the calls made so far, each protected for its own destination, and the
  replacements of the latest one.
\<close>

definition sent_ok ::
  "'s pipeline \<Rightarrow> principal \<Rightarrow> request \<Rightarrow> deployment set \<Rightarrow> provider_call list \<Rightarrow> 's worker \<times> (string, string) gomap \<Rightarrow> bool" where
  "sent_ok pl p req ds before st =
     (\<exists>calls. w_sent (fst st) = before @ calls \<and>
        list_all (\<lambda>c. call_Deployment c \<in> ds \<and> call_Meta c = rq_Meta req \<and>
                      (\<exists>repl. protected_as pl p req (call_Deployment c) (call_Body c) repl)) calls \<and>
        (if calls = [] then snd st = []
         else protected_as pl p req (call_Deployment (last calls)) (call_Body (last calls)) (snd st)))"

lemma call_provider_cases:
  assumes "call_provider pl p req stream left d (w, out) = (res, w', out')"
  obtains (quiet) e where "res = Inl e" "w_sent w' = w_sent w" "out' = out"
  | (call) cred body where "w_sent w' = w_sent w @
        [\<lparr>call_Deployment = d, call_Meta = rq_Meta req, call_Body = body, call_Credential = cred\<rparr>]"
      "protected_as pl p req d body out'" "pl_credentials pl (dep_CredentialRef d) = Inr cred"
      "res = (let c = \<lparr>call_Deployment = d, call_Meta = rq_Meta req, call_Body = body, call_Credential = cred\<rparr> in
              if stream then map_sum id Cursor (pl_stream pl (length (w_sent w)) left c)
              else map_sum id Whole (pl_invoke pl (length (w_sent w)) left c))"
proof (cases "pl_credentials pl (dep_CredentialRef d)")
  case (Inl e)
  with assms have "res = Inl e \<and> w' = w \<and> out' = out" by (auto simp: call_provider_def)
  then show ?thesis using quiet by blast
next
  case (Inr cred)
  obtain pr w1 where p: "protect pl p req d w = (pr, w1)" by fastforce
  have s: "w_sent w1 = w_sent w" using protect_keeps[of w_sent pl p req d w] by (simp add: p)
  show ?thesis
  proof (cases pr)
    case (Inl e)
    with assms Inr p have "res = Inl e \<and> w' = w1 \<and> out' = out"
      by (auto simp: call_provider_def \<open>pl_credentials pl (dep_CredentialRef d) = Inr cred\<close>)
    then show ?thesis using quiet s by blast
  next
    case (Inr x)
    obtain body repl where x: "x = (body, repl)" by fastforce
    let ?c = "\<lparr>call_Deployment = d, call_Meta = rq_Meta req, call_Body = body, call_Credential = cred\<rparr>"
    have pr: "protected_as pl p req d body repl" by (rule protect_Inr[OF p[unfolded Inr x]])
    from assms \<open>pl_credentials pl (dep_CredentialRef d) = Inr cred\<close> p[unfolded Inr x]
    have "w' = w1\<lparr>w_sent := w_sent w1 @ [?c]\<rparr>" "out' = repl"
      "res = (if stream then map_sum id Cursor (pl_stream pl (length (w_sent w1)) left ?c)
              else map_sum id Whole (pl_invoke pl (length (w_sent w1)) left ?c))"
      by (auto simp: call_provider_def Let_def)
    with pr s \<open>pl_credentials pl (dep_CredentialRef d) = Inr cred\<close> show ?thesis
      by (intro call[of body cred]) (simp_all add: Let_def)
  qed
qed

lemma call_provider_sent:
  assumes "sent_ok pl p req ds before st" "d \<in> ds"
  shows "sent_ok pl p req ds before (snd (call_provider pl p req stream left d st))"
proof -
  obtain w out where st: "st = (w, out)" by fastforce
  obtain res w' out' where c: "call_provider pl p req stream left d (w, out) = (res, w', out')" by (metis prod_cases3)
  from c show ?thesis
  proof (cases rule: call_provider_cases)
    case (quiet e)
    then have "sent_ok pl p req ds before (w', out') = sent_ok pl p req ds before (w, out)" by (simp add: sent_ok_def)
    with assms(1) show ?thesis by (simp add: c st)
  next
    case (call cred body)
    let ?c = "\<lparr>call_Deployment = d, call_Meta = rq_Meta req, call_Body = body, call_Credential = cred\<rparr>"
    let ?ok = "\<lambda>c. call_Deployment c \<in> ds \<and> call_Meta c = rq_Meta req \<and>
                      (\<exists>repl. protected_as pl p req (call_Deployment c) (call_Body c) repl)"
    from assms(1) st obtain calls where old: "w_sent w = before @ calls" "list_all ?ok calls"
      unfolding sent_ok_def by (elim exE conjE) (simp only: fst_conv)
    have "?ok ?c" using assms(2) call(2) by auto
    with old(2) have "list_all ?ok (calls @ [?c])" by (simp only: list_all_append list.pred_inject simp_thms)
    moreover have "w_sent w' = before @ (calls @ [?c])" using call(1) old(1) by simp
    moreover have "protected_as pl p req (call_Deployment (last (calls @ [?c]))) (call_Body (last (calls @ [?c]))) out'"
      using call(2) by simp
    ultimately have "sent_ok pl p req ds before (w', out')"
      unfolding sent_ok_def by (intro exI[of _ "calls @ [?c]"]) simp
    then show ?thesis by (simp add: c st)
  qed
qed

lemma sent_ok_router: "sent_ok pl p req ds before (w\<lparr>w_router := r\<rparr>, repl) = sent_ok pl p req ds before (w, repl)"
  by (simp add: sent_ok_def)

lemma adapt_sent:
  assumes "adapt pl cs req p stream w = (atts, out, repl, w')"
  shows "sent_ok pl p req (c_Deployment ` set cs) (w_sent w) (w', repl)"
proof -
  let ?I = "sent_ok pl p req (c_Deployment ` set cs) (w_sent w)"
  obtain rt w1 where e: "Execute (attempt_for pl p req stream cs) (pl_ctxDeadline pl) (m_Deadline (rq_Meta req))
      (w_router w) (w, []) cs = (rt, (w1, repl), atts, out)" and w': "w' = w1\<lparr>w_router := rt\<rparr>"
    using assms by (auto simp: adapt_def split: prod.splits)
  have "?I (w1, repl)"
    by (rule execute_from_world[OF e[unfolded Execute_def], where I = ?I])
      (auto simp: attempt_for_def sent_ok_def[of _ _ _ _ _ "(w, [])"] intro: call_provider_sent)
  then show ?thesis by (simp add: w' sent_ok_router)
qed

text \<open>A response is restored with the replacements of the very call that produced it.\<close>

lemma adapt_served:
  assumes "adapt pl cs req p False w = (atts, Inr (d, resp), repl, w')"
  shows "\<exists>before c n left r. w_sent w' = before @ [c] \<and> call_Deployment c = d \<and> d \<in> c_Deployment ` set cs \<and>
           protected_as pl p req d (call_Body c) repl \<and> pl_invoke pl n left c = Inr r \<and> resp = Whole r"
proof -
  obtain rt w1 where e: "Execute (attempt_for pl p req False cs) (pl_ctxDeadline pl) (m_Deadline (rq_Meta req))
      (w_router w) (w, []) cs = (rt, (w1, repl), atts, Inr (d, resp))" and w': "w' = w1\<lparr>w_router := rt\<rparr>"
    using assms by (auto simp: adapt_def split: prod.splits)
  from execute_from_served[OF e[unfolded Execute_def], where I = "\<lambda>_. True"]
  obtain left w0 where d: "d \<in> c_Deployment ` set cs"
    and c: "call_provider pl p req False left d w0 = (Inr resp, w1, repl)"
    by (auto simp: attempt_for_def)
  obtain v0 out0 where w0: "w0 = (v0, out0)" by fastforce
  from c[unfolded w0] show ?thesis
  proof (cases rule: call_provider_cases)
    case (quiet err)
    then show ?thesis by simp
  next
    case (call cred body)
    let ?c = "\<lparr>call_Deployment = d, call_Meta = rq_Meta req, call_Body = body, call_Credential = cred\<rparr>"
    from call(4) obtain r where "pl_invoke pl (length (w_sent v0)) left ?c = Inr r" "resp = Whole r"
      by (cases "pl_invoke pl (length (w_sent v0)) left ?c") (auto simp: Let_def)
    with call(1,2) d w' show ?thesis by fastforce
  qed
qed

section \<open>Events\<close>

definition audited :: "request \<Rightarrow> handle_result \<Rightarrow> nat \<Rightarrow> go_error option \<Rightarrow> bool" where
  "audited req res redactions err = (fst (auditable req (hr_Principal res) redactions err) \<noteq> '''')"

definition one_record :: "request \<Rightarrow> handle_result \<Rightarrow> nat \<Rightarrow> go_error option \<Rightarrow> event list \<Rightarrow> bool" where
  \<comment> \<open>What one request leaves in the event stream: a usage event and, for a decision, an audit event.\<close>
  "one_record req res redactions err evs =
     (\<exists>u as. evs = UsageEvent u # as \<and> ue_RequestID u = RequestID (rq_Meta req) \<and> ue_Outcome u = CodeOf err \<and>
        \<not> ue_Shadow u \<and> ue_Tenant u = p_Tenant (hr_Principal res) \<and> ue_KeyID u = p_KeyID (hr_Principal res) \<and>
        ue_Stages u = hr_Stages res \<and>
        (if audited req res redactions err
         then \<exists>a. as = [AuditEvent a] \<and> au_RequestID a = RequestID (rq_Meta req) \<and> au_Outcome a = CodeOf err \<and>
                au_Tenant a = p_Tenant (hr_Principal res) \<and> au_Actor a = p_KeyID (hr_Principal res)
         else as = []))"

lemma one_record_meta: "rq_Meta req' = rq_Meta req \<Longrightarrow> one_record req' = one_record req"
  by (intro ext) (simp add: one_record_def audited_def auditable_def)

lemma emitted_pair:
  "\<exists>evs. w_events (emitAudit pl snap req res redactions err (emitUsage pl snap req res d stream err w)) = w_events w @ evs \<and>
         one_record req res redactions err evs"
proof -
  let ?w1 = "emitUsage pl snap req res d stream err w"
  define u where "u = usage_event_of snap req res d stream err (pl_clock pl (w_ticks w))"
  have u: "w_events ?w1 = w_events w @ [UsageEvent u]"
    by (simp add: emitUsage_def tick_def emit_event_def u_def)
  have fields: "ue_RequestID u = RequestID (rq_Meta req)" "ue_Outcome u = CodeOf err" "\<not> ue_Shadow u"
    "ue_Tenant u = p_Tenant (hr_Principal res)" "ue_KeyID u = p_KeyID (hr_Principal res)" "ue_Stages u = hr_Stages res"
    by (simp_all add: u_def usage_event_of_def Let_def)
  obtain action reason where a: "auditable req (hr_Principal res) redactions err = (action, reason)" by fastforce
  show ?thesis
  proof (cases "action = ''''")
    case True
    with a u have "w_events (emitAudit pl snap req res redactions err ?w1) = w_events w @ [UsageEvent u]" by (simp add: emitAudit_def)
    moreover have "one_record req res redactions err [UsageEvent u]"
      unfolding one_record_def audited_def using a True fields by simp
    ultimately show ?thesis by blast
  next
    case False
    define v where "v = audit_event_of snap req res action reason err (pl_clock pl (w_ticks ?w1))"
    from False a u have "w_events (emitAudit pl snap req res redactions err ?w1) = w_events w @ [UsageEvent u, AuditEvent v]"
      by (simp add: emitAudit_def tick_def emit_event_def v_def)
    moreover have "one_record req res redactions err [UsageEvent u, AuditEvent v]"
      unfolding one_record_def audited_def using a False fields by (simp add: v_def audit_event_of_def)
    ultimately show ?thesis by blast
  qed
qed

lemma emit_records:
  assumes "emit pl snap req started stages redactions d stream res err w = (res', w')"
  shows "\<exists>evs. w_events w' = w_events w @ evs \<and> one_record req res' redactions err evs"
    "hr_Principal res' = hr_Principal res" "hr_Stages res' = stages" "hr_Body res' = hr_Body res"
  using assms emitted_pair[of pl snap req res' redactions err d stream "w\<lparr>w_ticks := Suc (w_ticks w)\<rparr>"]
  by (auto simp: emit_def tick_def Let_def)
section \<open>The handler, phase by phase\<close>

lemma limiter_Admit_keeps:
  assumes "\<And>w s. f (w\<lparr>w_store := s\<rparr>) = f w" "\<And>w n. f (w\<lparr>w_ticks := n\<rparr>) = f w" "\<And>w l. f (w\<lparr>w_limiter := l\<rparr>) = f w"
  shows "f (snd (limiter_Admit pl p w)) = f w"
  by (simp add: limiter_Admit_def tick_def assms split: option.split prod.split)

lemma admit_keeps:
  assumes "\<And>w s. f (w\<lparr>w_store := s\<rparr>) = f w" "\<And>w n. f (w\<lparr>w_ticks := n\<rparr>) = f w" "\<And>w l. f (w\<lparr>w_limiter := l\<rparr>) = f w"
    "\<And>w c. f (w\<lparr>w_policies := c\<rparr>) = f w"
  shows "f (snd (admit pl snap p req w)) = f w"
proof -
  obtain pol cache where a: "applyPolicy pl snap p req (w_policies w) = (pol, cache)" by fastforce
  have L: "f w2 = f w" if "limiter_Admit pl p' (w\<lparr>w_policies := cache\<rparr>) = (dec, w2)" for p' dec w2
    using limiter_Admit_keeps[of f pl p', OF assms(1-3), of "w\<lparr>w_policies := cache\<rparr>"] assms(4) that by simp
  show ?thesis
    by (cases pol) (auto simp: admit_def a Let_def assms(4) split: prod.splits option.splits dest: L)
qed

lemma refuse_keeps:
  assumes "\<And>w es. f (w\<lparr>w_events := es\<rparr>) = f w" "\<And>w n. f (w\<lparr>w_ticks := n\<rparr>) = f w"
  shows "f (snd (snd (refuse pl snap req started stages d res e w))) = f w"
  using emit_keeps[of f pl snap req started stages 0 d False res "Some e" w, OF assms]
  by (cases "emit pl snap req started stages 0 d False res (Some e) w") (simp add: refuse_def)

lemma refuse_records:
  assumes "refuse pl snap req started stages d res e w = (res', err, w')"
  shows "err = Some e" "hr_Principal res' = hr_Principal res" "hr_Stages res' = stages"
    "\<exists>evs. w_events w' = w_events w @ evs \<and> one_record req res' 0 err evs"
proof -
  obtain r1 w1 where em: "emit pl snap req started stages 0 d False res (Some e) w = (r1, w1)" by fastforce
  with assms have "r1 = res'" "w1 = w'" and err: "err = Some e" by (simp_all add: refuse_def)
  with emit_records[OF em] show "err = Some e" "hr_Principal res' = hr_Principal res" "hr_Stages res' = stages"
    "\<exists>evs. w_events w' = w_events w @ evs \<and> one_record req res' 0 err evs" by auto
qed

lemma handle_served_keeps:
  assumes "\<And>w s. f (w\<lparr>w_store := s\<rparr>) = f w" "\<And>w n. f (w\<lparr>w_ticks := n\<rparr>) = f w"
    "\<And>w es. f (w\<lparr>w_events := es\<rparr>) = f w" "\<And>w m. f (w\<lparr>w_mirror := m\<rparr>) = f w"
  shows "f (snd (snd (handle_served pl snap req p started stages res d resp repl w))) = f w"
proof -
  have "f (record_tokens pl p k (forget pl t r repl w)) = f w" for k t r
    using record_tokens_keeps[of f, OF assms(1,2)] forget_keeps[of f, OF assms(1)] by metis
  then have E: "f w3 = f w" if "emit pl snap req started stages n d False r' e (record_tokens pl p k (forget pl t r repl w)) = (x, w3)"
    for n r' e k t r x w3
    using emit_keeps[of f pl snap req started stages n d False r' e _, OF assms(3,2)] that by (metis snd_conv)
  show ?thesis
    using mirror_request_keeps[of f, OF assms(4)]
    by (auto simp: handle_served_def Let_def split: prod.split dest!: E)
qed

lemma handle_served_records:
  assumes "handle_served pl snap req p started stages res d resp repl w = (res', err, w')"
  shows "err = None" "hr_Principal res' = hr_Principal res" "hr_Stages res' = stages"
    "hr_Body res' = Restore (resp_Body resp) repl"
    "\<exists>evs. w_events w' = w_events w @ evs \<and> one_record req res' (length repl) err evs"
proof -
  define w2 where "w2 = record_tokens pl p (usage_Total (resp_Usage resp)) (forget pl (p_Tenant p) (RequestID (rq_Meta req)) repl w)"
  define res1 where "res1 = res\<lparr>hr_Deployment := dep_ID d, hr_Route := dep_Key d, hr_StatusCode := resp_StatusCode resp,
                     hr_Body := Restore (resp_Body resp) repl, hr_Usage := resp_Usage resp\<rparr>"
  have w2: "w_events w2 = w_events w"
    unfolding w2_def by (simp add: record_tokens_keeps[of w_events] forget_keeps[of w_events])
  obtain r3 w3 where em: "emit pl snap req started stages (length repl) d False res1 None w2 = (r3, w3)" by fastforce
  with assms have eq: "r3 = res'" "err = None" "w' = mirror_request pl snap d req p w3"
    by (simp_all add: handle_served_def Let_def w2_def res1_def)
  have "w_events w' = w_events w3" by (simp add: eq(3) mirror_request_keeps[of w_events])
  with emit_records[OF em] eq(1,2) w2 show "err = None" "hr_Principal res' = hr_Principal res" "hr_Stages res' = stages"
    "hr_Body res' = Restore (resp_Body resp) repl"
    "\<exists>evs. w_events w' = w_events w @ evs \<and> one_record req res' (length repl) err evs"
    by (auto simp: res1_def)
qed

text \<open>The four facts each phase hands to the next, about a worker before and after.\<close>

definition recorded :: "request \<Rightarrow> handle_result \<Rightarrow> go_error option \<Rightarrow> 's worker \<Rightarrow> 's worker \<Rightarrow> bool" where
  "recorded req res err w w' = (\<exists>n evs. w_events w' = w_events w @ evs \<and> one_record req res n err evs)"

definition protected_calls ::
  "'s pipeline \<Rightarrow> principal \<Rightarrow> request \<Rightarrow> deployment set \<Rightarrow> provider_call list \<Rightarrow> bool" where
  "protected_calls pl p req ds calls =
     list_all (\<lambda>c. call_Deployment c \<in> ds \<and> call_Meta c = rq_Meta req \<and>
                   (\<exists>repl. protected_as pl p req (call_Deployment c) (call_Body c) repl)) calls"

definition restored_from :: "'s pipeline \<Rightarrow> principal \<Rightarrow> request \<Rightarrow> 's worker \<Rightarrow> string \<Rightarrow> bool" where
  \<comment> \<open>The body is the answer of the last call made, restored with that call's own replacements.\<close>
  "restored_from pl p req w body =
     (\<exists>before c n left resp repl. w_sent w = before @ [c] \<and> pl_invoke pl n left c = Inr resp \<and>
        protected_as pl p req (call_Deployment c) (call_Body c) repl \<and> body = Restore (resp_Body resp) repl)"

lemma recorded_events: "w_events w1 = w_events w \<Longrightarrow> recorded req res err w1 w' = recorded req res err w w'"
  by (simp add: recorded_def)

lemma recorded_meta:
  assumes "rq_Meta req' = rq_Meta req"
  shows "recorded req' res err w w' = recorded req res err w w'"
  unfolding recorded_def one_record_meta[OF assms] ..

lemma restored_from_sent: "w_sent w1 = w_sent w \<Longrightarrow> restored_from pl p req w1 = restored_from pl p req w"
  by (intro ext) (simp add: restored_from_def)

lemma refuse_recorded:
  "refuse pl snap req started stages d res e w = (res', err, w') \<Longrightarrow> recorded req res' err w w'"
  unfolding recorded_def using refuse_records(4) by blast

lemma handle_served_recorded:
  "handle_served pl snap req p started stages res d resp repl w = (res', err, w') \<Longrightarrow> recorded req res' err w w'"
  unfolding recorded_def using handle_served_records(5) by blast

lemma adapt_calls:
  assumes "adapt pl cs req p stream w = (atts, out, repl, w')"
  obtains calls where "w_sent w' = w_sent w @ calls" "protected_calls pl p req (c_Deployment ` set cs) calls"
  using adapt_sent[OF assms] unfolding sent_ok_def protected_calls_def by (elim exE conjE) (simp only: fst_conv)

lemma adapt_restored:
  assumes "adapt pl cs req p False w = (atts, Inr (d, resp), repl, w')"
  shows "restored_from pl p req w' (Restore (resp_Body (served_body resp)) repl)"
proof -
  from adapt_served[OF assms] obtain before c n left r where "w_sent w' = before @ [c]" "call_Deployment c = d"
    "protected_as pl p req d (call_Body c) repl" "pl_invoke pl n left c = Inr r" "resp = Whole r" by blast
  then show ?thesis unfolding restored_from_def by (metis served_body.simps(1))
qed

lemma handle_routed_facts:
  assumes "handle_routed pl snap req p started stages res cs w = (res', err, w')"
  shows "hr_Principal res' = hr_Principal res" "recorded req res' err w w'" "w_limiter w' = w_limiter w"
    "\<exists>calls. w_sent w' = w_sent w @ calls \<and> protected_calls pl p req (c_Deployment ` set cs) calls"
    "err = None \<Longrightarrow> restored_from pl p req w' (hr_Body res')"
proof -
  obtain atts out repl w1 where a: "adapt pl cs req p False w = (atts, out, repl, w1)" by (metis prod_cases4)
  have k: "w_events w1 = w_events w" "w_limiter w1 = w_limiter w"
    using adapt_keeps[of w_events, OF _ _ _ _ a] adapt_keeps[of w_limiter, OF _ _ _ _ a] by simp_all
  let ?r1 = "res\<lparr>hr_Deployment := dep_ID (c_Deployment (cs ! 0)), hr_Route := dep_Key (c_Deployment (cs ! 0))\<rparr>"
  have all: "hr_Principal res' = hr_Principal res \<and> recorded req res' err w1 w' \<and>
     w_limiter w' = w_limiter w1 \<and> w_sent w' = w_sent w1 \<and> (err = None \<longrightarrow> restored_from pl p req w1 (hr_Body res'))"
  proof (cases out)
    case (Inl e)
    define st where "st = stages @ [stage pl ''adapt'' (Some e)]"
    have r: "refuse pl snap req started st (c_Deployment (cs ! 0)) ?r1 e w1 = (res', err, w')"
      using assms a Inl by (simp add: handle_routed_def Let_def st_def)
    have "w_limiter w' = w_limiter w1" "w_sent w' = w_sent w1"
      using refuse_keeps[of w_limiter pl snap req started st "c_Deployment (cs ! 0)" ?r1 e w1]
        refuse_keeps[of w_sent pl snap req started st "c_Deployment (cs ! 0)" ?r1 e w1] r by simp_all
    with refuse_records(1,2)[OF r] refuse_recorded[OF r] show ?thesis by simp
  next
    case (Inr x)
    obtain d resp where x: "x = (d, resp)" by fastforce
    define st where "st = stages @ [stage pl ''adapt'' None]"
    have h: "handle_served pl snap req p started st ?r1 d (served_body resp) repl w1 = (res', err, w')"
      using assms a Inr x by (simp add: handle_routed_def Let_def st_def)
    have "w_sent w' = w_sent w1" "w_limiter w' = w_limiter w1"
      using handle_served_keeps[of w_sent pl snap req p started st ?r1 d "served_body resp" repl w1]
        handle_served_keeps[of w_limiter pl snap req p started st ?r1 d "served_body resp" repl w1] h by simp_all
    with handle_served_records(2,4)[OF h] handle_served_recorded[OF h] adapt_restored[OF a[unfolded Inr x]]
    show ?thesis by simp
  qed
  obtain calls where "w_sent w1 = w_sent w @ calls" "protected_calls pl p req (c_Deployment ` set cs) calls"
    using adapt_calls[OF a] by blast
  with all k recorded_events[of w1 w] restored_from_sent[of w' w1]
  show "hr_Principal res' = hr_Principal res" "recorded req res' err w w'" "w_limiter w' = w_limiter w"
    "\<exists>calls. w_sent w' = w_sent w @ calls \<and> protected_calls pl p req (c_Deployment ` set cs) calls"
    "err = None \<Longrightarrow> restored_from pl p req w' (hr_Body res')"
    by simp_all
qed

definition authorised :: "'s pipeline \<Rightarrow> snapshot \<Rightarrow> principal \<Rightarrow> request \<Rightarrow> deployment \<Rightarrow> bool" where
  \<comment> \<open>A deployment of the model asked for, serving, on the request's endpoint, above both trust floors.\<close>
  "authorised pl snap p req d =
     (d \<in> set (targets_of (route_input pl snap p req)) \<and> Serving d \<and>
      AtLeast (dep_TrustTier d) (snap_MinTrustTier snap (p_Tenant p)) \<and> AtLeast (dep_TrustTier d) (p_MinTrustTier p) \<and>
      (case pl_providers pl (dep_Provider d) of None \<Rightarrow> False | Some eps \<Rightarrow> m_Endpoint (rq_Meta req) \<in> set eps))"

lemma floor_tier_bounds: "AtLeast t (floor_tier snap p) \<Longrightarrow> AtLeast t (snap_MinTrustTier snap (p_Tenant p)) \<and> AtLeast t (p_MinTrustTier p)"
  by (auto simp: floor_tier_def AtLeast_def split: if_splits)

lemma route_authorised:
  assumes "route pl snap p req w = (Inr cs, w')" "d \<in> c_Deployment ` set cs"
  shows "authorised pl snap p req d"
proof -
  let ?inp = "route_input pl snap p req"
  from assms(1) obtain r' where s: "Select (pl_providers pl) (w_router (snd (tick pl w))) (fst (tick pl w)) (pl_draw pl) ?inp = (r', Inr cs)"
    by (auto simp: route_def split: prod.splits)
  have "d \<in> set (filter (eligible (pl_providers pl) ?inp) (targets_of ?inp))"
    using assms(2) Select_Inr(1)[OF s] by (metis image_set set_mset_mset)
  then have "eligible (pl_providers pl) ?inp d" "d \<in> set (targets_of ?inp)" by auto
  then show ?thesis using floor_tier_bounds[of "dep_TrustTier d" snap p]
    by (auto simp: eligible_def authorised_def route_input_def split: option.splits)
qed

lemma authorised_body: "authorised pl snap p (req\<lparr>rq_Body := b\<rparr>) d = authorised pl snap p req d"
  by (simp add: authorised_def route_input_def split: option.split)

lemma protected_calls_mono:
  "protected_calls pl p req ds calls \<Longrightarrow> (\<And>d. d \<in> ds \<Longrightarrow> d \<in> es) \<Longrightarrow> protected_calls pl p req es calls"
  unfolding protected_calls_def by (auto simp: list_all_iff)

lemma handle_admitted_facts:
  assumes "handle_admitted pl snap req p started stages res w = (res', err, w')"
  shows "hr_Principal res' = hr_Principal res" "recorded req res' err w w'" "w_limiter w' = w_limiter w"
    "\<exists>body calls. fst (guard pl snap p req w) = Inr body \<and> w_sent w' = w_sent w @ calls \<and>
        protected_calls pl p (req\<lparr>rq_Body := body\<rparr>) {d. authorised pl snap p req d} calls \<and>
        (err = None \<longrightarrow> restored_from pl p (req\<lparr>rq_Body := body\<rparr>) w' (hr_Body res')) \<or>
      err \<noteq> None \<and> w_sent w' = w_sent w"
proof -
  obtain g w1 where gd: "guard pl snap p req w = (g, w1)" by fastforce
  have k1: "w_events w1 = w_events w" "w_limiter w1 = w_limiter w" "w_sent w1 = w_sent w"
    using guard_keeps[of w_events pl snap p req w] guard_keeps[of w_limiter pl snap p req w] guard_keeps[of w_sent pl snap p req w]
    by (simp_all add: gd)
  have ref: "hr_Principal res' = hr_Principal res \<and> recorded rq res' err v w' \<and> w_limiter w' = w_limiter v \<and>
      err \<noteq> None \<and> w_sent w' = w_sent v"
    if "refuse pl snap rq started st zero_deployment res e v = (res', err, w')" for rq st e v
    using refuse_records(1,2)[OF that] refuse_recorded[OF that] refuse_keeps[of w_limiter pl snap rq started st zero_deployment res e v]
      refuse_keeps[of w_sent pl snap rq started st zero_deployment res e v] that by simp
  have "hr_Principal res' = hr_Principal res \<and> recorded req res' err w w' \<and> w_limiter w' = w_limiter w \<and>
    ((\<exists>body calls. g = Inr body \<and> w_sent w' = w_sent w @ calls \<and>
        protected_calls pl p (req\<lparr>rq_Body := body\<rparr>) {d. authorised pl snap p req d} calls \<and>
        (err = None \<longrightarrow> restored_from pl p (req\<lparr>rq_Body := body\<rparr>) w' (hr_Body res'))) \<or>
      err \<noteq> None \<and> w_sent w' = w_sent w)"
  proof (cases g)
    case (Inl e)
    from assms have "refuse pl snap req started (stages @ [stage pl ''guard'' (Some e)]) zero_deployment res e w1 = (res', err, w')"
      by (simp add: handle_admitted_def gd Inl)
    from ref[OF this] k1 recorded_events[of w1 w] show ?thesis by simp
  next
    case (Inr body)
    let ?q = "req\<lparr>rq_Body := body\<rparr>" and ?st = "stages @ [stage pl ''guard'' None]"
    have meta: "recorded ?q res' err w w' = recorded req res' err w w'" by (simp add: recorded_meta[of ?q req])
    obtain rt w2 where r: "route pl snap p ?q w1 = (rt, w2)" by fastforce
    have k2: "w_events w2 = w_events w1" "w_limiter w2 = w_limiter w1" "w_sent w2 = w_sent w1"
      using route_keeps[of w_events pl snap p ?q w1] route_keeps[of w_limiter pl snap p ?q w1] route_keeps[of w_sent pl snap p ?q w1]
      by (simp_all add: r)
    show ?thesis
    proof (cases rt)
      case (Inl e)
      from assms have "refuse pl snap ?q started (?st @ [stage pl ''route'' (Some e)]) zero_deployment res e w2 = (res', err, w')"
        by (simp add: handle_admitted_def gd Inr Let_def r Inl)
      from ref[OF this] k1 k2 recorded_events[of w2 w] meta show ?thesis by simp
    next
      case (Inr cs)
      from assms have h: "handle_routed pl snap ?q p started (?st @ [stage pl ''route'' None]) res cs w2 = (res', err, w')"
        by (simp add: handle_admitted_def gd \<open>g = Inr body\<close> Let_def r Inr)
      from handle_routed_facts(4)[OF h] obtain calls where c: "w_sent w' = w_sent w2 @ calls"
        "protected_calls pl p ?q (c_Deployment ` set cs) calls" by blast
      have "protected_calls pl p ?q {d. authorised pl snap p req d} calls"
        by (rule protected_calls_mono[OF c(2)]) (use route_authorised[OF r[unfolded Inr]] authorised_body in blast)
      with c(1) k1 k2 handle_routed_facts(1,2,3,5)[OF h] recorded_events[of w2 w] meta \<open>g = Inr body\<close>
      show ?thesis by auto
    qed
  qed
  then show "hr_Principal res' = hr_Principal res" "recorded req res' err w w'" "w_limiter w' = w_limiter w"
    "\<exists>body calls. fst (guard pl snap p req w) = Inr body \<and> w_sent w' = w_sent w @ calls \<and>
        protected_calls pl p (req\<lparr>rq_Body := body\<rparr>) {d. authorised pl snap p req d} calls \<and>
        (err = None \<longrightarrow> restored_from pl p (req\<lparr>rq_Body := body\<rparr>) w' (hr_Body res')) \<or>
      err \<noteq> None \<and> w_sent w' = w_sent w"
    by (auto simp: gd)
qed

lemma applyPolicy_meta:
  "applyPolicy pl snap p req c = (Inr (p', req'), c') \<Longrightarrow>
   rq_Meta req' = rq_Meta req \<and> rq_Body req' = rq_Body req \<and> p_KeyID p' = p_KeyID p \<and> p_Tenant p' = p_Tenant p \<and>
   p_Limits p' = p_Limits p \<and> p_MinTrustTier p \<le> p_MinTrustTier p' \<and>
   p_Models p' = p_Models p \<and> p_Budgets p' = p_Budgets p"
  by (auto simp: applyPolicy_def stamp_def Let_def split: if_splits prod.splits sum.splits)

lemma admit_Inr:
  assumes "admit pl snap p req w = (Inr (p', req'), w')"
  shows "\<exists>c dec. applyPolicy pl snap p req (w_policies w) = (Inr (p', req'), c) \<and> Permits (p_Models p) (m_Model (rq_Meta req)) \<and>
           DeniedBudget snap p' = None \<and> limiter_Admit pl p' (w\<lparr>w_policies := c\<rparr>) = (dec, w') \<and> ld_Allowed dec"
  using assms by (auto simp: admit_def Let_def split: if_splits prod.splits sum.splits option.splits)

lemma Handle_cases:
  obtains (unauthenticated) e now started w2 stages where "authenticate pl snap req now = Inl e"
      "Handle pl snap req w = refuse pl snap req started stages zero_deployment zero_result e w2"
      "w2 = w\<lparr>w_ticks := Suc (Suc (w_ticks w))\<rparr>"
  | (refused) p e now started w2 w3 stages where "authenticate pl snap req now = Inr p"
      "w2 = w\<lparr>w_ticks := Suc (Suc (w_ticks w))\<rparr>" "admit pl snap p req w2 = (Inl e, w3)"
      "Handle pl snap req w = refuse pl snap req started stages zero_deployment (zero_result\<lparr>hr_Principal := p\<rparr>) e w3"
  | (admitted) p p' req' now started w2 w3 stages res err w4 where "authenticate pl snap req now = Inr p"
      "w2 = w\<lparr>w_ticks := Suc (Suc (w_ticks w))\<rparr>" "admit pl snap p req w2 = (Inr (p', req'), w3)"
      "handle_admitted pl snap req' p' started stages (zero_result\<lparr>hr_Principal := p\<rparr>) w3 = (res, err, w4)"
      "Handle pl snap req w = (res, err, release_limit p' w4)"
proof -
  define started where "started = pl_clock pl (w_ticks w)"
  define now where "now = pl_clock pl (Suc (w_ticks w))"
  define w2 where "w2 = w\<lparr>w_ticks := Suc (Suc (w_ticks w))\<rparr>"
  note H = Handle_def[of pl snap req w, unfolded tick_def, simplified, folded started_def now_def w2_def]
  show ?thesis
  proof (cases "authenticate pl snap req now")
    case (Inl e)
    then have "Handle pl snap req w = refuse pl snap req started [stage pl ''authenticate'' (Some e)] zero_deployment zero_result e w2"
      using H by (simp add: w2_def)
    with Inl show ?thesis using unauthenticated[OF _ _ w2_def] by blast
  next
    case (Inr p)
    obtain out w3 where a: "admit pl snap p req w2 = (out, w3)" by fastforce
    show ?thesis
    proof (cases out)
      case (Inl e)
      with H Inr a have "Handle pl snap req w = refuse pl snap req started
          ([stage pl ''authenticate'' None] @ [stage pl ''admit'' (Some e)]) zero_deployment (zero_result\<lparr>hr_Principal := p\<rparr>) e w3"
        by (simp add: Let_def w2_def)
      with Inr a Inl show ?thesis using refused[OF _ w2_def] by blast
    next
      case (Inr x)
      obtain p' req' where x: "x = (p', req')" by fastforce
      obtain res err w4 where h: "handle_admitted pl snap req' p' started ([stage pl ''authenticate'' None] @ [stage pl ''admit'' None])
          (zero_result\<lparr>hr_Principal := p\<rparr>) w3 = (res, err, w4)" by (metis prod_cases3)
      with H Inr a x \<open>authenticate pl snap req now = Inr p\<close> have "Handle pl snap req w = (res, err, release_limit p' w4)"
        by (simp add: Let_def w2_def)
      with Inr a x h \<open>authenticate pl snap req now = Inr p\<close> show ?thesis using admitted[OF _ w2_def] by blast
    qed
  qed
qed

section \<open>Properties\<close>



text \<open>What costs nothing is checked first: \<open>admit\<close> touches the rate limiter or the store only
  once the allowlist permits the model, the policy allows the request and no budget denies it, so a
  request refused by a free check never spends a permit or a slot.\<close>

lemma admit_free_checks_first:
  "case admit pl snap p req w of (out, w') \<Rightarrow>
     (w_limiter w' = w_limiter w \<and> w_store w' = w_store w) \<or>
     (Permits (p_Models p) (m_Model (rq_Meta req)) \<and>
      (\<exists>p' req' c. applyPolicy pl snap p req (w_policies w) = (Inr (p', req'), c) \<and> DeniedBudget snap p' = None))"
  by (auto simp: admit_def Let_def split: prod.split sum.split option.split)

text \<open>Claim C1. Every payload that leaves the gateway for a buffered request goes to a deployment the
  request is entitled to, in the form that deployment requires. All calls a \<open>Handle\<close> makes, retries
  included, are to serving deployments of the requested model on the right endpoint, at or above both
  the tenant's and the principal's trust floor as raised by policy, and each body is the guarded
  payload transformed for that very deployment's trust tier.\<close>

theorem Handle_sends_only_where_allowed:
  "case Handle pl snap req w of (res, err, w') \<Rightarrow>
     \<exists>calls. w_sent w' = w_sent w @ calls \<and>
       (calls = [] \<or>
        (\<exists>now p p' req' body v. authenticate pl snap req now = Inr p \<and>
           fst (admit pl snap p req (w\<lparr>w_ticks := v\<rparr>)) = Inr (p', req') \<and>
           fst (guard pl snap p' req' (snd (admit pl snap p req (w\<lparr>w_ticks := v\<rparr>)))) = Inr body \<and>
           protected_calls pl p' (req'\<lparr>rq_Body := body\<rparr>) {d. authorised pl snap p' req' d} calls))"
proof (cases rule: Handle_cases[of pl snap req w])
  case (unauthenticated e now started w2 stages)
  then show ?thesis
    using refuse_keeps[of w_sent pl snap req started stages zero_deployment zero_result e w2]
    by (auto split: prod.split)
next
  case (refused p e now started w2 w3 stages)
  have "w_sent w3 = w_sent w" using admit_keeps[of w_sent pl snap p req w2] refused(2,3) by simp
  with refused(4) show ?thesis
    using refuse_keeps[of w_sent pl snap req started stages zero_deployment "zero_result\<lparr>hr_Principal := p\<rparr>" e w3]
    by (auto split: prod.split)
next
  case (admitted p p' req' now started w2 w3 stages res err w4)
  have s: "w_sent w3 = w_sent w" using admit_keeps[of w_sent pl snap p req w2] admitted(2,3) by simp
  have r: "w_sent (release_limit p' w4) = w_sent w4" by (simp add: release_limit_def)
  from handle_admitted_facts(4)[OF admitted(4)] show ?thesis
  proof (elim disjE exE conjE)
    fix body calls
    assume c: "fst (guard pl snap p' req' w3) = Inr body" "w_sent w4 = w_sent w3 @ calls"
      "protected_calls pl p' (req'\<lparr>rq_Body := body\<rparr>) {d. authorised pl snap p' req' d} calls"
    have ad: "admit pl snap p req (w\<lparr>w_ticks := Suc (Suc (w_ticks w))\<rparr>) = (Inr (p', req'), w3)"
      using admitted(2,3) by simp
    show ?thesis unfolding admitted(5) prod.case r c(2) s
      by (intro exI[of _ calls] conjI refl disjI2 exI[of _ now] exI[of _ p] exI[of _ p'] exI[of _ req'] exI[of _ body]
          exI[of _ "Suc (Suc (w_ticks w))"]) (simp_all add: ad c admitted(1))
  next
    assume "w_sent w4 = w_sent w3"
    then show ?thesis by (simp add: admitted(5) r s)
  qed
qed



lemma Handle_recorded:
  assumes h: "Handle pl snap req w = (res, err, w')"
  shows "recorded req res err w w'"
proof (cases rule: Handle_cases[of pl snap req w])
  case (unauthenticated e now started w2 stages)
  with refuse_recorded[OF unauthenticated(2)[unfolded h, symmetric]] show ?thesis
    using recorded_events[of w2 w] by simp
next
  case (refused p e now started w2 w3 stages)
  have "w_events w3 = w_events w" using admit_keeps[of w_events pl snap p req w2] refused(2,3) by simp
  with refuse_recorded[OF refused(4)[unfolded h, symmetric]] show ?thesis using recorded_events[of w3 w] by simp
next
  case (admitted p p' req' now started w2 w3 stages res' err' w4)
  have e3: "w_events w3 = w_events w" using admit_keeps[of w_events pl snap p req w2] admitted(2,3) by simp
  from admitted(5) h have eq: "res' = res" "err' = err" "w' = release_limit p' w4" by simp_all
  have "rq_Meta req' = rq_Meta req" using admit_Inr[OF admitted(3)] applyPolicy_meta by metis
  then have "recorded req' res' err' w3 w4 = recorded req res' err' w3 w4" by (simp add: recorded_meta[of req' req])
  with handle_admitted_facts(2)[OF admitted(4)] e3 eq show ?thesis
    by (simp add: recorded_def release_limit_def)
qed

text \<open>Every buffered request leaves exactly one record, on every exit path: one usage event with
  the request's id, its principal's tenant and key, the timings of the stages it reached and the code
  it was answered with, followed by one audit event exactly when the outcome is auditable.\<close>

lemma Handle_records_once:
  "case Handle pl snap req w of (res, err, w') \<Rightarrow>
     \<exists>n evs. w_events w' = w_events w @ evs \<and> one_record req res n err evs"
  using Handle_recorded[of pl snap req w] by (auto simp: recorded_def split: prod.split)

section \<open>Concurrency slots\<close>

definition slot_count :: "'s worker \<Rightarrow> string \<Rightarrow> int" where
  "slot_count w key = (case w_limiter w of None \<Rightarrow> 0 | Some l \<Rightarrow> gomap_get 0 (lim_concurrent l) key)"

text \<open>
  The counts a worker holds between requests: none negative, and none for a key that has no
  concurrency limit.
\<close>

definition slots_wf :: "'s worker \<Rightarrow> principal \<Rightarrow> bool" where
  "slots_wf w p = (0 \<le> slot_count w (p_KeyID p) \<and> (MaxConcurrent (p_Limits p) = 0 \<longrightarrow> slot_count w (p_KeyID p) = 0))"

lemma limiter_Admit_count:
  assumes "limiter_Admit pl p w = (dec, w')" "slots_wf w p"
  shows "slot_count w' key = slot_count w key +
           (if ld_Allowed dec \<and> key = p_KeyID p \<and> MaxConcurrent (p_Limits p) > 0 \<and> w_limiter w \<noteq> None then 1 else 0)"
proof (cases "w_limiter w")
  case None
  with assms(1) show ?thesis by (simp add: limiter_Admit_def slot_count_def)
next
  case (Some l)
  obtain l' s' where a: "Admit (pl_kv pl) l (w_store w) (pl_clock pl (w_ticks w)) p = (dec, l', s')" and w': "w_limiter w' = Some l'"
    using assms(1) Some by (auto simp: limiter_Admit_def tick_def split: prod.splits)
  show ?thesis
  proof (cases "key = p_KeyID p")
    case True
    then show ?thesis
      using Admit_slots[OF a] Admit_slots_unbounded[OF a] assms(2) Some w'
      by (cases "MaxConcurrent (p_Limits p) = 0") (auto simp: slot_count_def slots_wf_def)
  next
    case False
    then show ?thesis
      using Admit_slots_other[OF a, of "p\<lparr>p_KeyID := key\<rparr>"] Some w' by (simp add: slot_count_def)
  qed
qed

lemma release_count:
  assumes "0 < slot_count w (p_KeyID p) \<or> MaxConcurrent (p_Limits p) = 0 \<or> w_limiter w = None"
  shows "slot_count (release_limit p w) key =
           slot_count w key - (if key = p_KeyID p \<and> MaxConcurrent (p_Limits p) > 0 \<and> w_limiter w \<noteq> None then 1 else 0)"
proof (cases "w_limiter w")
  case None
  then show ?thesis by (simp add: release_limit_def slot_count_def)
next
  case (Some l)
  then show ?thesis
    using assms releaseSlot_slots[of l p] releaseSlot_other[of "p\<lparr>p_KeyID := key\<rparr>" p l]
    by (cases "key = p_KeyID p") (auto simp: release_limit_def slot_count_def limiter_Release_def)
qed

lemma slot_count_limiter: "w_limiter w' = w_limiter w \<Longrightarrow> slot_count w' key = slot_count w key"
  by (simp add: slot_count_def)

lemma admit_count:
  assumes "admit pl snap p req w = (out, w')" "slots_wf w p"
  shows "slot_count w' key = slot_count w key +
    (if isl out \<or> key \<noteq> p_KeyID p \<or> MaxConcurrent (p_Limits p) = 0 \<or> w_limiter w = None then 0 else 1)"
    "w_limiter w' = None \<longleftrightarrow> w_limiter w = None"
proof -
  have same: "slot_count v key = slot_count w key \<and> (w_limiter v = None \<longleftrightarrow> w_limiter w = None)"
    if "w_limiter v = w_limiter w" for v using that by (simp add: slot_count_def)
  obtain pol cache where a: "applyPolicy pl snap p req (w_policies w) = (pol, cache)" by fastforce
  define w1 where "w1 = w\<lparr>w_policies := cache\<rparr>"
  have w1: "w_limiter w1 = w_limiter w" by (simp add: w1_def)
  have "slot_count w' key = slot_count w key +
    (if isl out \<or> key \<noteq> p_KeyID p \<or> MaxConcurrent (p_Limits p) = 0 \<or> w_limiter w = None then 0 else 1) \<and>
    (w_limiter w' = None \<longleftrightarrow> w_limiter w = None)"
  proof (cases "\<exists>p' req'. Permits (p_Models p) (m_Model (rq_Meta req)) \<and> pol = Inr (p', req') \<and> DeniedBudget snap p' = None")
    case False
    then have "isl out \<and> w_limiter w' = w_limiter w"
      using assms(1) a by (auto simp: admit_def Let_def split: if_splits sum.splits prod.splits option.splits)
    then show ?thesis using same[of w'] by simp
  next
    case True
    then obtain p' req' where p: "Permits (p_Models p) (m_Model (rq_Meta req))" "pol = Inr (p', req')" "DeniedBudget snap p' = None"
      by blast
    obtain dec w2 where l: "limiter_Admit pl p' w1 = (dec, w2)" by fastforce
    have out: "w' = w2" "isl out \<longleftrightarrow> \<not> ld_Allowed dec"
      using assms(1) a p l by (auto simp: admit_def Let_def w1_def[symmetric] split: if_splits)
    have eq: "p_KeyID p' = p_KeyID p" "p_Limits p' = p_Limits p" using applyPolicy_meta a p(2) by blast+
    have "slots_wf w1 p'" using assms(2) eq w1 by (simp add: slots_wf_def slot_count_def)
    from limiter_Admit_count[OF l this, of key] w1 out eq
    have "slot_count w' key = slot_count w key +
      (if isl out \<or> key \<noteq> p_KeyID p \<or> MaxConcurrent (p_Limits p) = 0 \<or> w_limiter w = None then 0 else 1)"
      using slot_count_limiter[OF w1] by auto
    moreover have "w_limiter w' = None \<longleftrightarrow> w_limiter w = None"
      using l w1 out(1) by (auto simp: limiter_Admit_def tick_def split: option.splits prod.splits)
    ultimately show ?thesis by blast
  qed
  then show "slot_count w' key = slot_count w key +
    (if isl out \<or> key \<noteq> p_KeyID p \<or> MaxConcurrent (p_Limits p) = 0 \<or> w_limiter w = None then 0 else 1)"
    "w_limiter w' = None \<longleftrightarrow> w_limiter w = None" by blast+
qed




end
