(* ===== verification/Stream_Laws.thy ===== *)
theory Stream_Laws
  imports Pipeline_Laws
begin

text \<open>
  What the streaming path guarantees: the same destinations and the same protection as a buffered
  request, one record per request however the stream ends, and one release of the slot, on \<open>Finish\<close>.
  The two calls a mirrored request makes are at the end.
\<close>

section \<open>The streaming handler, phase by phase\<close>

lemma stream_refuse_facts:
  assumes "stream_refuse pl snap req started stages sr e w = (sr', err, w')"
  shows "sr' = sr" "err = Some e" "w_limiter w' = w_limiter w" "w_sent w' = w_sent w"
    "\<exists>res. recorded req res err w w' \<and> hr_Principal res = so_Principal sr"
proof -
  let ?r = "zero_result\<lparr>hr_Principal := so_Principal sr, hr_Deployment := so_Deployment sr, hr_Route := so_Route sr\<rparr>"
  obtain res v where em: "emit pl snap req started stages 0 (so_deployment sr) True ?r (Some e) w = (res, v)" by fastforce
  with assms have eq: "sr' = sr" "err = Some e" "w' = v" by (simp_all add: stream_refuse_def)
  show "sr' = sr" "err = Some e" by (rule eq)+
  show "w_limiter w' = w_limiter w" "w_sent w' = w_sent w"
    using emit_keeps[of w_limiter pl snap req started stages 0 "so_deployment sr" True ?r "Some e" w]
      emit_keeps[of w_sent pl snap req started stages 0 "so_deployment sr" True ?r "Some e" w] em eq(3) by simp_all
  show "\<exists>res. recorded req res err w w' \<and> hr_Principal res = so_Principal sr"
    using emit_records(1,2)[OF em] eq(2,3) unfolding recorded_def by auto
qed

text \<open>
  What a started or refused stream is: on error nothing is left for \<open>Finish\<close> to record; on success
  nothing has been recorded yet. In both cases \<open>Finish\<close> will release the slot of the principal admitted.
\<close>

definition stream_state ::
  "request \<Rightarrow> principal option \<Rightarrow> stream_result \<Rightarrow> go_error option \<Rightarrow> 's worker \<Rightarrow> 's worker \<Rightarrow> bool" where
  "stream_state req holder sr err w w' =
     (so_releaseLimit sr = holder \<and> \<not> so_finished sr \<and>
      (case err of
         Some e \<Rightarrow> so_finish sr = None \<and> so_forget sr = None \<and>
           (\<exists>res. recorded req res err w w' \<and> hr_Principal res = so_Principal sr)
       | None \<Rightarrow> w_events w' = w_events w \<and>
           (\<exists>req' p t n. so_finish sr = Some (req', p, t, n) \<and> rq_Meta req' = rq_Meta req)))"

lemma stream_state_meta:
  assumes "rq_Meta req' = rq_Meta req" "stream_state req' h sr err w w'"
  shows "stream_state req h sr err w w'"
  using assms(2) unfolding stream_state_def recorded_meta[OF assms(1)] assms(1) .

lemma stream_state_events:
  assumes "w_events w1 = w_events w" "stream_state req h sr err w1 w'"
  shows "stream_state req h sr err w w'"
  using assms(2) unfolding stream_state_def recorded_events[OF assms(1)] assms(1) .

lemma stream_refuse_state:
  assumes "stream_refuse pl snap req started stages sr e w = (sr', err, w')"
    "so_finish sr = None" "so_forget sr = None" "\<not> so_finished sr"
  shows "stream_state req (so_releaseLimit sr) sr' err w w'"
  using stream_refuse_facts[OF assms(1)] assms(2-4) by (simp add: stream_state_def)

lemma stream_routed_facts:
  assumes "stream_routed pl snap req p started stages sr cs w = (sr', err, w')"
    "so_finish sr = None" "so_forget sr = None" "\<not> so_finished sr"
  shows "stream_state req (so_releaseLimit sr) sr' err w w'" "w_limiter w' = w_limiter w" "so_Principal sr' = so_Principal sr"
    "\<exists>calls. w_sent w' = w_sent w @ calls \<and> protected_calls pl p req (c_Deployment ` set cs) calls"
proof -
  obtain atts out repl w1 where a: "adapt pl cs req p True w = (atts, out, repl, w1)" by (metis prod_cases4)
  have k: "w_events w1 = w_events w" "w_limiter w1 = w_limiter w"
    using adapt_keeps[of w_events, OF _ _ _ _ a] adapt_keeps[of w_limiter, OF _ _ _ _ a] by simp_all
  have "stream_state req (so_releaseLimit sr) sr' err w1 w' \<and> w_limiter w' = w_limiter w1 \<and> w_sent w' = w_sent w1 \<and>
        so_Principal sr' = so_Principal sr"
  proof (cases out)
    case (Inl e)
    let ?sr = "if atts \<noteq> [] then sr\<lparr>so_Deployment := att_Deployment (last atts)\<rparr> else sr"
    have r: "stream_refuse pl snap req started (stages @ [stage pl ''adapt'' (Some e)]) ?sr e w1 = (sr', err, w')"
      using assms(1) a Inl by (simp add: stream_routed_def)
    show ?thesis
      using stream_refuse_state[OF r] stream_refuse_facts(1,3,4)[OF r] assms(2-4) by (cases "atts = []") simp_all
  next
    case (Inr x)
    obtain d resp where x: "x = (d, resp)" by fastforce
    with assms a Inr have "err = None" "w' = w1" "so_releaseLimit sr' = so_releaseLimit sr" "so_Principal sr' = so_Principal sr"
      "\<not> so_finished sr'" "so_finish sr' = Some (req, p, started, length repl)"
      by (auto simp: stream_routed_def)
    then show ?thesis by (simp add: stream_state_def)
  qed
  moreover obtain calls where "w_sent w1 = w_sent w @ calls" "protected_calls pl p req (c_Deployment ` set cs) calls"
    using adapt_calls[OF a] by blast
  ultimately show "stream_state req (so_releaseLimit sr) sr' err w w'" "w_limiter w' = w_limiter w"
    "so_Principal sr' = so_Principal sr"
    "\<exists>calls. w_sent w' = w_sent w @ calls \<and> protected_calls pl p req (c_Deployment ` set cs) calls"
    using k stream_state_events[OF k(1)] by auto
qed

lemma stream_admitted_facts:
  assumes "stream_admitted pl snap req p started stages sr w = (sr', err, w')"
    "so_finish sr = None" "so_forget sr = None" "\<not> so_finished sr"
  shows "stream_state req (so_releaseLimit sr) sr' err w w'" "w_limiter w' = w_limiter w" "so_Principal sr' = so_Principal sr"
    "\<exists>calls. w_sent w' = w_sent w @ calls \<and> (calls = [] \<or>
       (\<exists>body. fst (guard pl snap p req w) = Inr body \<and>
          protected_calls pl p (req\<lparr>rq_Body := body\<rparr>) {d. authorised pl snap p req d} calls))"
proof -
  let ?goal = "stream_state req (so_releaseLimit sr) sr' err w w' \<and> w_limiter w' = w_limiter w \<and> so_Principal sr' = so_Principal sr \<and>
    (\<exists>calls. w_sent w' = w_sent w @ calls \<and> (calls = [] \<or>
       (\<exists>body. fst (guard pl snap p req w) = Inr body \<and>
          protected_calls pl p (req\<lparr>rq_Body := body\<rparr>) {d. authorised pl snap p req d} calls)))"
  obtain g w1 where gd: "guard pl snap p req w = (g, w1)" by fastforce
  have k1: "w_events w1 = w_events w" "w_limiter w1 = w_limiter w" "w_sent w1 = w_sent w"
    using guard_keeps[of w_events pl snap p req w] guard_keeps[of w_limiter pl snap p req w] guard_keeps[of w_sent pl snap p req w]
    by (simp_all add: gd)
  have ref: ?goal if "stream_refuse pl snap rq started st sr e v = (sr', err, w')" "rq_Meta rq = rq_Meta req"
    "w_events v = w_events w" "w_limiter v = w_limiter w" "w_sent v = w_sent w" for rq st e v
    using stream_state_events[OF that(3) stream_state_meta[OF that(2) stream_refuse_state[OF that(1) assms(2-4)]]]
      stream_refuse_facts(1,3,4)[OF that(1)] that(4,5) by simp
  have ?goal
  proof (cases g)
    case (Inl e)
    from assms(1) have "stream_refuse pl snap req started (stages @ [stage pl ''guard'' (Some e)]) sr e w1 = (sr', err, w')"
      by (simp add: stream_admitted_def gd Inl)
    from ref[OF this refl k1] show ?thesis .
  next
    case (Inr body)
    let ?q = "req\<lparr>rq_Body := body\<rparr>" and ?st = "stages @ [stage pl ''guard'' None]"
    obtain rt w2 where r: "route pl snap p ?q w1 = (rt, w2)" by fastforce
    have k2: "w_events w2 = w_events w" "w_limiter w2 = w_limiter w" "w_sent w2 = w_sent w"
      using route_keeps[of w_events pl snap p ?q w1] route_keeps[of w_limiter pl snap p ?q w1] route_keeps[of w_sent pl snap p ?q w1] k1
      by (simp_all add: r)
    show ?thesis
    proof (cases rt)
      case (Inl e)
      from assms(1) have "stream_refuse pl snap ?q started (?st @ [stage pl ''route'' (Some e)]) sr e w2 = (sr', err, w')"
        by (simp add: stream_admitted_def gd Inr Let_def r Inl)
      from ref[OF this _ k2] show ?thesis by simp
    next
      case (Inr cs)
      from assms(1) have h: "stream_routed pl snap ?q p started (?st @ [stage pl ''route'' None]) sr cs w2 = (sr', err, w')"
        by (simp add: stream_admitted_def gd \<open>g = Inr body\<close> Let_def r Inr)
      note F = stream_routed_facts[OF h assms(2-4)]
      from F(4) obtain calls where c: "w_sent w' = w_sent w2 @ calls" "protected_calls pl p ?q (c_Deployment ` set cs) calls" by blast
      have "protected_calls pl p ?q {d. authorised pl snap p req d} calls"
        by (rule protected_calls_mono[OF c(2)]) (use route_authorised[OF r[unfolded Inr]] authorised_body in blast)
      moreover have "stream_state req (so_releaseLimit sr) sr' err w w'"
        by (rule stream_state_events[OF k2(1) stream_state_meta[OF _ F(1)]]) simp
      ultimately show ?thesis using c(1) k2 F(2,3) \<open>g = Inr body\<close> gd by auto
    qed
  qed
  then show "stream_state req (so_releaseLimit sr) sr' err w w'" "w_limiter w' = w_limiter w" "so_Principal sr' = so_Principal sr"
    "\<exists>calls. w_sent w' = w_sent w @ calls \<and> (calls = [] \<or>
       (\<exists>body. fst (guard pl snap p req w) = Inr body \<and>
          protected_calls pl p (req\<lparr>rq_Body := body\<rparr>) {d. authorised pl snap p req d} calls))" by blast+
qed

lemma HandleStream_cases:
  obtains (unauthenticated) e now started w2 stages where "authenticate pl snap req now = Inl e"
      "HandleStream pl snap req w = stream_refuse pl snap req started stages zero_stream e w2"
      "w2 = w\<lparr>w_ticks := Suc (Suc (w_ticks w))\<rparr>"
  | (refused) p e now started w2 w3 stages where "authenticate pl snap req now = Inr p"
      "w2 = w\<lparr>w_ticks := Suc (Suc (w_ticks w))\<rparr>" "admit pl snap p req w2 = (Inl e, w3)"
      "HandleStream pl snap req w = stream_refuse pl snap req started stages (zero_stream\<lparr>so_Principal := p\<rparr>) e w3"
  | (admitted) p p' req' now started w2 w3 stages where "authenticate pl snap req now = Inr p"
      "w2 = w\<lparr>w_ticks := Suc (Suc (w_ticks w))\<rparr>" "admit pl snap p req w2 = (Inr (p', req'), w3)"
      "HandleStream pl snap req w = stream_admitted pl snap req' p' started stages
         (zero_stream\<lparr>so_Principal := p, so_releaseLimit := Some p'\<rparr>) w3"
proof -
  define started where "started = pl_clock pl (w_ticks w)"
  define now where "now = pl_clock pl (Suc (w_ticks w))"
  define w2 where "w2 = w\<lparr>w_ticks := Suc (Suc (w_ticks w))\<rparr>"
  note H = HandleStream_def[of pl snap req w, unfolded tick_def, simplified, folded started_def now_def]
  show ?thesis
  proof (cases "authenticate pl snap req now")
    case (Inl e)
    then have "HandleStream pl snap req w = stream_refuse pl snap req started [stage pl ''authenticate'' (Some e)] zero_stream e w2"
      using H by (simp add: w2_def)
    with Inl show ?thesis using unauthenticated[OF _ _ w2_def] by blast
  next
    case (Inr p)
    obtain out w3 where a: "admit pl snap p req w2 = (out, w3)" by fastforce
    show ?thesis
    proof (cases out)
      case (Inl e)
      with H Inr a have "HandleStream pl snap req w = stream_refuse pl snap req started
          ([stage pl ''authenticate'' None] @ [stage pl ''admit'' (Some e)]) (zero_stream\<lparr>so_Principal := p\<rparr>) e w3"
        by (simp add: Let_def w2_def)
      with Inr a Inl show ?thesis using refused[OF _ w2_def] by blast
    next
      case (Inr x)
      obtain p' req' where x: "x = (p', req')" by fastforce
      with H Inr a \<open>authenticate pl snap req now = Inr p\<close>
      have "HandleStream pl snap req w = stream_admitted pl snap req' p' started
          ([stage pl ''authenticate'' None] @ [stage pl ''admit'' None]) (zero_stream\<lparr>so_Principal := p, so_releaseLimit := Some p'\<rparr>) w3"
        by (simp add: Let_def w2_def)
      with Inr a x \<open>authenticate pl snap req now = Inr p\<close> show ?thesis using admitted[OF _ w2_def] by blast
    qed
  qed
qed

text \<open>
  The principal whose slot \<open>Finish\<close> will release, if any: with none, the limiter is as it was or as a
  refusal by \<open>admit\<close> left it; with one, it is as the admission left it.
\<close>

definition holds_slot ::
  "'s pipeline \<Rightarrow> snapshot \<Rightarrow> request \<Rightarrow> 's worker \<Rightarrow> principal option \<Rightarrow> 's worker \<Rightarrow> bool" where
  "holds_slot pl snap req w holder w1 =
     (case holder of
        None \<Rightarrow> w_limiter w1 = w_limiter w \<or>
          (\<exists>now p e v w3. authenticate pl snap req now = Inr p \<and> admit pl snap p req (w\<lparr>w_ticks := v\<rparr>) = (Inl e, w3) \<and>
             w_limiter w1 = w_limiter w3)
      | Some p' \<Rightarrow> (\<exists>now p req' v w3. authenticate pl snap req now = Inr p \<and>
          admit pl snap p req (w\<lparr>w_ticks := v\<rparr>) = (Inr (p', req'), w3) \<and> w_limiter w1 = w_limiter w3))"

lemma HandleStream_facts:
  assumes "HandleStream pl snap req w = (sr, err, w1)"
  shows "stream_state req (so_releaseLimit sr) sr err w w1" "holds_slot pl snap req w (so_releaseLimit sr) w1"
    "so_releaseLimit sr = None \<Longrightarrow> err \<noteq> None"
proof -
  have z: "so_finish zero_stream = None" "so_forget zero_stream = None" "\<not> so_finished zero_stream" "so_releaseLimit zero_stream = None"
    by (simp_all add: zero_stream_def)
  have "stream_state req (so_releaseLimit sr) sr err w w1 \<and> holds_slot pl snap req w (so_releaseLimit sr) w1 \<and>
        (so_releaseLimit sr = None \<longrightarrow> err \<noteq> None)"
  proof (cases rule: HandleStream_cases[of pl snap req w])
    case (unauthenticated e now started w2 stages)
    note r = unauthenticated(2)[unfolded assms, symmetric]
    have "stream_state req None sr err w2 w1" using stream_refuse_state[OF r] z by simp
    then have "stream_state req None sr err w w1" by (rule stream_state_events[rotated]) (simp add: unauthenticated(3))
    then show ?thesis using stream_refuse_facts(1-3)[OF r] z unauthenticated(3) by (simp add: holds_slot_def)
  next
    case (refused p e now started w2 w3 stages)
    note r = refused(4)[unfolded assms, symmetric]
    have e3: "w_events w3 = w_events w" using admit_keeps[of w_events pl snap p req w2] refused(2,3) by simp
    have "stream_state req None sr err w3 w1" using stream_refuse_state[OF r] z by simp
    then have st: "stream_state req None sr err w w1" by (rule stream_state_events[OF e3])
    have "holds_slot pl snap req w None w1"
      unfolding holds_slot_def option.case using refused(1-3) stream_refuse_facts(3)[OF r] by blast
    then show ?thesis using stream_refuse_facts(1,2)[OF r] z st by simp
  next
    case (admitted p p' req' now started w2 w3 stages)
    note r = admitted(4)[unfolded assms, symmetric]
    have e3: "w_events w3 = w_events w" using admit_keeps[of w_events pl snap p req w2] admitted(2,3) by simp
    have meta: "rq_Meta req' = rq_Meta req" using admit_Inr[OF admitted(3)] applyPolicy_meta by metis
    note F = stream_admitted_facts[OF r]
    have "stream_state req' (Some p') sr err w3 w1" and lim: "w_limiter w1 = w_limiter w3" using F(1,2) z by simp_all
    then have st: "stream_state req (Some p') sr err w w1"
      using stream_state_events[OF e3] stream_state_meta[OF meta] by blast
    then have "so_releaseLimit sr = Some p'" by (simp add: stream_state_def)
    moreover have "holds_slot pl snap req w (Some p') w1"
      unfolding holds_slot_def option.case using admitted(1-3) lim by blast
    ultimately show ?thesis using st by simp
  qed
  then show "stream_state req (so_releaseLimit sr) sr err w w1" "holds_slot pl snap req w (so_releaseLimit sr) w1"
    "so_releaseLimit sr = None \<Longrightarrow> err \<noteq> None" by blast+
qed

section \<open>Finishing a stream\<close>

lemma run_finish_keeps:
  "w_limiter (run_finish pl snap sr usage ttfb err captured w) = w_limiter w"
  using record_tokens_keeps[of w_limiter pl _ _ w]
  by (simp add: run_finish_def emitAudit_def emitUsage_def tick_def emit_event_def Let_def split: prod.split)

lemma run_finish_records:
  "\<exists>res. recorded req res err w (run_finish pl snap sr usage ttfb err (req, p, started, n) w) \<and> hr_Principal res = so_Principal sr"
proof -
  define w1 where "w1 = record_tokens pl p (usage_Total usage) w"
  define res where "res = zero_result\<lparr>hr_Principal := so_Principal sr, hr_Deployment := so_Deployment sr,
    hr_Route := so_Route sr, hr_Usage := usage, hr_Latency := pl_clock pl (w_ticks w1) - started, hr_TimeToFirstByte := ttfb\<rparr>"
  have "w_events w1 = w_events w" unfolding w1_def by (simp add: record_tokens_keeps[of w_events])
  with emitted_pair[of pl snap req res n err "so_deployment sr" True "w1\<lparr>w_ticks := Suc (w_ticks w1)\<rparr>"]
  have "recorded req res err w (run_finish pl snap sr usage ttfb err (req, p, started, n) w)"
    unfolding recorded_def by (auto simp: run_finish_def tick_def w1_def[symmetric] res_def[symmetric] Let_def)
  then show ?thesis by (intro exI[of _ res]) (simp add: res_def)
qed

text \<open>The states \<open>Finish\<close> goes through: what it forgets, what it releases, what it records.\<close>

lemma Finish_facts:
  assumes "Finish pl snap sr usage ttfb err w = (sr', w')" "\<not> so_finished sr"
  shows "sr' = sr\<lparr>so_finished := True\<rparr>"
    "w_limiter w' = (case so_releaseLimit sr of None \<Rightarrow> w_limiter w | Some p \<Rightarrow> w_limiter (release_limit p w))"
    "case so_finish sr of
       None \<Rightarrow> w_events w' = w_events w
     | Some (req, p, started, n) \<Rightarrow> \<exists>res. recorded req res err w w' \<and> hr_Principal res = so_Principal sr"
proof -
  define w1 where "w1 = (case so_forget sr of None \<Rightarrow> w
      | Some (t, r, repl) \<Rightarrow> w\<lparr>w_store := vault_Forget (pl_kv pl) t r (w_store w) repl\<rparr>)"
  define w2 where "w2 = (case so_releaseLimit sr of None \<Rightarrow> w1 | Some p \<Rightarrow> release_limit p w1)"
  have w1: "w_limiter w1 = w_limiter w" "w_events w1 = w_events w" by (simp_all add: w1_def split: option.split)
  have w2: "w_events w2 = w_events w" by (simp add: w2_def release_limit_def w1 split: option.split)
  have F: "sr' = sr\<lparr>so_finished := True\<rparr>"
    "w' = (case so_finish sr of None \<Rightarrow> w2 | Some captured \<Rightarrow> run_finish pl snap sr usage ttfb err captured w2)"
    using assms(1)[unfolded Finish_def Let_def, folded w1_def, folded w2_def] assms(2) by auto
  show "sr' = sr\<lparr>so_finished := True\<rparr>" by (rule F)
  have "w_limiter w' = w_limiter w2" by (simp add: F(2) run_finish_keeps split: option.split)
  then show "w_limiter w' = (case so_releaseLimit sr of None \<Rightarrow> w_limiter w | Some p \<Rightarrow> w_limiter (release_limit p w))"
    by (simp add: w2_def release_limit_def w1 split: option.split)
  show "case so_finish sr of None \<Rightarrow> w_events w' = w_events w
     | Some (req, p, started, n) \<Rightarrow> \<exists>res. recorded req res err w w' \<and> hr_Principal res = so_Principal sr"
  proof (cases "so_finish sr")
    case None
    then show ?thesis by (simp add: F(2) w2)
  next
    case (Some c)
    obtain req p started n where c: "c = (req, p, started, n)" by (metis prod_cases4)
    from run_finish_records[of req err w2 pl snap sr usage ttfb p started n]
    show ?thesis by (simp add: Some c F(2) recorded_events[OF w2])
  qed
qed

section \<open>Properties\<close>

lemma stream_recorded:
  assumes h: "HandleStream pl snap req w = (sr, err, w1)" and f: "Finish pl snap sr usage ttfb ferr w1 = (sr', w2)"
  shows "\<exists>res. recorded req res (case err of Some e \<Rightarrow> Some e | None \<Rightarrow> ferr) w w2 \<and> hr_Principal res = so_Principal sr"
    "so_finished sr'"
proof -
  note S = HandleStream_facts(1)[OF h]
  have nf: "\<not> so_finished sr" using S by (simp add: stream_state_def)
  note F = Finish_facts[OF f nf]
  show "so_finished sr'" by (simp add: F(1))
  show "\<exists>res. recorded req res (case err of Some e \<Rightarrow> Some e | None \<Rightarrow> ferr) w w2 \<and> hr_Principal res = so_Principal sr"
  proof (cases err)
    case (Some e)
    with S F(3) show ?thesis by (auto simp: stream_state_def recorded_def)
  next
    case None
    with S obtain req' p t n where e1: "w_events w1 = w_events w" and fin: "so_finish sr = Some (req', p, t, n)"
      and m: "rq_Meta req' = rq_Meta req" by (auto simp: stream_state_def)
    from F(3) fin obtain res where "recorded req' res ferr w1 w2" "hr_Principal res = so_Principal sr" by auto
    then have "recorded req res ferr w w2" by (simp only: recorded_meta[OF m] recorded_events[OF e1])
    with \<open>hr_Principal res = so_Principal sr\<close> show ?thesis using None by auto
  qed
qed

text \<open>A streamed request leaves exactly one record, however it ends: when \<open>HandleStream\<close> refuses
  it, the refusal is recorded there and \<open>Finish\<close> adds nothing; when the stream starts, nothing is
  recorded until \<open>Finish\<close>, which records it once with the outcome the transport reports. A second
  \<open>Finish\<close> changes nothing.\<close>

lemma stream_records_once:
  "case HandleStream pl snap req w of (sr, err, w1) \<Rightarrow>
   (case Finish pl snap sr usage ttfb ferr w1 of (sr', w2) \<Rightarrow>
      (\<exists>res n evs. w_events w2 = w_events w @ evs \<and> hr_Principal res = so_Principal sr \<and>
         one_record req res n (case err of Some e \<Rightarrow> Some e | None \<Rightarrow> ferr) evs) \<and>
      Finish pl snap sr' usage' ttfb' ferr' w2 = (sr', w2))"
proof -
  obtain sr err w1 where h: "HandleStream pl snap req w = (sr, err, w1)" by (metis prod_cases3)
  obtain sr' w2 where f: "Finish pl snap sr usage ttfb ferr w1 = (sr', w2)" by fastforce
  have "Finish pl snap sr' usage' ttfb' ferr' w2 = (sr', w2)" by (simp add: Finish_def stream_recorded(2)[OF h f])
  with stream_recorded(1)[OF h f] h f show ?thesis unfolding recorded_def by (simp only: prod.case) blast
qed

lemma stream_slots:
  assumes "\<And>now p. authenticate pl snap req now = Inr p \<Longrightarrow> slots_wf w p"
    "HandleStream pl snap req w = (sr, err, w1)" "Finish pl snap sr usage ttfb ferr w1 = (sr', w2)"
  shows "slot_count w2 key = slot_count w key \<and>
         slot_count w1 key = slot_count w key +
           (case so_releaseLimit sr of None \<Rightarrow> 0
            | Some p \<Rightarrow> if key = p_KeyID p \<and> 0 < MaxConcurrent (p_Limits p) \<and> w_limiter w \<noteq> None then 1 else 0)"
proof -
  have nf: "\<not> so_finished sr" using HandleStream_facts(1)[OF assms(2)] by (simp add: stream_state_def)
  note lim = Finish_facts(2)[OF assms(3) nf]
  have wf: "slots_wf (w\<lparr>w_ticks := v\<rparr>) p" if "authenticate pl snap req now = Inr p" for v now p
    using assms(1)[OF that] by (simp add: slots_wf_def slot_count_def)
  have tick: "slot_count (w\<lparr>w_ticks := v\<rparr>) k = slot_count w k" for v k by (simp add: slot_count_def)
  show ?thesis
  proof (cases "so_releaseLimit sr")
    case None
    with lim have "slot_count w2 key = slot_count w1 key" by (simp add: slot_count_def)
    moreover have "slot_count w1 key = slot_count w key"
      using HandleStream_facts(2)[OF assms(2)] None admit_count(1)[OF _ wf] tick
      unfolding holds_slot_def by (fastforce simp: slot_count_def)
    ultimately show ?thesis using None by simp
  next
    case (Some p')
    from HandleStream_facts(2)[OF assms(2)] Some obtain now p req' v w3 where a: "authenticate pl snap req now = Inr p"
      "admit pl snap p req (w\<lparr>w_ticks := v\<rparr>) = (Inr (p', req'), w3)" and l: "w_limiter w1 = w_limiter w3"
      unfolding holds_slot_def by auto
    have eq: "p_KeyID p' = p_KeyID p" "p_Limits p' = p_Limits p" using admit_Inr[OF a(2)] applyPolicy_meta by metis+
    note A = admit_count[OF a(2) wf[OF a(1)]]
    have c1: "slot_count w1 k = slot_count w3 k" for k using l by (rule slot_count_limiter)
    have none: "w_limiter w1 = None \<longleftrightarrow> w_limiter w = None" using A(2) l by simp
    have one: "slot_count w1 key = slot_count w key +
        (if key = p_KeyID p' \<and> 0 < MaxConcurrent (p_Limits p') \<and> w_limiter w \<noteq> None then 1 else 0)" for key
      using A(1)[of key] c1 tick eq by (auto split: if_splits)
    have "0 < slot_count w1 (p_KeyID p') \<or> MaxConcurrent (p_Limits p') = 0 \<or> w_limiter w1 = None"
      using one[of "p_KeyID p'"] assms(1)[OF a(1)] none eq by (auto simp: slots_wf_def split: if_splits)
    from release_count[OF this, of key] one none have "slot_count (release_limit p' w1) key = slot_count w key" by auto
    moreover have "slot_count w2 key = slot_count (release_limit p' w1) key"
      using lim Some by (intro slot_count_limiter) simp
    ultimately show ?thesis using one Some by simp
  qed
qed

text \<open>Claim C17. A streamed request's slot is given back by \<open>Finish\<close> and by nothing before it: after
  \<open>HandleStream\<close> and \<open>Finish\<close> every key holds as many slots as before, also when \<open>HandleStream\<close>
  returned an error, so a transport that drops a failed stream without \<open>Finish\<close> keeps its slot taken.\<close>

theorem stream_returns_the_slot_on_Finish:
  assumes "\<And>now p. authenticate pl snap req now = Inr p \<Longrightarrow> slots_wf w p"
    "HandleStream pl snap req w = (sr, err, w1)" "Finish pl snap sr usage ttfb ferr w1 = (sr', w2)"
  shows "slot_count w2 key = slot_count w key \<and>
         slot_count w1 key = slot_count w key +
           (case so_releaseLimit sr of None \<Rightarrow> 0
            | Some p \<Rightarrow> if key = p_KeyID p \<and> 0 < MaxConcurrent (p_Limits p) \<and> w_limiter w \<noteq> None then 1 else 0)"
  using assms by (rule stream_slots)

text \<open>Claim C18. Streams are sent only where buffered requests may be: every call a \<open>HandleStream\<close> makes
  is to an authorised deployment and carries the payload protected for that deployment.\<close>

theorem HandleStream_sends_only_where_allowed:
  "case HandleStream pl snap req w of (sr, err, w') \<Rightarrow>
     \<exists>calls. w_sent w' = w_sent w @ calls \<and>
       (calls = [] \<or>
        (\<exists>now p p' req' body v. authenticate pl snap req now = Inr p \<and>
           fst (admit pl snap p req (w\<lparr>w_ticks := v\<rparr>)) = Inr (p', req') \<and>
           fst (guard pl snap p' req' (snd (admit pl snap p req (w\<lparr>w_ticks := v\<rparr>)))) = Inr body \<and>
           protected_calls pl p' (req'\<lparr>rq_Body := body\<rparr>) {d. authorised pl snap p' req' d} calls))"
proof -
  obtain sr err w1 where h: "HandleStream pl snap req w = (sr, err, w1)" by (metis prod_cases3)
  show ?thesis
  proof (cases rule: HandleStream_cases[of pl snap req w])
    case (unauthenticated e now started w2 stages)
    from stream_refuse_facts(4)[OF unauthenticated(2)[unfolded h, symmetric]] unauthenticated(3) show ?thesis by (simp add: h)
  next
    case (refused p e now started w2 w3 stages)
    have "w_sent w3 = w_sent w" using admit_keeps[of w_sent pl snap p req w2] refused(2,3) by simp
    with stream_refuse_facts(4)[OF refused(4)[unfolded h, symmetric]] show ?thesis by (simp add: h)
  next
    case (admitted p p' req' now started w2 w3 stages)
    have s: "w_sent w3 = w_sent w" using admit_keeps[of w_sent pl snap p req w2] admitted(2,3) by simp
    have ad: "admit pl snap p req (w\<lparr>w_ticks := Suc (Suc (w_ticks w))\<rparr>) = (Inr (p', req'), w3)"
      using admitted(2,3) by simp
    from stream_admitted_facts(4)[OF admitted(4)[unfolded h, symmetric]] obtain calls
      where c: "w_sent w1 = w_sent w3 @ calls" "calls = [] \<or> (\<exists>body. fst (guard pl snap p' req' w3) = Inr body \<and>
          protected_calls pl p' (req'\<lparr>rq_Body := body\<rparr>) {d. authorised pl snap p' req' d} calls)"
      by (auto simp: zero_stream_def)
    show ?thesis unfolding h prod.case c(1) s
      using c(2) admitted(1) ad by (intro exI[of _ calls] conjI refl) (metis fst_conv snd_conv)
  qed
qed

lemma ex_stream:
  "case HandleStream ex_pipeline ex_snapshot ex_request ex_worker of (sr, err, w1) \<Rightarrow>
     err = None \<and> w_events w1 = [] \<and> slot_count w1 ''k1'' = 1 \<and>
     (case Finish ex_pipeline ex_snapshot sr no_usage 0 None w1 of (sr', w2) \<Rightarrow> slot_count w2 ''k1'' = 0)"
  by code_simp

theorem stream_returns_the_slot_witness:
  "\<exists>sr w1 sr' w2. HandleStream ex_pipeline ex_snapshot ex_request ex_worker = (sr, None, w1) \<and>
     Finish ex_pipeline ex_snapshot sr no_usage 0 None w1 = (sr', w2) \<and>
     slot_count w1 ''k1'' = 1 \<and> slot_count w2 ''k1'' = slot_count ex_worker ''k1''"
proof -
  obtain sr err w1 where h: "HandleStream ex_pipeline ex_snapshot ex_request ex_worker = (sr, err, w1)" by (metis prod_cases3)
  obtain sr' w2 where f: "Finish ex_pipeline ex_snapshot sr no_usage 0 None w1 = (sr', w2)" by fastforce
  have wf: "slots_wf ex_worker p" for p
    by (simp add: slots_wf_def slot_count_def ex_worker_def limiter_New_def)
  from stream_returns_the_slot_on_Finish[OF wf h f, of "''k1''"] ex_stream h f show ?thesis by auto
qed



end
