(* ===== verification/Prober.thy ===== *)
theory Prober
  imports Router
begin

text \<open>
  \<open>dataplane/internal/router/prober.go\<close>: the background check of deployments that receive no
  traffic. The prober's table of last traffic is the router's observer. The credential source, the
  provider's \<open>Probe\<close> and the shuffle of the identifiers are parameters.
\<close>

definition idleBeforeProbing :: duration where
  "idleBeforeProbing = 60 * second"

definition NewProber :: "router \<Rightarrow> router" where
  \<comment> \<open>Registration of the prober as the router's observer, with an empty table.\<close>
  "NewProber r = r\<lparr>rt_observer := Some []\<rparr>"

definition idle_ids :: "router \<Rightarrow> gotime \<Rightarrow> snapshot \<Rightarrow> string list" where
  "idle_ids r now snap =
     filter (\<lambda>i. case Option.bind (rt_observer r) (\<lambda>m. map_of m i) of
                   Some seen \<Rightarrow> \<not> (now - seen < idleBeforeProbing)
                 | None \<Rightarrow> True)
       (DeploymentIDs snap)"

record probe_env =
  pe_provider :: "string \<Rightarrow> bool"
  pe_credentials :: "string \<Rightarrow> go_error + credential"
  pe_probe :: "deployment \<Rightarrow> credential \<Rightarrow> go_error option"
  pe_started :: gotime
  pe_ended :: gotime

definition probe :: "probe_env \<Rightarrow> router \<Rightarrow> deployment \<Rightarrow> router" where
  "probe e r d =
     (if \<not> pe_provider e (dep_Provider d) then r
      else (case pe_credentials e (dep_CredentialRef d) of
          Inl _ \<Rightarrow> r
        | Inr cred \<Rightarrow>
            (let err = pe_probe e d cred;
                 lat = pe_ended e - pe_started e;
                 r1 = set_health r (dep_ID d) (Observe (healthFor r (dep_ID d)) (pe_ended e) (err \<noteq> None) lat)
             in if err \<noteq> None then r1
                else set_breaker r1 (dep_ID d) (Succeed (breakerFor r1 (dep_ID d))))))"

fun probe_all :: "(string \<Rightarrow> probe_env) \<Rightarrow> snapshot \<Rightarrow> router \<Rightarrow> string list \<Rightarrow> nat \<times> router" where
  "probe_all env snap r [] = (0, r)"
| "probe_all env snap r (i # ids) =
     (case snap_Deployment snap i of
        None \<Rightarrow> probe_all env snap r ids
      | Some d \<Rightarrow> (case probe_all env snap (probe (env i) r d) ids of (n, r') \<Rightarrow> (Suc n, r')))"

definition RunOnce ::
  "(string \<Rightarrow> probe_env) \<Rightarrow> (string list \<Rightarrow> string list) \<Rightarrow> gotime \<Rightarrow> snapshot option \<Rightarrow> router \<Rightarrow> nat \<times> router" where
  "RunOnce env shuffle now snap r =
     (case snap of None \<Rightarrow> (0, r) | Some s \<Rightarrow> probe_all env s r (shuffle (idle_ids r now s)))"

section \<open>What a round of probing changes\<close>

lemma probe_frame: "dep_ID d \<noteq> i \<Longrightarrow> healthFor (probe e r d) i = healthFor r i \<and> breakerFor (probe e r d) i = breakerFor r i"
  by (simp add: probe_def Let_def split: sum.split)

lemma probe_all_frame:
  assumes "\<forall>j d. snap_Deployment snap j = Some d \<longrightarrow> dep_ID d = j" "i \<notin> set ids"
  shows "healthFor (snd (probe_all env snap r ids)) i = healthFor r i \<and>
         breakerFor (snd (probe_all env snap r ids)) i = breakerFor r i"
  using assms(2)
proof (induction ids arbitrary: r)
  case (Cons j ids)
  show ?case
  proof (cases "snap_Deployment snap j")
    case None
    with Cons show ?thesis by simp
  next
    case (Some d)
    then have "dep_ID d \<noteq> i" using assms(1) Cons.prems by auto
    moreover have "healthFor (snd (probe_all env snap (probe (env j) r d) ids)) i = healthFor (probe (env j) r d) i \<and>
        breakerFor (snd (probe_all env snap (probe (env j) r d) ids)) i = breakerFor (probe (env j) r d) i"
      using Cons.prems by (intro Cons.IH) simp
    ultimately show ?thesis using Some probe_frame[of d i "env j" r] by (simp add: case_prod_beta)
  qed
qed simp

lemma snap_Deployment_id: "snapshot_wf s \<Longrightarrow> snap_Deployment s j = Some d \<Longrightarrow> dep_ID d = j"
  by (auto simp: snapshot_wf_def snap_Deployments_index find_Some_iff)

lemma probe_wf:
  assumes "router_wf r" "pe_started e \<le> pe_ended e" shows "router_wf (probe e r d)"
proof -
  have 1: "router_wf (set_health r (dep_ID d) (Observe (healthFor r (dep_ID d)) (pe_ended e) f (pe_ended e - pe_started e)))" for f
    using assms by (intro set_health_wf Observe_wf healthFor_wf) auto
  show ?thesis
    using assms(1) 1 by (auto simp: probe_def Let_def intro!: set_breaker_wf Succeed_wf breakerFor_wf split: sum.split)
qed

end
