(* ===== verification/Wire.thy ===== *)
theory Wire
  imports Core_Snapshot Policy
begin

text \<open>
  \<open>dataplane/internal/wire\<close>: the conversions between the protobuf messages of a snapshot and the
  specifications the core builds layers from (\<open>convert.go\<close>), and the content digests of layers
  (\<open>codec.go\<close>), with \<open>decodeAndVerify\<close> of \<open>snapshot/source.go\<close> that composes them. A message is a
  record of its fields, an optional submessage is an option, and an enum keeps the numbers this
  worker does not know. Serialising and parsing protobuf and SHA-256 are parameters.
\<close>

section \<open>Messages\<close>

record pb_layer_version =
  pbv_number :: nat
  pbv_digest :: string

record pb_routing_key =
  pbk_base_model :: string
  pbk_adapter_id :: string

record pb_cost =
  pbc_input :: int
  pbc_output :: int
  pbc_cached_input :: int
  pbc_cache_write :: int

record pb_deployment =
  pbd_id :: string
  pbd_key :: "pb_routing_key option"
  pbd_provider :: string
  pbd_endpoint :: string
  pbd_region :: string
  pbd_trust_tier :: pb_trust_tier
  pbd_credential_ref :: string
  pbd_weight :: nat
  pbd_shadow_percent :: nat
  pbd_cost :: "pb_cost option"
  pbd_capabilities :: "string list"

record pb_alias =
  pba_name :: string
  pba_targets :: "pb_routing_key list"

datatype pb_port = PORT_PROVIDER | PORT_GUARDRAIL | PORT_STORE | PORT_TELEMETRY | PORT_other int

record pb_plugin =
  pbp_port :: pb_port
  pbp_component :: string
  pbp_version :: string
  pbp_config_ref :: string

datatype pb_failure_mode = FAILURE_MODE_OPEN | FAILURE_MODE_CLOSED | FAILURE_MODE_other int

record pb_guardrail =
  pbg_component :: string
  pbg_version :: string
  pbg_config_ref :: string
  pbg_timeout_ms :: nat
  pbg_failure_mode :: pb_failure_mode
  pbg_blocking :: bool
  pbg_phases :: "string list"
  pbg_execution :: string
  pbg_module :: string

datatype pb_budget_scope =
    BUDGET_SCOPE_KEY | BUDGET_SCOPE_APP | BUDGET_SCOPE_USER | BUDGET_SCOPE_TEAM
  | BUDGET_SCOPE_ORG | BUDGET_SCOPE_MODEL | BUDGET_SCOPE_TRAINING | BUDGET_SCOPE_other int

record pb_budget =
  pbs_id :: string
  pbs_scope :: pb_budget_scope
  pbs_limit :: int
  pbs_spent :: int
  pbs_hard :: bool
  pbs_headroom :: nat

record pb_budget_ref =
  pbf_id :: string
  pbf_scope :: pb_budget_scope

record pb_rate_limit =
  pbl_requests :: nat
  pbl_tokens :: nat
  pbl_max_concurrent :: nat

record pb_principal =
  pbn_key_id :: string
  pbn_tenant :: string
  pbn_org :: string
  pbn_team :: string
  pbn_user :: string
  pbn_app :: string
  pbn_roles :: "string list"
  pbn_models_allow_all :: bool
  pbn_models :: "string list"
  pbn_budgets :: "pb_budget_ref list"
  pbn_default_class :: string
  pbn_min_trust_tier :: pb_trust_tier
  pbn_max_concurrent :: nat
  pbn_deprecated :: bool
  pbn_not_after :: int
  pbn_limits :: "pb_rate_limit option"

record pb_key_entry =
  pbe_lookup :: string
  pbe_key_id :: string

record pb_global =
  pgl_version :: "pb_layer_version option"
  pgl_built_at :: int
  pgl_deployments :: "pb_deployment list"
  pgl_aliases :: "pb_alias list"
  pgl_tenant_prefixes :: "(string, string) gomap"
  pgl_default_plugins :: "pb_plugin list"
  pgl_policy_bundle_ref :: string
  pgl_default_guardrails :: "pb_guardrail list"
  pgl_default_policy :: "pb_policy_bundle option"

record pb_tenant =
  ptl_tenant :: string
  ptl_version :: "pb_layer_version option"
  ptl_built_at :: int
  ptl_tier :: string
  ptl_principals :: "pb_principal list"
  ptl_keys :: "pb_key_entry list"
  ptl_alias_overrides :: "pb_alias list"
  ptl_budgets :: "pb_budget list"
  ptl_plugins :: "pb_plugin list"
  ptl_min_trust_tier :: pb_trust_tier
  ptl_guardrails :: "pb_guardrail list"
  ptl_policy :: "pb_policy_bundle option"

record pb_snapshot =
  psn_global :: "pb_global option"
  psn_tenants :: "pb_tenant list"

section \<open>Enums and times\<close>

text \<open>The wire package's table agrees with the one in \<open>policy/decode.go\<close>.\<close>

fun decodeTrustTier :: "pb_trust_tier \<Rightarrow> trust_tier" where
  "decodeTrustTier TRUST_TIER_EXTERNAL = TrustExternal"
| "decodeTrustTier TRUST_TIER_PRIVATE_CLOUD = TrustPrivateCloud"
| "decodeTrustTier TRUST_TIER_INTERNAL = TrustInternal"
| "decodeTrustTier (TRUST_TIER_other _) = TrustUnset"

fun encodeTrustTier :: "trust_tier \<Rightarrow> pb_trust_tier" where
  "encodeTrustTier TrustExternal = TRUST_TIER_EXTERNAL"
| "encodeTrustTier TrustPrivateCloud = TRUST_TIER_PRIVATE_CLOUD"
| "encodeTrustTier TrustInternal = TRUST_TIER_INTERNAL"
| "encodeTrustTier TrustUnset = TRUST_TIER_other 0"

fun decodeBudgetScope :: "pb_budget_scope \<Rightarrow> budget_scope" where
  "decodeBudgetScope BUDGET_SCOPE_KEY = BudgetScopeKey"
| "decodeBudgetScope BUDGET_SCOPE_APP = BudgetScopeApp"
| "decodeBudgetScope BUDGET_SCOPE_USER = BudgetScopeUser"
| "decodeBudgetScope BUDGET_SCOPE_TEAM = BudgetScopeTeam"
| "decodeBudgetScope BUDGET_SCOPE_ORG = BudgetScopeOrg"
| "decodeBudgetScope BUDGET_SCOPE_MODEL = BudgetScopeModel"
| "decodeBudgetScope BUDGET_SCOPE_TRAINING = BudgetScopeTraining"
| "decodeBudgetScope (BUDGET_SCOPE_other _) = BudgetScopeUnset"

fun encodeBudgetScope :: "budget_scope \<Rightarrow> pb_budget_scope" where
  "encodeBudgetScope BudgetScopeKey = BUDGET_SCOPE_KEY"
| "encodeBudgetScope BudgetScopeApp = BUDGET_SCOPE_APP"
| "encodeBudgetScope BudgetScopeUser = BUDGET_SCOPE_USER"
| "encodeBudgetScope BudgetScopeTeam = BUDGET_SCOPE_TEAM"
| "encodeBudgetScope BudgetScopeOrg = BUDGET_SCOPE_ORG"
| "encodeBudgetScope BudgetScopeModel = BUDGET_SCOPE_MODEL"
| "encodeBudgetScope BudgetScopeTraining = BUDGET_SCOPE_TRAINING"
| "encodeBudgetScope BudgetScopeUnset = BUDGET_SCOPE_other 0"

fun decodePort :: "pb_port \<Rightarrow> string" where
  "decodePort PORT_PROVIDER = ''provider''"
| "decodePort PORT_GUARDRAIL = ''guardrail''"
| "decodePort PORT_STORE = ''store''"
| "decodePort PORT_TELEMETRY = ''telemetry''"
| "decodePort (PORT_other _) = ''''"

definition encodePort :: "string \<Rightarrow> pb_port" where
  "encodePort p =
     (if p = ''provider'' then PORT_PROVIDER else if p = ''guardrail'' then PORT_GUARDRAIL
      else if p = ''store'' then PORT_STORE else if p = ''telemetry'' then PORT_TELEMETRY
      else PORT_other 0)"

definition fromUnixMillis :: "int \<Rightarrow> gotime" where
  "fromUnixMillis ms = (if ms = 0 then 0 else (62135596800000 + ms) * millisecond)"

definition toUnixMillis :: "gotime \<Rightarrow> int" where
  "toUnixMillis t = (if t = 0 then 0 else t div millisecond - 62135596800000)"

section \<open>Leaf conversions\<close>

definition decodeVersion :: "pb_layer_version option \<Rightarrow> layer_version" where
  "decodeVersion v =
     (case v of None \<Rightarrow> \<lparr>v_Number = 0, v_Digest = ''''\<rparr>
      | Some m \<Rightarrow> \<lparr>v_Number = pbv_number m, v_Digest = pbv_digest m\<rparr>)"

definition encodeVersion :: "layer_version \<Rightarrow> pb_layer_version option" where
  "encodeVersion v = Some \<lparr>pbv_number = v_Number v, pbv_digest = v_Digest v\<rparr>"

definition decodeRoutingKey :: "pb_routing_key option \<Rightarrow> routing_key" where
  "decodeRoutingKey k =
     (case k of None \<Rightarrow> \<lparr>BaseModel = '''', AdapterID = ''''\<rparr>
      | Some m \<Rightarrow> \<lparr>BaseModel = pbk_base_model m, AdapterID = pbk_adapter_id m\<rparr>)"

definition encodeRoutingKey :: "routing_key \<Rightarrow> pb_routing_key" where
  "encodeRoutingKey k = \<lparr>pbk_base_model = BaseModel k, pbk_adapter_id = AdapterID k\<rparr>"

definition decodeDeployment :: "pb_deployment \<Rightarrow> deployment" where
  "decodeDeployment d =
     \<lparr>dep_ID = pbd_id d, dep_Key = decodeRoutingKey (pbd_key d), dep_Provider = pbd_provider d,
      dep_Endpoint = pbd_endpoint d, dep_Region = pbd_region d, dep_TrustTier = decodeTrustTier (pbd_trust_tier d),
      dep_CredentialRef = pbd_credential_ref d, dep_Weight = pbd_weight d, dep_ShadowPercent = pbd_shadow_percent d,
      dep_Cost = (case pbd_cost d of
         None \<Rightarrow> \<lparr>InputPer1K = 0, OutputPer1K = 0, CachedInputPer1K = 0, CacheWritePer1K = 0\<rparr>
       | Some c \<Rightarrow> \<lparr>InputPer1K = pbc_input c, OutputPer1K = pbc_output c,
                     CachedInputPer1K = pbc_cached_input c, CacheWritePer1K = pbc_cache_write c\<rparr>),
      dep_Capabilities = pbd_capabilities d\<rparr>"

definition encodeDeployment :: "deployment \<Rightarrow> pb_deployment" where
  "encodeDeployment d =
     \<lparr>pbd_id = dep_ID d, pbd_key = Some (encodeRoutingKey (dep_Key d)), pbd_provider = dep_Provider d,
      pbd_endpoint = dep_Endpoint d, pbd_region = dep_Region d, pbd_trust_tier = encodeTrustTier (dep_TrustTier d),
      pbd_credential_ref = dep_CredentialRef d, pbd_weight = dep_Weight d, pbd_shadow_percent = dep_ShadowPercent d,
      pbd_cost = Some \<lparr>pbc_input = InputPer1K (dep_Cost d), pbc_output = OutputPer1K (dep_Cost d),
         pbc_cached_input = CachedInputPer1K (dep_Cost d), pbc_cache_write = CacheWritePer1K (dep_Cost d)\<rparr>,
      pbd_capabilities = dep_Capabilities d\<rparr>"

definition decodeAlias :: "pb_alias \<Rightarrow> model_alias" where
  "decodeAlias a = \<lparr>alias_Name = pba_name a, alias_Targets = map (\<lambda>t. decodeRoutingKey (Some t)) (pba_targets a)\<rparr>"

definition encodeAlias :: "model_alias \<Rightarrow> pb_alias" where
  "encodeAlias a = \<lparr>pba_name = alias_Name a, pba_targets = map encodeRoutingKey (alias_Targets a)\<rparr>"

definition decodePlugin :: "pb_plugin \<Rightarrow> plugin_binding" where
  "decodePlugin p = \<lparr>pb_Port = decodePort (pbp_port p), pb_Component = pbp_component p, pb_Version = pbp_version p,
     pb_ConfigRef = pbp_config_ref p\<rparr>"

definition encodePlugin :: "plugin_binding \<Rightarrow> pb_plugin" where
  "encodePlugin p = \<lparr>pbp_port = encodePort (pb_Port p), pbp_component = pb_Component p, pbp_version = pb_Version p,
     pbp_config_ref = pb_ConfigRef p\<rparr>"

fun failureModes :: "pb_failure_mode \<Rightarrow> failure_mode option" where
  "failureModes FAILURE_MODE_OPEN = Some FailOpen"
| "failureModes FAILURE_MODE_CLOSED = Some FailClosed"
| "failureModes (FAILURE_MODE_other _) = None"

definition decodeGuardrail :: "pb_guardrail \<Rightarrow> guardrail_binding" where
  "decodeGuardrail g =
     \<lparr>g_Component = pbg_component g, g_Version = pbg_version g, g_ConfigRef = pbg_config_ref g,
      g_Execution = pbg_execution g, g_Module = pbg_module g,
      g_Budget = \<lparr>gb_Timeout = int (pbg_timeout_ms g) * millisecond,
         gb_Mode = (case failureModes (pbg_failure_mode g) of None \<Rightarrow> FailClosed | Some m \<Rightarrow> m),
         gb_Blocking = pbg_blocking g,
         gb_Phases = map (\<lambda>name. if name = ''response'' then PhaseResponse else PhaseRequest) (pbg_phases g)\<rparr>\<rparr>"

definition clampMillis :: "duration \<Rightarrow> nat" where
  "clampMillis d = (let ms = Milliseconds d in
     if ms \<le> 0 then 0 else if ms > 4294967295 then 4294967295 else nat ms)"

definition encodeGuardrail :: "guardrail_binding \<Rightarrow> pb_guardrail" where
  "encodeGuardrail g =
     \<lparr>pbg_component = g_Component g, pbg_version = g_Version g, pbg_config_ref = g_ConfigRef g,
      pbg_timeout_ms = clampMillis (gb_Timeout (g_Budget g)),
      pbg_failure_mode = (if gb_Mode (g_Budget g) = FailOpen then FAILURE_MODE_OPEN else FAILURE_MODE_CLOSED),
      pbg_blocking = gb_Blocking (g_Budget g),
      pbg_phases = map (\<lambda>ph. if ph = PhaseResponse then ''response'' else ''request'') (gb_Phases (g_Budget g)),
      pbg_execution = g_Execution g, pbg_module = g_Module g\<rparr>"

definition marshalPolicy :: "(pb_policy_bundle \<Rightarrow> go_error + string) \<Rightarrow> pb_policy_bundle option \<Rightarrow> string" where
  "marshalPolicy marshal b =
     (case b of
        None \<Rightarrow> ''''
      | Some m \<Rightarrow> if pbb_rules m = [] \<and> pbb_id m = '''' then ''''
                   else (case marshal m of Inl _ \<Rightarrow> '''' | Inr raw \<Rightarrow> raw))"

definition unmarshalPolicy :: "unmarshal_fun \<Rightarrow> string \<Rightarrow> pb_policy_bundle option" where
  "unmarshalPolicy unmarshal raw =
     (if raw = '''' then None else (case unmarshal raw of Inl _ \<Rightarrow> None | Inr m \<Rightarrow> Some m))"

definition decodeBudget :: "pb_budget \<Rightarrow> budget_state" where
  "decodeBudget b =
     \<lparr>bud_ID = pbs_id b, bud_Scope = decodeBudgetScope (pbs_scope b), LimitMicroUSD = pbs_limit b,
      SpentMicroUSD = pbs_spent b, bud_Hard = pbs_hard b, HeadroomBasisPoints = pbs_headroom b\<rparr>"

definition encodeBudget :: "budget_state \<Rightarrow> pb_budget" where
  "encodeBudget b =
     \<lparr>pbs_id = bud_ID b, pbs_scope = encodeBudgetScope (bud_Scope b), pbs_limit = LimitMicroUSD b,
      pbs_spent = SpentMicroUSD b, pbs_hard = bud_Hard b, pbs_headroom = HeadroomBasisPoints b\<rparr>"

definition decodeLimits :: "pb_principal \<Rightarrow> rate_limit" where
  "decodeLimits p =
     (case pbn_limits p of
        None \<Rightarrow> \<lparr>RequestsPerMinute = 0, TokensPerMinute = 0, MaxConcurrent = pbn_max_concurrent p\<rparr>
      | Some l \<Rightarrow> \<lparr>RequestsPerMinute = pbl_requests l, TokensPerMinute = pbl_tokens l,
          MaxConcurrent = (if pbl_max_concurrent l > 0 then pbl_max_concurrent l else pbn_max_concurrent p)\<rparr>)"

definition decodePrincipal :: "pb_principal \<Rightarrow> principal" where
  "decodePrincipal p =
     \<lparr>p_KeyID = pbn_key_id p, p_Tenant = pbn_tenant p, p_Org = pbn_org p, p_Team = pbn_team p, p_User = pbn_user p,
      p_App = pbn_app p, p_Roles = pbn_roles p,
      p_Models = \<lparr>AllowAll = pbn_models_allow_all p, allow_Names = pbn_models p\<rparr>,
      p_Budgets = map (\<lambda>b. \<lparr>ref_ID = pbf_id b, ref_Scope = decodeBudgetScope (pbf_scope b)\<rparr>) (pbn_budgets p),
      p_DefaultClass = pbn_default_class p, p_MinTrustTier = decodeTrustTier (pbn_min_trust_tier p),
      p_Limits = decodeLimits p, p_Deprecated = pbn_deprecated p, p_NotAfter = fromUnixMillis (pbn_not_after p)\<rparr>"

definition encodePrincipal :: "principal \<Rightarrow> pb_principal" where
  "encodePrincipal p =
     \<lparr>pbn_key_id = p_KeyID p, pbn_tenant = p_Tenant p, pbn_org = p_Org p, pbn_team = p_Team p, pbn_user = p_User p,
      pbn_app = p_App p, pbn_roles = p_Roles p, pbn_models_allow_all = AllowAll (p_Models p),
      pbn_models = allow_Names (p_Models p),
      pbn_budgets = map (\<lambda>b. \<lparr>pbf_id = ref_ID b, pbf_scope = encodeBudgetScope (ref_Scope b)\<rparr>) (p_Budgets p),
      pbn_default_class = p_DefaultClass p, pbn_min_trust_tier = encodeTrustTier (p_MinTrustTier p),
      pbn_max_concurrent = MaxConcurrent (p_Limits p), pbn_deprecated = p_Deprecated p,
      pbn_not_after = toUnixMillis (p_NotAfter p),
      pbn_limits = Some \<lparr>pbl_requests = RequestsPerMinute (p_Limits p), pbl_tokens = TokensPerMinute (p_Limits p),
         pbl_max_concurrent = MaxConcurrent (p_Limits p)\<rparr>\<rparr>"

section \<open>Layers\<close>

definition DecodeGlobal :: "(pb_policy_bundle \<Rightarrow> go_error + string) \<Rightarrow> pb_global \<Rightarrow> global_spec" where
  "DecodeGlobal marshal m =
     \<lparr>gs_Version = decodeVersion (pgl_version m), gs_BuiltAt = fromUnixMillis (pgl_built_at m),
      gs_Deployments = map decodeDeployment (pgl_deployments m), gs_Aliases = map decodeAlias (pgl_aliases m),
      gs_TenantPrefixes = foldl (\<lambda>acc (pre, tenant). AList.update pre tenant acc) [] (pgl_tenant_prefixes m),
      gs_DefaultPlugins = map decodePlugin (pgl_default_plugins m), gs_PolicyBundleRef = pgl_policy_bundle_ref m,
      gs_DefaultGuardrails = map decodeGuardrail (pgl_default_guardrails m),
      gs_DefaultPolicy = marshalPolicy marshal (pgl_default_policy m)\<rparr>"

definition add_key_entry :: "(key_lookup, string) gomap \<Rightarrow> pb_key_entry \<Rightarrow> (key_lookup, string) gomap" where
  "add_key_entry keys k = (if length (pbe_lookup k) \<noteq> 32 then keys else AList.update (pbe_lookup k) (pbe_key_id k) keys)"

definition DecodeTenant :: "(pb_policy_bundle \<Rightarrow> go_error + string) \<Rightarrow> pb_tenant \<Rightarrow> tenant_spec" where
  "DecodeTenant marshal m =
     \<lparr>ts_Tenant = ptl_tenant m, ts_Version = decodeVersion (ptl_version m), ts_BuiltAt = fromUnixMillis (ptl_built_at m),
      ts_Tier = ptl_tier m, ts_Principals = map decodePrincipal (ptl_principals m),
      ts_Keys = foldl add_key_entry [] (ptl_keys m), ts_AliasOverrides = map decodeAlias (ptl_alias_overrides m),
      ts_Budgets = map decodeBudget (ptl_budgets m), ts_Plugins = map decodePlugin (ptl_plugins m),
      ts_Guardrails = map decodeGuardrail (ptl_guardrails m), ts_Policy = marshalPolicy marshal (ptl_policy m),
      ts_MinTrustTier = decodeTrustTier (ptl_min_trust_tier m)\<rparr>"

definition DecodeSnapshot :: "(pb_policy_bundle \<Rightarrow> go_error + string) \<Rightarrow> pb_snapshot option \<Rightarrow> go_error + snapshot" where
  "DecodeSnapshot marshal m =
     (case Option.bind m psn_global of
        None \<Rightarrow> Inl (err_New CodeInvalidRequest ''snapshot has no global layer'')
      | Some g \<Rightarrow>
          (case NewGlobalLayer (DecodeGlobal marshal g) of
             Inl e \<Rightarrow> Inl e
           | Inr global \<Rightarrow>
               (case map_err (\<lambda>t. NewTenantLayer (DecodeTenant marshal t)) (psn_tenants (the m)) of
                  Inl e \<Rightarrow> Inl e
                | Inr tenants \<Rightarrow> Compose (Some global) (map Some tenants))))"

definition EncodeGlobal :: "unmarshal_fun \<Rightarrow> global_spec \<Rightarrow> pb_global" where
  "EncodeGlobal unmarshal s =
     \<lparr>pgl_version = encodeVersion (gs_Version s), pgl_built_at = toUnixMillis (gs_BuiltAt s),
      pgl_deployments = map encodeDeployment (gs_Deployments s), pgl_aliases = map encodeAlias (gs_Aliases s),
      pgl_tenant_prefixes = foldl (\<lambda>acc (pre, tenant). AList.update pre tenant acc) [] (gs_TenantPrefixes s),
      pgl_default_plugins = map encodePlugin (gs_DefaultPlugins s), pgl_policy_bundle_ref = gs_PolicyBundleRef s,
      pgl_default_guardrails = map encodeGuardrail (gs_DefaultGuardrails s),
      pgl_default_policy = unmarshalPolicy unmarshal (gs_DefaultPolicy s)\<rparr>"

definition EncodeTenant :: "unmarshal_fun \<Rightarrow> tenant_spec \<Rightarrow> pb_tenant" where
  "EncodeTenant unmarshal s =
     \<lparr>ptl_tenant = ts_Tenant s, ptl_version = encodeVersion (ts_Version s), ptl_built_at = toUnixMillis (ts_BuiltAt s),
      ptl_tier = ts_Tier s, ptl_principals = map encodePrincipal (ts_Principals s),
      ptl_keys = map (\<lambda>(lookup, keyID). \<lparr>pbe_lookup = lookup, pbe_key_id = keyID\<rparr>) (ts_Keys s),
      ptl_alias_overrides = map encodeAlias (ts_AliasOverrides s), ptl_budgets = map encodeBudget (ts_Budgets s),
      ptl_plugins = map encodePlugin (ts_Plugins s), ptl_min_trust_tier = encodeTrustTier (ts_MinTrustTier s),
      ptl_guardrails = map encodeGuardrail (ts_Guardrails s), ptl_policy = unmarshalPolicy unmarshal (ts_Policy s)\<rparr>"

section \<open>Digests\<close>

text \<open>Deterministic serialisation of a message and SHA-256 are parameters.\<close>

definition wire_Marshal :: "('m \<Rightarrow> go_error + string) \<Rightarrow> 'm \<Rightarrow> go_error + string" where
  "wire_Marshal ser m =
     (case ser m of
        Inl e \<Rightarrow> Inl (GwError CodeInternal (Msg ''serializing a snapshot message'' []) False (Some e))
      | Inr b \<Rightarrow> Inr b)"

definition digestOf :: "(string \<Rightarrow> string) \<Rightarrow> ('m \<Rightarrow> go_error + string) \<Rightarrow> 'm \<Rightarrow> go_error + string" where
  "digestOf sha ser m =
     (case wire_Marshal ser m of Inl e \<Rightarrow> Inl e | Inr b \<Rightarrow> Inr (''sha256:'' @ hex_encode (sha b)))"

definition clearDigest :: "pb_layer_version option \<Rightarrow> pb_layer_version option" where
  "clearDigest v = map_option (\<lambda>m. m\<lparr>pbv_digest := ''''\<rparr>) v"

definition ensureVersion :: "pb_layer_version option \<Rightarrow> pb_layer_version" where
  "ensureVersion v = (case v of None \<Rightarrow> \<lparr>pbv_number = 0, pbv_digest = ''''\<rparr> | Some m \<Rightarrow> m)"

definition GetDigest :: "pb_layer_version option \<Rightarrow> string" where
  "GetDigest v = (case v of None \<Rightarrow> '''' | Some m \<Rightarrow> pbv_digest m)"

definition DigestGlobal :: "(string \<Rightarrow> string) \<Rightarrow> (pb_global \<Rightarrow> go_error + string) \<Rightarrow> pb_global \<Rightarrow> go_error + string" where
  "DigestGlobal sha ser m = digestOf sha ser (m\<lparr>pgl_version := clearDigest (pgl_version m)\<rparr>)"

definition DigestTenant :: "(string \<Rightarrow> string) \<Rightarrow> (pb_tenant \<Rightarrow> go_error + string) \<Rightarrow> pb_tenant \<Rightarrow> go_error + string" where
  "DigestTenant sha ser m = digestOf sha ser (m\<lparr>ptl_version := clearDigest (ptl_version m)\<rparr>)"

definition SealGlobal :: "(string \<Rightarrow> string) \<Rightarrow> (pb_global \<Rightarrow> go_error + string) \<Rightarrow> pb_global \<Rightarrow> go_error + pb_global" where
  "SealGlobal sha ser m =
     (case DigestGlobal sha ser m of
        Inl e \<Rightarrow> Inl e
      | Inr d \<Rightarrow> Inr (m\<lparr>pgl_version := Some ((ensureVersion (pgl_version m))\<lparr>pbv_digest := d\<rparr>)\<rparr>))"

definition SealTenant :: "(string \<Rightarrow> string) \<Rightarrow> (pb_tenant \<Rightarrow> go_error + string) \<Rightarrow> pb_tenant \<Rightarrow> go_error + pb_tenant" where
  "SealTenant sha ser m =
     (case DigestTenant sha ser m of
        Inl e \<Rightarrow> Inl e
      | Inr d \<Rightarrow> Inr (m\<lparr>ptl_version := Some ((ensureVersion (ptl_version m))\<lparr>pbv_digest := d\<rparr>)\<rparr>))"

definition VerifyGlobal :: "(string \<Rightarrow> string) \<Rightarrow> (pb_global \<Rightarrow> go_error + string) \<Rightarrow> pb_global option \<Rightarrow> go_error option" where
  "VerifyGlobal sha ser m =
     (case m of None \<Rightarrow> None
      | Some g \<Rightarrow> (let want = GetDigest (pgl_version g) in
          if want = '''' then None
          else (case DigestGlobal sha ser g of
              Inl e \<Rightarrow> Some e
            | Inr got \<Rightarrow> if got \<noteq> want
                then Some (err_Newf CodeInvalidRequest ''global layer digest mismatch: computed %s, layer claims %s'' [AStr got, AStr want])
                else None)))"

definition VerifyTenant :: "(string \<Rightarrow> string) \<Rightarrow> (pb_tenant \<Rightarrow> go_error + string) \<Rightarrow> pb_tenant \<Rightarrow> go_error option" where
  "VerifyTenant sha ser t =
     (let want = GetDigest (ptl_version t) in
      if want = '''' then None
      else (case DigestTenant sha ser t of
          Inl e \<Rightarrow> Some e
        | Inr got \<Rightarrow> if got \<noteq> want
            then Some (err_Newf CodeInvalidRequest ''tenant %q layer digest mismatch: computed %s, layer claims %s''
                         [AStr (ptl_tenant t), AStr got, AStr want])
            else None))"

record codec =
  cd_sha :: "string \<Rightarrow> string"
  cd_global :: "pb_global \<Rightarrow> go_error + string"
  cd_tenant :: "pb_tenant \<Rightarrow> go_error + string"
  cd_parse :: "string \<Rightarrow> go_error + pb_snapshot"
  cd_policy :: "pb_policy_bundle \<Rightarrow> go_error + string"

definition UnmarshalSnapshot :: "codec \<Rightarrow> string \<Rightarrow> go_error + pb_snapshot" where
  "UnmarshalSnapshot c b =
     (case cd_parse c b of
        Inl e \<Rightarrow> Inl (GwError CodeInvalidRequest (Msg ''parsing a snapshot'' []) False (Some e))
      | Inr m \<Rightarrow> Inr m)"

definition decodeAndVerify :: "codec \<Rightarrow> string \<Rightarrow> go_error + snapshot \<times> string" where
  "decodeAndVerify c b =
     (case UnmarshalSnapshot c b of
        Inl e \<Rightarrow> Inl e
      | Inr m \<Rightarrow>
          (case VerifyGlobal (cd_sha c) (cd_global c) (psn_global m) of
             Some e \<Rightarrow> Inl e
           | None \<Rightarrow>
               (case List.map_filter (VerifyTenant (cd_sha c) (cd_tenant c)) (psn_tenants m) of
                  e # _ \<Rightarrow> Inl e
                | [] \<Rightarrow>
                    (case DecodeSnapshot (cd_policy c) (Some m) of
                       Inl e \<Rightarrow> Inl e
                     | Inr snap \<Rightarrow> Inr (snap, GetDigest (Option.bind (psn_global m) pgl_version))))))"

section \<open>Lemmas\<close>

definition time_ok :: "gotime \<Rightarrow> bool" where
  \<comment> \<open>Unset, or on a millisecond and not the Unix epoch itself, which the wire reads as unset.\<close>
  "time_ok t = (t = 0 \<or> (t mod millisecond = 0 \<and> t \<noteq> 62135596800000 * millisecond))"

definition guardrail_ok :: "guardrail_binding \<Rightarrow> bool" where
  "guardrail_ok g = (let d = gb_Timeout (g_Budget g) in 0 \<le> d \<and> d mod millisecond = 0 \<and> d div millisecond < 2 ^ 32)"

definition plugin_ok :: "plugin_binding \<Rightarrow> bool" where
  "plugin_ok p = (pb_Port p \<in> {''provider'', ''guardrail'', ''store'', ''telemetry'', ''''})"

definition policy_ok :: "(pb_policy_bundle \<Rightarrow> go_error + string) \<Rightarrow> unmarshal_fun \<Rightarrow> string \<Rightarrow> bool" where
  \<comment> \<open>No policy, or the canonical bytes of a bundle that says something.\<close>
  "policy_ok marshal unmarshal raw =
     (raw = '''' \<or> (case unmarshal raw of Inl _ \<Rightarrow> False
        | Inr m \<Rightarrow> \<not> (pbb_rules m = [] \<and> pbb_id m = '''') \<and> marshal m = Inr raw))"

definition global_spec_ok :: "(pb_policy_bundle \<Rightarrow> go_error + string) \<Rightarrow> unmarshal_fun \<Rightarrow> global_spec \<Rightarrow> bool" where
  "global_spec_ok marshal unmarshal s =
     (time_ok (gs_BuiltAt s) \<and> gomap_wf (gs_TenantPrefixes s) \<and> list_all plugin_ok (gs_DefaultPlugins s) \<and>
      list_all guardrail_ok (gs_DefaultGuardrails s) \<and> policy_ok marshal unmarshal (gs_DefaultPolicy s))"

definition tenant_spec_ok :: "(pb_policy_bundle \<Rightarrow> go_error + string) \<Rightarrow> unmarshal_fun \<Rightarrow> tenant_spec \<Rightarrow> bool" where
  "tenant_spec_ok marshal unmarshal s =
     (time_ok (ts_BuiltAt s) \<and> gomap_wf (ts_Keys s) \<and> list_all (\<lambda>(lookup, _). length lookup = 32) (ts_Keys s) \<and>
      list_all (\<lambda>p. time_ok (p_NotAfter p)) (ts_Principals s) \<and> list_all plugin_ok (ts_Plugins s) \<and>
      list_all guardrail_ok (ts_Guardrails s) \<and> policy_ok marshal unmarshal (ts_Policy s))"

named_theorems wire_round_trips \<open>decoding after encoding\<close>

lemma map_id_on: "list_all (\<lambda>x. f x = x) xs \<Longrightarrow> map f xs = xs"
  by (induction xs) auto

lemma tier_round_trip [wire_round_trips]: "decodeTrustTier (encodeTrustTier t) = t"
  by (cases t) simp_all

lemma scope_round_trip [wire_round_trips]: "decodeBudgetScope (encodeBudgetScope s) = s"
  by (cases s) simp_all

lemma time_round_trip: "fromUnixMillis (toUnixMillis t) = t \<longleftrightarrow> time_ok t"
proof (cases "t = 0")
  case False
  define q r where "q = t div millisecond" and "r = t mod millisecond"
  have t: "t = millisecond * q + r" unfolding q_def r_def by (rule mult_div_mod_eq[symmetric])
  have "fromUnixMillis (toUnixMillis t) = (if q = 62135596800000 then 0 else q * millisecond)"
    using False by (simp add: fromUnixMillis_def toUnixMillis_def q_def)
  moreover have "time_ok t = (r = 0 \<and> t \<noteq> 62135596800000 * millisecond)"
    using False by (simp add: time_ok_def r_def)
  ultimately show ?thesis using False t by auto
qed (simp add: fromUnixMillis_def toUnixMillis_def time_ok_def)

lemma version_round_trip [wire_round_trips]: "decodeVersion (encodeVersion v) = v"
  by (simp add: decodeVersion_def encodeVersion_def)

lemma key_round_trip [wire_round_trips]: "decodeRoutingKey (Some (encodeRoutingKey k)) = k"
  by (simp add: decodeRoutingKey_def encodeRoutingKey_def)

lemma deployment_round_trip [wire_round_trips]: "decodeDeployment (encodeDeployment d) = d"
  by (simp add: decodeDeployment_def encodeDeployment_def wire_round_trips)

lemma alias_round_trip [wire_round_trips]: "decodeAlias (encodeAlias a) = a"
  by (simp add: decodeAlias_def encodeAlias_def comp_def wire_round_trips)

lemma budget_round_trip [wire_round_trips]: "decodeBudget (encodeBudget b) = b"
  by (simp add: decodeBudget_def encodeBudget_def wire_round_trips)

lemma plugin_round_trip: "decodePlugin (encodePlugin p) = p \<longleftrightarrow> plugin_ok p"
  by (cases p) (auto simp: decodePlugin_def encodePlugin_def encodePort_def plugin_ok_def)

lemma clampMillis_exact: "0 \<le> d \<Longrightarrow> d mod millisecond = 0 \<Longrightarrow> d div millisecond < 2 ^ 32 \<Longrightarrow> int (clampMillis d) * millisecond = d"
  using mult_div_mod_eq[of millisecond d]
  by (auto simp: clampMillis_def Milliseconds_def go_div_def Let_def sgn_if)

lemma guardrail_round_trip: "guardrail_ok g \<Longrightarrow> decodeGuardrail (encodeGuardrail g) = g"
proof -
  assume ok: "guardrail_ok g"
  have "map (\<lambda>name. if name = ''response'' then PhaseResponse else PhaseRequest)
      (map (\<lambda>ph. if ph = PhaseResponse then ''response'' else ''request'') phs) = phs" for phs
    by (induction phs) (auto, metis phase.exhaust)
  moreover have "(case failureModes (if m = FailOpen then FAILURE_MODE_OPEN else FAILURE_MODE_CLOSED) of
      None \<Rightarrow> FailClosed | Some m \<Rightarrow> m) = m" for m
    by (cases m) simp_all
  ultimately show ?thesis
    using clampMillis_exact[of "gb_Timeout (g_Budget g)"] ok
    by (simp add: decodeGuardrail_def encodeGuardrail_def guardrail_ok_def Let_def del: map_map)
qed

lemma policy_round_trip: "policy_ok marshal unmarshal raw \<Longrightarrow> marshalPolicy marshal (unmarshalPolicy unmarshal raw) = raw"
  by (auto simp: policy_ok_def marshalPolicy_def unmarshalPolicy_def split: sum.splits)

lemma limits_round_trip: "decodeLimits (encodePrincipal p) = p_Limits p"
  by (cases "p_Limits p") (simp add: decodeLimits_def encodePrincipal_def)

lemma principal_round_trip:
  assumes "time_ok (p_NotAfter p)"
  shows "decodePrincipal (encodePrincipal p) = p"
proof -
  have "p_NotAfter (decodePrincipal (encodePrincipal p)) = p_NotAfter p"
    using assms time_round_trip[of "p_NotAfter p"] by (simp add: decodePrincipal_def encodePrincipal_def)
  moreover have "p_Limits (decodePrincipal (encodePrincipal p)) = p_Limits p"
    by (simp add: decodePrincipal_def limits_round_trip)
  moreover have "p_Budgets (decodePrincipal (encodePrincipal p)) = p_Budgets p"
    by (simp add: decodePrincipal_def encodePrincipal_def comp_def wire_round_trips) (rule map_id_on, simp add: list_all_iff)
  ultimately show ?thesis
    by (auto intro!: principal.equality simp: decodePrincipal_def encodePrincipal_def wire_round_trips)
qed

lemma update_new_key: "k \<notin> set (gomap_keys m) \<Longrightarrow> AList.update k v m = m @ [(k, v)]"
  by (induction m) auto

lemma foldl_update_id:
  "gomap_wf (acc @ m) \<Longrightarrow> foldl (\<lambda>acc (k, v). AList.update k v acc) acc m = acc @ m"
proof (induction m arbitrary: acc)
  case (Cons kv m)
  obtain k v where kv: "kv = (k, v)" by fastforce
  with Cons.prems have "AList.update k v acc = acc @ [(k, v)]" by (simp add: update_new_key)
  with Cons kv show ?case by simp
qed simp

lemma foldl_keys_id:
  "gomap_wf (acc @ m) \<Longrightarrow> list_all (\<lambda>(lookup, _). length lookup = 32) m \<Longrightarrow>
   foldl add_key_entry acc (map (\<lambda>(lookup, keyID). \<lparr>pbe_lookup = lookup, pbe_key_id = keyID\<rparr>) m) = acc @ m"
proof (induction m arbitrary: acc)
  case (Cons kv m)
  obtain k v where kv: "kv = (k, v)" by fastforce
  with Cons.prems have "AList.update k v acc = acc @ [(k, v)]" by (simp add: update_new_key)
  with Cons kv show ?case by (simp add: add_key_entry_def)
qed simp

lemma global_round_trip:
  assumes "global_spec_ok marshal unmarshal s"
  shows "DecodeGlobal marshal (EncodeGlobal unmarshal s) = s"
proof -
  have "map (\<lambda>x. decodePlugin (encodePlugin x)) (gs_DefaultPlugins s) = gs_DefaultPlugins s"
    "map (\<lambda>x. decodeGuardrail (encodeGuardrail x)) (gs_DefaultGuardrails s) = gs_DefaultGuardrails s"
    using assms by (auto simp: global_spec_ok_def list_all_iff plugin_round_trip guardrail_round_trip intro!: map_id_on)
  with assms show ?thesis
    by (simp add: DecodeGlobal_def EncodeGlobal_def global_spec_ok_def comp_def wire_round_trips policy_round_trip
        time_round_trip foldl_update_id[of "[]", simplified])
qed

lemma tenant_round_trip:
  assumes "tenant_spec_ok marshal unmarshal s"
  shows "DecodeTenant marshal (EncodeTenant unmarshal s) = s"
proof -
  have "map (\<lambda>x. decodePlugin (encodePlugin x)) (ts_Plugins s) = ts_Plugins s"
    "map (\<lambda>x. decodeGuardrail (encodeGuardrail x)) (ts_Guardrails s) = ts_Guardrails s"
    "map (\<lambda>x. decodePrincipal (encodePrincipal x)) (ts_Principals s) = ts_Principals s"
    using assms by (auto simp: tenant_spec_ok_def list_all_iff plugin_round_trip guardrail_round_trip principal_round_trip
        intro!: map_id_on)
  with assms show ?thesis
    by (simp add: DecodeTenant_def EncodeTenant_def tenant_spec_ok_def comp_def wire_round_trips policy_round_trip
        time_round_trip foldl_keys_id[of "[]", simplified])
qed

lemma loop_err_commute:
  assumes "\<And>s x. f (h s) x = map_sum id h (f s x)"
  shows "loop_err f (h s) xs = map_sum id h (loop_err f s xs)"
  by (induction xs arbitrary: s) (auto simp: assms split: sum.split)

lemma NewTenantLayer_tier:
  "NewTenantLayer (s\<lparr>ts_MinTrustTier := x\<rparr>) = map_sum id (\<lambda>l. l\<lparr>tl_minTrustTier := x\<rparr>) (NewTenantLayer s)"
proof -
  let ?h = "\<lambda>l. l\<lparr>tl_minTrustTier := x\<rparr>"
  have "empty_tenant (s\<lparr>ts_MinTrustTier := x\<rparr>) = ?h (empty_tenant s)" by (simp add: empty_tenant_def)
  moreover have "loop_err add_budget (?h l) xs = map_sum id ?h (loop_err add_budget l xs)" for l xs
    by (rule loop_err_commute) (simp add: add_budget_def)
  moreover have "loop_err add_principal (?h l) xs = map_sum id ?h (loop_err add_principal l xs)" for l xs
    by (rule loop_err_commute) (simp add: add_principal_def split: list.split)
  moreover have "check_keys (?h l) = check_keys l" for l by (simp add: check_keys_def split: list.split)
  moreover have "loop_err add_override (?h l) xs = map_sum id ?h (loop_err add_override l xs)" for l xs
    by (rule loop_err_commute) (simp add: add_override_def)
  moreover have "loop_err add_tenant_plugin (?h l) xs = map_sum id ?h (loop_err add_tenant_plugin l xs)" for l xs
    by (rule loop_err_commute) (simp add: add_tenant_plugin_def)
  ultimately show ?thesis
    by (simp add: NewTenantLayer_def split: sum.split option.split)
qed

lemma digest_nonempty: "digestOf sha ser m = Inr d \<Longrightarrow> d \<noteq> ''''"
  by (auto simp: digestOf_def split: sum.splits)

section \<open>Properties\<close>

text \<open>Claim C11. The wire format carries a configuration faithfully: for specifications whose times and timeouts
  fit the wire's milliseconds, whose lookups have the right length and whose policies are canonical
  bundles, decoding the encoded snapshot gives exactly the snapshot that building and composing the
  specifications themselves gives, errors included.\<close>

theorem snapshot_round_trip:
  assumes "global_spec_ok marshal unmarshal g" "list_all (tenant_spec_ok marshal unmarshal) ts"
  shows "DecodeSnapshot marshal (Some \<lparr>psn_global = Some (EncodeGlobal unmarshal g), psn_tenants = map (EncodeTenant unmarshal) ts\<rparr>) =
     (case NewGlobalLayer g of
        Inl e \<Rightarrow> Inl e
      | Inr global \<Rightarrow> (case map_err NewTenantLayer ts of
          Inl e \<Rightarrow> Inl e
        | Inr tenants \<Rightarrow> Compose (Some global) (map Some tenants)))"
proof -
  have "map_err (\<lambda>t. NewTenantLayer (DecodeTenant marshal t)) (map (EncodeTenant unmarshal) ts) = map_err NewTenantLayer ts"
    using assms(2) by (induction ts) (auto simp: tenant_round_trip split: sum.split)
  with assms(1) show ?thesis by (simp add: DecodeSnapshot_def global_round_trip split: sum.split)
qed

definition ex_wire_global :: global_spec where
  "ex_wire_global =
     \<lparr>gs_Version = \<lparr>v_Number = 3, v_Digest = ''''\<rparr>, gs_BuiltAt = 0,
      gs_Deployments = [\<lparr>dep_ID = ''d'', dep_Key = \<lparr>BaseModel = ''m'', AdapterID = ''''\<rparr>, dep_Provider = ''p'', dep_Endpoint = '''',
         dep_Region = '''', dep_TrustTier = TrustInternal, dep_CredentialRef = '''', dep_Weight = 100, dep_ShadowPercent = 0,
         dep_Cost = \<lparr>InputPer1K = 1, OutputPer1K = 2, CachedInputPer1K = 0, CacheWritePer1K = 0\<rparr>, dep_Capabilities = []\<rparr>],
      gs_Aliases = [], gs_TenantPrefixes = [(''t'', ''acme'')], gs_DefaultPlugins = [], gs_PolicyBundleRef = '''',
      gs_DefaultGuardrails = [], gs_DefaultPolicy = ''''\<rparr>"

definition ex_wire_tenant :: tenant_spec where
  "ex_wire_tenant =
     \<lparr>ts_Tenant = ''acme'', ts_Version = \<lparr>v_Number = 2, v_Digest = ''''\<rparr>, ts_BuiltAt = 0, ts_Tier = ''gold'', ts_Principals = [],
      ts_Keys = [], ts_AliasOverrides = [], ts_Budgets = [], ts_Plugins = [], ts_Guardrails = [], ts_Policy = '''',
      ts_MinTrustTier = TrustPrivateCloud\<rparr>"

theorem snapshot_round_trip_witness:
  "DecodeSnapshot (\<lambda>_. Inr '''') (Some \<lparr>psn_global = Some (EncodeGlobal (\<lambda>_. Inl (err_New CodeInternal '''')) ex_wire_global),
      psn_tenants = [EncodeTenant (\<lambda>_. Inl (err_New CodeInternal '''')) ex_wire_tenant]\<rparr>) =
   (case NewGlobalLayer ex_wire_global of Inl e \<Rightarrow> Inl e
    | Inr global \<Rightarrow> (case map_err NewTenantLayer [ex_wire_tenant] of Inl e \<Rightarrow> Inl e
        | Inr tenants \<Rightarrow> Compose (Some global) (map Some tenants)))"
  using snapshot_round_trip[of "\<lambda>_. Inr ''''" "\<lambda>_. Inl (err_New CodeInternal '''')" ex_wire_global "[ex_wire_tenant]"]
  by (simp add: global_spec_ok_def tenant_spec_ok_def ex_wire_global_def ex_wire_tenant_def time_ok_def policy_ok_def)

text \<open>Claim C40. A trust floor this worker does not recognise is accepted as no floor at all. A tenant layer whose
  minimum trust tier has an unknown number is built exactly when the same layer with any other floor is,
  and its floor is then \<open>TrustUnset\<close>, which every deployment satisfies; the comment on
  \<open>decodeTrustTier\<close> says such a layer is rejected.\<close>

theorem unknown_trust_floor_is_accepted:
  "case NewTenantLayer (DecodeTenant marshal (m\<lparr>ptl_min_trust_tier := TRUST_TIER_other n\<rparr>)) of
     Inl e \<Rightarrow> NewTenantLayer (DecodeTenant marshal m) = Inl e
   | Inr l \<Rightarrow> (\<exists>l'. NewTenantLayer (DecodeTenant marshal m) = Inr l') \<and> tl_minTrustTier l = TrustUnset \<and>
       AtLeast tier (tl_minTrustTier l)"
proof -
  have "DecodeTenant marshal (m\<lparr>ptl_min_trust_tier := TRUST_TIER_other n\<rparr>) = (DecodeTenant marshal m)\<lparr>ts_MinTrustTier := TrustUnset\<rparr>"
    by (simp add: DecodeTenant_def)
  moreover have "AtLeast tier TrustUnset" by (cases tier) (simp_all add: AtLeast_def less_eq_trust_tier_def)
  ultimately show ?thesis
    by (cases "NewTenantLayer (DecodeTenant marshal m)") (simp_all add: NewTenantLayer_tier)
qed

text \<open>A key entry whose lookup has the wrong length vanishes without a trace: the layer decodes exactly
  as if the entry had never been sent, so the core has nothing to reject and the key simply stops
  authenticating; the comment in \<open>DecodeTenant\<close> says the layer is rejected.\<close>

lemma malformed_keys_are_dropped:
  "DecodeTenant marshal m = DecodeTenant marshal (m\<lparr>ptl_keys := filter (\<lambda>k. length (pbe_lookup k) = 32) (ptl_keys m)\<rparr>)"
proof -
  have "foldl add_key_entry acc ks = foldl add_key_entry acc (filter (\<lambda>k. length (pbe_lookup k) = 32) ks)" for acc ks
    by (induction ks arbitrary: acc) (auto simp: add_key_entry_def)
  then show ?thesis by (simp add: DecodeTenant_def)
qed

text \<open>A sealed layer verifies, and its digest pins its content: sealing a layer that has a version
  stamps a digest that verification accepts, and any layer carrying that digest which verifies has the
  same digest over its own content. A layer without a version is sealed over different content than is
  verified, and passes only if both serialise alike.\<close>

lemma sealed_layer_verifies:
  assumes "SealGlobal sha ser m = Inr m'"
  shows "(VerifyGlobal sha ser (Some m') = None \<longleftrightarrow>
          pgl_version m \<noteq> None \<or> DigestGlobal sha ser (m\<lparr>pgl_version := Some \<lparr>pbv_number = 0, pbv_digest = ''''\<rparr>\<rparr>) = DigestGlobal sha ser m) \<and>
         (\<forall>other. VerifyGlobal sha ser (Some other) = None \<and> GetDigest (pgl_version other) = GetDigest (pgl_version m') \<longrightarrow>
            DigestGlobal sha ser other = DigestGlobal sha ser m)"
proof -
  obtain d where d: "DigestGlobal sha ser m = Inr d"
    and m': "m' = m\<lparr>pgl_version := Some ((ensureVersion (pgl_version m))\<lparr>pbv_digest := d\<rparr>)\<rparr>"
    using assms by (auto simp: SealGlobal_def split: sum.splits)
  have ne: "d \<noteq> ''''" using d unfolding DigestGlobal_def by (rule digest_nonempty)
  have "VerifyGlobal sha ser (Some m') = None \<longleftrightarrow> DigestGlobal sha ser m' = Inr d"
    using ne by (auto simp: VerifyGlobal_def m' GetDigest_def Let_def split: sum.split)
  moreover have "DigestGlobal sha ser m' = DigestGlobal sha ser m" if "pgl_version m \<noteq> None"
    using that by (auto simp: DigestGlobal_def m' clearDigest_def ensureVersion_def)
  moreover have "DigestGlobal sha ser m' = DigestGlobal sha ser (m\<lparr>pgl_version := Some \<lparr>pbv_number = 0, pbv_digest = ''''\<rparr>\<rparr>)"
    if "pgl_version m = None"
    using that by (simp add: DigestGlobal_def m' clearDigest_def ensureVersion_def)
  moreover have "DigestGlobal sha ser other = Inr d"
    if "VerifyGlobal sha ser (Some other) = None" "GetDigest (pgl_version other) = GetDigest (pgl_version m')" for other
    using that ne by (auto simp: VerifyGlobal_def m' GetDigest_def Let_def split: sum.splits if_splits)
  ultimately show ?thesis using d by (cases "pgl_version m = None") auto
qed

end
