(* ===== verification/Snapshot_Holder.thy ===== *)
theory Snapshot_Holder
  imports Gateway_Example "HOL-Library.Multiset"
begin

text \<open>
  \<open>dataplane/internal/snapshot/holder.go\<close> and \<open>subscriber.go\<close>: the reference-counted pointer to the
  configuration a worker serves. Generations live in a table and are named by their index, as they
  are named by pointers in the source. A swap and a rollback first move the pointers and then drop a
  reference; between the two, requests acquire and release leases, and an acquirer may hold a
  pointer it loaded long ago. The step relation interleaves exactly these atomic operations.
\<close>

section \<open>State and operations\<close>

record generation =
  gen_snap :: snapshot
  gen_refs :: int
  gen_retired :: bool

record lease =
  le_gen :: nat
  le_released :: bool

text \<open>\<open>h_dropping\<close> are references a swap or rollback has given up and not yet released;
  \<open>h_retireLog\<close> is the sequence of calls of the retire callback, \<open>h_applyLog\<close> of the apply callback.\<close>

record holder =
  h_gens :: "generation list"
  h_current :: nat
  h_previous :: "nat option"
  h_leases :: "lease list"
  h_dropping :: "nat list"
  h_retireLog :: "nat list"
  h_applyLog :: "snapshot list"

definition newGeneration :: "snapshot \<Rightarrow> generation" where
  "newGeneration s = \<lparr>gen_snap = s, gen_refs = 1, gen_retired = False\<rparr>"

definition holder_New :: "snapshot option \<Rightarrow> go_error + holder" where
  "holder_New initial =
     (case initial of
        None \<Rightarrow> Inl (err_New CodeInvalidRequest ''a holder needs an initial snapshot'')
      | Some s \<Rightarrow> Inr \<lparr>h_gens = [newGeneration s], h_current = 0, h_previous = None, h_leases = [],
                       h_dropping = [], h_retireLog = [], h_applyLog = []\<rparr>)"

definition tryRef :: "holder \<Rightarrow> nat \<Rightarrow> bool \<times> holder" where
  "tryRef h g =
     (let n = gen_refs (h_gens h ! g) in
      if n \<le> 0 then (False, h)
      else (True, h\<lparr>h_gens := (h_gens h)[g := (h_gens h ! g)\<lparr>gen_refs := n + 1\<rparr>]\<rparr>))"

definition unref :: "holder \<Rightarrow> nat \<Rightarrow> holder" where
  "unref h g =
     (let n = gen_refs (h_gens h ! g) - 1;
          h1 = h\<lparr>h_gens := (h_gens h)[g := (h_gens h ! g)\<lparr>gen_refs := n\<rparr>]\<rparr>
      in if n > 0 then h1
         else if gen_retired (h_gens h1 ! g) then h1
         else h1\<lparr>h_gens := (h_gens h1)[g := (h_gens h1 ! g)\<lparr>gen_retired := True\<rparr>],
                 h_retireLog := h_retireLog h1 @ [g]\<rparr>)"

text \<open>One round of the loop of \<open>Acquire\<close> on a loaded pointer: a lease, or a failed try.\<close>

definition acquire_on :: "holder \<Rightarrow> nat \<Rightarrow> bool \<times> holder" where
  "acquire_on h g =
     (case tryRef h g of
        (False, h1) \<Rightarrow> (False, h1)
      | (True, h1) \<Rightarrow> (True, h1\<lparr>h_leases := h_leases h1 @ [\<lparr>le_gen = g, le_released = False\<rparr>]\<rparr>))"

definition Acquire :: "holder \<Rightarrow> bool \<times> holder" where
  "Acquire h = acquire_on h (h_current h)"

definition lease_Snapshot :: "holder \<Rightarrow> nat \<Rightarrow> snapshot" where
  "lease_Snapshot h l = gen_snap (h_gens h ! le_gen (h_leases h ! l))"

definition lease_Release :: "holder \<Rightarrow> nat \<Rightarrow> holder" where
  "lease_Release h l =
     (if le_released (h_leases h ! l) then h
      else unref (h\<lparr>h_leases := (h_leases h)[l := (h_leases h ! l)\<lparr>le_released := True\<rparr>]\<rparr>)
             (le_gen (h_leases h ! l)))"

definition Current :: "holder \<Rightarrow> snapshot" where
  "Current h = gen_snap (h_gens h ! h_current h)"

definition tenant_moves_back :: "snapshot \<Rightarrow> snapshot \<Rightarrow> string \<Rightarrow> (nat \<times> nat) option" where
  "tenant_moves_back cur nxt t =
     (case TenantVersion cur t of
        None \<Rightarrow> None
      | Some have \<Rightarrow> (let got = (case TenantVersion nxt t of Some v \<Rightarrow> v_Number v | None \<Rightarrow> 0)
                      in if got < v_Number have then Some (v_Number have, got) else None))"

fun first_regression :: "snapshot \<Rightarrow> snapshot \<Rightarrow> string list \<Rightarrow> go_error option" where
  "first_regression cur nxt [] = None"
| "first_regression cur nxt (t # ts) =
     (case tenant_moves_back cur nxt t of
        Some (have, got) \<Rightarrow> Some (err_Newf CodeInvalidRequest
          ''tenant %q layer version would move backwards, from %d to %d'' [AStr t, AInt (int have), AInt (int got)])
      | None \<Rightarrow> first_regression cur nxt ts)"

definition checkMonotonic :: "snapshot \<Rightarrow> snapshot \<Rightarrow> go_error option" where
  "checkMonotonic cur nxt =
     (let got = v_Number (GlobalVersion nxt); have = v_Number (GlobalVersion cur) in
      if got < have
      then Some (err_Newf CodeInvalidRequest ''global layer version would move backwards, from %d to %d''
                   [AInt (int have), AInt (int got)])
      else first_regression cur nxt (TenantIDs nxt))"

definition swap_install :: "holder \<Rightarrow> snapshot \<Rightarrow> holder" where
  \<comment> \<open>The pointer moves of a swap; the displaced reference is still to be dropped.\<close>
  "swap_install h nxt =
     h\<lparr>h_applyLog := h_applyLog h @ [nxt], h_previous := Some (h_current h), h_current := length (h_gens h),
       h_gens := h_gens h @ [newGeneration nxt],
       h_dropping := (case h_previous h of Some d \<Rightarrow> d # h_dropping h | None \<Rightarrow> h_dropping h)\<rparr>"

definition rollback_install :: "holder \<Rightarrow> nat \<Rightarrow> holder" where
  "rollback_install h p = h\<lparr>h_current := p, h_previous := None, h_dropping := h_current h # h_dropping h\<rparr>"

definition drop_one :: "holder \<Rightarrow> nat \<Rightarrow> holder" where
  "drop_one h g = unref (h\<lparr>h_dropping := remove1 g (h_dropping h)\<rparr>) g"

definition Swap :: "holder \<Rightarrow> snapshot option \<Rightarrow> go_error option \<times> holder" where
  "Swap h nxt =
     (case nxt of
        None \<Rightarrow> (Some (err_New CodeInvalidRequest ''cannot swap in a nil snapshot''), h)
      | Some n \<Rightarrow> (case checkMonotonic (Current h) n of
          Some e \<Rightarrow> (Some e, h)
        | None \<Rightarrow> (None, case h_previous h of
                            Some d \<Rightarrow> drop_one (swap_install h n) d
                          | None \<Rightarrow> swap_install h n)))"

definition Rollback :: "holder \<Rightarrow> go_error option \<times> holder" where
  "Rollback h =
     (case h_previous h of
        None \<Rightarrow> (Some (err_New CodeInvalidRequest ''no previous snapshot to roll back to''), h)
      | Some p \<Rightarrow> (None, drop_one (rollback_install h p) (h_current h)))"

record holder_stats =
  hs_Version :: layer_version
  hs_InFlight :: int
  hs_PreviousVersion :: "layer_version option"
  hs_PreviousInFlight :: int

definition holder_Stats :: "holder \<Rightarrow> holder_stats" where
  "holder_Stats h =
     \<lparr>hs_Version = GlobalVersion (Current h), hs_InFlight = gen_refs (h_gens h ! h_current h) - 1,
      hs_PreviousVersion = map_option (\<lambda>p. GlobalVersion (gen_snap (h_gens h ! p))) (h_previous h),
      hs_PreviousInFlight = (case h_previous h of Some p \<Rightarrow> gen_refs (h_gens h ! p) - 1 | None \<Rightarrow> 0)\<rparr>"

section \<open>Interleavings\<close>

inductive holder_step :: "holder \<Rightarrow> holder \<Rightarrow> bool" where
  step_acquire: "g < length (h_gens h) \<Longrightarrow> acquire_on h g = (ok, h') \<Longrightarrow> holder_step h h'"
| step_release: "l < length (h_leases h) \<Longrightarrow> holder_step h (lease_Release h l)"
| step_swap: "checkMonotonic (Current h) n = None \<Longrightarrow> holder_step h (swap_install h n)"
| step_rollback: "h_previous h = Some p \<Longrightarrow> holder_step h (rollback_install h p)"
| step_drop: "g \<in> set (h_dropping h) \<Longrightarrow> holder_step h (drop_one h g)"

inductive_cases holder_stepE: "holder_step h h'"

inductive holder_reach :: "snapshot \<Rightarrow> holder \<Rightarrow> bool" for s0 where
  reach_init: "holder_New (Some s0) = Inr h \<Longrightarrow> holder_reach s0 h"
| reach_step: "holder_reach s0 h \<Longrightarrow> holder_step h h' \<Longrightarrow> holder_reach s0 h'"

section \<open>Who holds a reference\<close>

definition live_leases :: "holder \<Rightarrow> nat \<Rightarrow> int" where
  "live_leases h g = int (length (filter (\<lambda>l. \<not> le_released l \<and> le_gen l = g) (h_leases h)))"

definition owners :: "holder \<Rightarrow> nat \<Rightarrow> int" where
  "owners h g = (if h_current h = g then 1 else 0) + (if h_previous h = Some g then 1 else 0)
              + int (count (mset (h_dropping h)) g) + live_leases h g"

definition holder_bounds :: "holder \<Rightarrow> bool" where
  "holder_bounds h =
     (h_current h < length (h_gens h) \<and>
      (\<forall>p. h_previous h = Some p \<longrightarrow> p < length (h_gens h)) \<and>
      (\<forall>g \<in> set (h_dropping h). g < length (h_gens h)) \<and>
      (\<forall>l \<in> set (h_leases h). le_gen l < length (h_gens h)) \<and>
      distinct (h_retireLog h) \<and> set (h_retireLog h) \<subseteq> {..<length (h_gens h)})"

definition gen_inv :: "holder \<Rightarrow> nat \<Rightarrow> bool" where
  "gen_inv h g =
     (gen_refs (h_gens h ! g) = owners h g \<and> (gen_retired (h_gens h ! g) \<longleftrightarrow> owners h g = 0) \<and>
      (gen_retired (h_gens h ! g) \<longleftrightarrow> g \<in> set (h_retireLog h)))"

definition holder_inv :: "holder \<Rightarrow> bool" where
  "holder_inv h = (holder_bounds h \<and> (\<forall>g < length (h_gens h). gen_inv h g))"
lemma live_leases_nonneg [simp]: "0 \<le> live_leases h g"
  by (simp add: live_leases_def)

lemma owners_nonneg [simp]: "0 \<le> owners h g"
  by (simp add: owners_def)

lemma filter_length_update:
  assumes "l < length xs"
  shows "int (length (filter P (xs[l := y]))) = int (length (filter P xs)) - (if P (xs ! l) then 1 else 0) + (if P y then 1 else 0)"
  using assms
proof (induction xs arbitrary: l)
  case (Cons x xs)
  show ?case
  proof (cases l)
    case (Suc k)
    with Cons.prems have "k < length xs" by simp
    from Cons.IH[OF this] Suc show ?thesis by (auto split: if_splits)
  qed simp
qed simp

lemma live_leases_release:
  assumes "l < length (h_leases h)" "\<not> le_released (h_leases h ! l)"
  shows "live_leases (h\<lparr>h_leases := (h_leases h)[l := (h_leases h ! l)\<lparr>le_released := True\<rparr>]\<rparr>) g
         = live_leases h g - (if le_gen (h_leases h ! l) = g then 1 else 0)"
  using assms by (simp add: live_leases_def filter_length_update)

text \<open>Dropping a reference from a state in which one more reference than owner exists for \<open>g\<close>.\<close>

lemma unref_inv:
  assumes "g < length (h_gens h)" "gen_refs (h_gens h ! g) = owners h g + 1" "\<not> gen_retired (h_gens h ! g)"
    and "g \<notin> set (h_retireLog h)"
    and "\<And>k. k < length (h_gens h) \<Longrightarrow> k \<noteq> g \<Longrightarrow> gen_inv h k" and "holder_bounds h"
  shows "holder_inv (unref h g)"
proof -
  have o: "owners (h\<lparr>h_gens := gs\<rparr>) k = owners h k" "owners (h\<lparr>h_gens := gs, h_retireLog := rl\<rparr>) k = owners h k" for gs rl k
    by (simp_all add: owners_def live_leases_def)
  show ?thesis
  proof (cases "owners h g > 0")
    case True
    then have u: "unref h g = h\<lparr>h_gens := (h_gens h)[g := (h_gens h ! g)\<lparr>gen_refs := owners h g\<rparr>]\<rparr>"
      using assms(2) by (simp add: unref_def Let_def)
    show ?thesis
      unfolding u holder_inv_def holder_bounds_def gen_inv_def o
      using assms True by (auto simp: nth_list_update holder_bounds_def gen_inv_def)
  next
    case False
    then have z: "owners h g = 0" using owners_nonneg[of h g] by linarith
    have u: "unref h g = h\<lparr>h_gens := (h_gens h)[g := (h_gens h ! g)\<lparr>gen_refs := 0, gen_retired := True\<rparr>],
                          h_retireLog := h_retireLog h @ [g]\<rparr>"
      using assms(1,2,3) z by (simp add: unref_def Let_def)
    show ?thesis
      unfolding u holder_inv_def holder_bounds_def gen_inv_def o
      using assms z by (auto simp: nth_list_update holder_bounds_def gen_inv_def)
  qed
qed

lemma holder_invD:
  assumes "holder_inv h" "g < length (h_gens h)"
  shows "gen_refs (h_gens h ! g) = owners h g" "gen_retired (h_gens h ! g) \<longleftrightarrow> owners h g = 0"
    "gen_retired (h_gens h ! g) \<longleftrightarrow> g \<in> set (h_retireLog h)"
  using assms by (auto simp: holder_inv_def gen_inv_def)

lemma holder_inv_bounds: "holder_inv h \<Longrightarrow> holder_bounds h"
  by (simp add: holder_inv_def)

lemma acquire_on_inv:
  assumes "holder_inv h" "g < length (h_gens h)" "acquire_on h g = (ok, h')"
  shows "holder_inv h'"
proof (cases "gen_refs (h_gens h ! g) \<le> 0")
  case True
  with assms show ?thesis by (simp add: acquire_on_def tryRef_def Let_def)
next
  case False
  let ?l = "\<lparr>le_gen = g, le_released = False\<rparr>"
  have h': "h' = h\<lparr>h_gens := (h_gens h)[g := (h_gens h ! g)\<lparr>gen_refs := gen_refs (h_gens h ! g) + 1\<rparr>],
                   h_leases := h_leases h @ [?l]\<rparr>"
    using assms(3) False by (auto simp: acquire_on_def tryRef_def Let_def)
  have o: "owners h' k = owners h k + (if k = g then 1 else 0)" for k
    by (simp add: owners_def live_leases_def h')
  have pos: "0 < owners h g" using False holder_invD(1)[OF assms(1,2)] by simp
  show ?thesis
    using assms(1,2) pos unfolding holder_inv_def holder_bounds_def gen_inv_def o
    by (auto simp: h' nth_list_update)
qed

lemma lease_Release_inv:
  assumes "holder_inv h" "l < length (h_leases h)"
  shows "holder_inv (lease_Release h l)"
proof (cases "le_released (h_leases h ! l)")
  case False
  define g where "g = le_gen (h_leases h ! l)"
  define h1 where "h1 = h\<lparr>h_leases := (h_leases h)[l := (h_leases h ! l)\<lparr>le_released := True\<rparr>]\<rparr>"
  have g: "g < length (h_gens h)" using assms by (auto simp: holder_inv_def holder_bounds_def g_def)
  have o: "owners h1 k = owners h k - (if k = g then 1 else 0)" for k
    using live_leases_release[OF assms(2) False, of k]
    by (simp add: owners_def h1_def[symmetric] g_def[symmetric]) (simp add: h1_def)
  have "live_leases h g \<ge> 1"
    using live_leases_release[OF assms(2) False, of g] live_leases_nonneg[of h1 g]
    by (simp add: h1_def[symmetric] g_def[symmetric])
  then have pos: "owners h g > 0" by (simp add: owners_def)
  have leases: "\<forall>x \<in> set (h_leases h1). le_gen x < length (h_gens h1)"
    using holder_inv_bounds[OF assms(1)] g
    by (auto simp: h1_def holder_bounds_def g_def dest!: subsetD[OF set_update_subset_insert])
  then have bounds: "holder_bounds h1"
    using holder_inv_bounds[OF assms(1)] by (simp add: holder_bounds_def h1_def)
  have eq: "h_gens h1 = h_gens h" "h_retireLog h1 = h_retireLog h" by (simp_all add: h1_def)
  have others: "gen_inv h1 k" if "k < length (h_gens h1)" "k \<noteq> g" for k
    using holder_invD[OF assms(1), of k] that by (simp add: gen_inv_def o eq)
  have "holder_inv (unref h1 g)"
  proof (rule unref_inv)
    show "gen_refs (h_gens h1 ! g) = owners h1 g + 1" "\<not> gen_retired (h_gens h1 ! g)" "g \<notin> set (h_retireLog h1)"
      using holder_invD[OF assms(1) g] pos by (auto simp: o) (simp_all add: h1_def)
  qed (use bounds others g in \<open>auto simp: h1_def\<close>)
  with False show ?thesis by (simp add: lease_Release_def h1_def g_def)
qed (use assms in \<open>simp add: lease_Release_def\<close>)

lemma swap_install_inv:
  assumes "holder_inv h" shows "holder_inv (swap_install h n)"
proof -
  let ?h = "swap_install h n" and ?N = "length (h_gens h)"
  have bounds: "h_current h < ?N" "\<And>p. h_previous h = Some p \<Longrightarrow> p < ?N" "?N \<notin> set (h_dropping h)"
    "\<And>l. l \<in> set (h_leases h) \<Longrightarrow> le_gen l < ?N"
    using assms by (auto simp: holder_inv_def holder_bounds_def)
  have live: "live_leases ?h k = live_leases h k" for k by (simp add: live_leases_def swap_install_def)
  have none: "live_leases h ?N = 0"
    using bounds(4) by (fastforce simp: live_leases_def filter_empty_conv)
  have old: "owners ?h k = owners h k" if "k < ?N" for k
    using that bounds(1) unfolding owners_def live
    by (auto simp: swap_install_def split: option.split)
  have new: "owners ?h ?N = 1"
    using bounds none unfolding owners_def live
    by (auto simp: swap_install_def count_eq_zero_iff split: option.split)
  have len: "length (h_gens ?h) = Suc ?N" by (simp add: swap_install_def)
  have gens: "gen_inv ?h k" if "k < Suc ?N" for k
  proof (cases "k < ?N")
    case True
    then have "h_gens ?h ! k = h_gens h ! k" "h_retireLog ?h = h_retireLog h"
      by (simp_all add: swap_install_def nth_append)
    with holder_invD[OF assms True] old[OF True] show ?thesis by (simp add: gen_inv_def)
  next
    case False
    then have k: "k = ?N" using that by simp
    moreover have "?N \<notin> set (h_retireLog h)" using holder_inv_bounds[OF assms] by (auto simp: holder_bounds_def)
    ultimately show ?thesis using new
      unfolding gen_inv_def k by (simp add: swap_install_def newGeneration_def nth_append)
  qed
  have "holder_bounds ?h"
    using holder_inv_bounds[OF assms]
    by (auto simp: swap_install_def holder_bounds_def less_Suc_eq split: option.split)
  with gens len show ?thesis by (simp add: holder_inv_def)
qed

lemma rollback_install_inv:
  assumes "holder_inv h" "h_previous h = Some p" shows "holder_inv (rollback_install h p)"
proof -
  have o: "owners (rollback_install h p) k = owners h k" for k
    using assms(2) by (auto simp: owners_def live_leases_def rollback_install_def)
  show ?thesis
    using assms unfolding holder_inv_def holder_bounds_def gen_inv_def o
    by (auto simp: rollback_install_def)
qed

lemma drop_one_inv:
  assumes "holder_inv h" "g \<in> set (h_dropping h)" shows "holder_inv (drop_one h g)"
proof -
  define h1 where "h1 = h\<lparr>h_dropping := remove1 g (h_dropping h)\<rparr>"
  have g: "g < length (h_gens h)" using assms by (auto simp: holder_inv_def holder_bounds_def)
  have c: "count (mset (h_dropping h)) g > 0" using assms(2) by simp
  then have c1: "1 \<le> int (count (mset (h_dropping h)) g)" by linarith
  have o: "owners h1 k = owners h k - (if k = g then 1 else 0)" for k
    using c by (auto simp: owners_def live_leases_def h1_def)
  have pos: "owners h g > 0"
  proof -
    have "0 \<le> (if h_current h = g then 1 else 0 :: int)" "0 \<le> (if h_previous h = Some g then 1 else 0 :: int)"
      by simp_all
    then show ?thesis unfolding owners_def using c1 live_leases_nonneg[of h g] by linarith
  qed
  have bounds: "holder_bounds h1"
    using holder_inv_bounds[OF assms(1)] by (auto simp: holder_bounds_def h1_def dest: notin_set_remove1)
  have eq: "h_gens h1 = h_gens h" "h_retireLog h1 = h_retireLog h" by (simp_all add: h1_def)
  have others: "gen_inv h1 k" if "k < length (h_gens h1)" "k \<noteq> g" for k
    using holder_invD[OF assms(1), of k] that by (simp add: gen_inv_def o eq)
  have "holder_inv (unref h1 g)"
  proof (rule unref_inv)
    show "gen_refs (h_gens h1 ! g) = owners h1 g + 1" "\<not> gen_retired (h_gens h1 ! g)" "g \<notin> set (h_retireLog h1)"
      using holder_invD[OF assms(1) g] pos by (auto simp: o) (simp_all add: h1_def)
  qed (use bounds others g in \<open>auto simp: h1_def\<close>)
  then show ?thesis by (simp add: drop_one_def h1_def)
qed

lemma holder_step_inv: "holder_step h h' \<Longrightarrow> holder_inv h \<Longrightarrow> holder_inv h'"
  by (induction rule: holder_step.induct)
     (simp_all add: acquire_on_inv lease_Release_inv swap_install_inv rollback_install_inv drop_one_inv)

lemma holder_New_inv: "holder_New (Some s) = Inr h \<Longrightarrow> holder_inv h"
  by (auto simp: holder_New_def holder_inv_def holder_bounds_def gen_inv_def owners_def live_leases_def newGeneration_def)

lemma holder_reach_inv: "holder_reach s0 h \<Longrightarrow> holder_inv h"
  by (induction rule: holder_reach.induct) (auto intro: holder_New_inv holder_step_inv)

section \<open>Operations as sequences of steps\<close>

lemma Swap_steps:
  assumes "Swap h (Some n) = (None, h')"
  shows "holder_step h (swap_install h n) \<and> (h' = swap_install h n \<or> holder_step (swap_install h n) h')"
proof -
  from assms have m: "checkMonotonic (Current h) n = None" by (auto simp: Swap_def split: option.splits)
  then have "holder_step h (swap_install h n)" by (rule step_swap)
  moreover have "holder_step (swap_install h n) (drop_one (swap_install h n) d)" if "h_previous h = Some d" for d
    by (rule step_drop) (simp add: swap_install_def that)
  ultimately show ?thesis using assms m by (auto simp: Swap_def split: option.splits)
qed

lemma Rollback_steps:
  assumes "Rollback h = (None, h')"
  shows "\<exists>p. h_previous h = Some p \<and> holder_step h (rollback_install h p) \<and> holder_step (rollback_install h p) h'"
proof -
  from assms obtain p where p: "h_previous h = Some p" "h' = drop_one (rollback_install h p) (h_current h)"
    by (auto simp: Rollback_def split: option.splits)
  have "holder_step (rollback_install h p) (drop_one (rollback_install h p) (h_current h))"
    by (rule step_drop) (simp add: rollback_install_def)
  with p step_rollback[OF p(1)] show ?thesis by auto
qed

section \<open>A generation never changes its snapshot\<close>

lemma nth_list_update_if: "xs[i := x] ! j = (if i = j \<and> i < length xs then x else xs ! j)"
  by (metis list_update_beyond not_less nth_list_update)

lemma unref_snap:
  "length (h_gens (unref h g)) = length (h_gens h)" "gen_snap (h_gens (unref h g) ! k) = gen_snap (h_gens h ! k)"
  "h_leases (unref h g) = h_leases h" "h_current (unref h g) = h_current h"
  by (simp_all add: unref_def Let_def nth_list_update_if)

lemma holder_step_snap:
  assumes "holder_step h h'"
  shows "length (h_gens h) \<le> length (h_gens h') \<and>
         (\<forall>k < length (h_gens h). gen_snap (h_gens h' ! k) = gen_snap (h_gens h ! k)) \<and>
         length (h_leases h) \<le> length (h_leases h') \<and>
         (\<forall>l < length (h_leases h). le_gen (h_leases h' ! l) = le_gen (h_leases h ! l))"
  using assms
proof cases
  case (step_acquire g ok)
  then show ?thesis
    by (auto simp: acquire_on_def tryRef_def Let_def nth_list_update_if nth_append split: if_splits prod.splits)
next
  case (step_release l)
  then show ?thesis by (auto simp: lease_Release_def unref_snap nth_list_update_if)
next
  case (step_swap n)
  then show ?thesis by (auto simp: swap_install_def nth_append)
next
  case (step_rollback p)
  then show ?thesis by (auto simp: rollback_install_def)
next
  case (step_drop g)
  then show ?thesis by (auto simp: drop_one_def unref_snap)
qed

section \<open>Versions only move forward\<close>

lemma first_regression_None:
  "first_regression cur nxt ts = None \<longleftrightarrow> (\<forall>t \<in> set ts. tenant_moves_back cur nxt t = None)"
  by (induction ts) (auto split: option.splits)

lemma checkMonotonic_None:
  "checkMonotonic cur nxt = None \<longleftrightarrow>
     v_Number (GlobalVersion cur) \<le> v_Number (GlobalVersion nxt) \<and>
     (\<forall>t a b. TenantVersion cur t = Some a \<longrightarrow> TenantVersion nxt t = Some b \<longrightarrow> v_Number a \<le> v_Number b)"
proof -
  have ids: "t \<in> set (TenantIDs nxt) \<longleftrightarrow> (\<exists>b. TenantVersion nxt t = Some b)" for t
    using gomap_keys_iff[of t "sn_tenants nxt"] by (simp add: TenantIDs_def TenantVersion_def)
  have moves: "tenant_moves_back cur nxt t = None \<longleftrightarrow> (\<forall>a. TenantVersion cur t = Some a \<longrightarrow> v_Number a \<le> v_Number b)"
    if "TenantVersion nxt t = Some b" for t b
    using that by (auto simp: tenant_moves_back_def Let_def not_less split: option.split)
  have "(\<forall>t \<in> set (TenantIDs nxt). tenant_moves_back cur nxt t = None) \<longleftrightarrow>
        (\<forall>t a b. TenantVersion cur t = Some a \<longrightarrow> TenantVersion nxt t = Some b \<longrightarrow> v_Number a \<le> v_Number b)"
    unfolding Ball_def ids using moves by blast
  then show ?thesis by (auto simp: checkMonotonic_def Let_def first_regression_None)
qed

section \<open>The subscriber\<close>

record fetched =
  ft_Snapshot :: "snapshot option"
  ft_Digest :: string
  ft_Unchanged :: bool

record subscriber =
  sub_digest :: "string option"
  sub_applied :: nat
  sub_unchanged :: nat
  sub_failed :: nat
  sub_rejected :: nat
  sub_lastError :: "go_error option"

definition NewSubscriber :: subscriber where
  "NewSubscriber = \<lparr>sub_digest = None, sub_applied = 0, sub_unchanged = 0, sub_failed = 0, sub_rejected = 0,
                    sub_lastError = None\<rparr>"

type_synonym fetch_fun = "string \<Rightarrow> go_error + fetched"

definition Refresh :: "fetch_fun \<Rightarrow> subscriber \<Rightarrow> holder \<Rightarrow> go_error option \<times> subscriber \<times> holder" where
  "Refresh fetch s h =
     (case fetch (case sub_digest s of Some d \<Rightarrow> d | None \<Rightarrow> '''') of
        Inl e \<Rightarrow> (Some e, s\<lparr>sub_failed := sub_failed s + 1, sub_lastError := Some e\<rparr>, h)
      | Inr f \<Rightarrow>
          if ft_Unchanged f \<or> ft_Snapshot f = None
          then (None, s\<lparr>sub_unchanged := sub_unchanged s + 1\<rparr>, h)
          else (case Swap h (ft_Snapshot f) of
              (Some e, h') \<Rightarrow> (Some e, s\<lparr>sub_rejected := sub_rejected s + 1, sub_lastError := Some e\<rparr>, h')
            | (None, h') \<Rightarrow> (None, s\<lparr>sub_digest := Some (ft_Digest f), sub_applied := sub_applied s + 1,
                                    sub_lastError := None\<rparr>, h')))"

text \<open>The delay before the next try: doubled up to the maximum on a failure, back to the minimum otherwise.\<close>

definition next_backoff :: "duration \<Rightarrow> duration \<Rightarrow> duration \<Rightarrow> go_error option \<Rightarrow> duration" where
  "next_backoff minB maxB backoff err = (case err of Some _ \<Rightarrow> min (i64 (backoff * 2)) maxB | None \<Rightarrow> minB)"

definition jitterUpTo :: "real \<Rightarrow> real \<Rightarrow> duration \<Rightarrow> duration" where
  \<comment> \<open>\<open>u\<close> is the random number in \<open>[0,1)\<close>.\<close>
  "jitterUpTo ratio u d = (if d \<le> 0 then d else d + \<lfloor>u * (real_of_int d * ratio)\<rfloor>)"

fun refresh_all :: "duration \<Rightarrow> duration \<Rightarrow> fetch_fun list \<Rightarrow> duration \<Rightarrow> subscriber \<Rightarrow> holder \<Rightarrow> duration \<times> subscriber \<times> holder" where
  \<comment> \<open>The loop of \<open>run\<close>, one fetch per round, until the list ends.\<close>
  "refresh_all minB maxB [] backoff s h = (backoff, s, h)"
| "refresh_all minB maxB (f # fs) backoff s h =
     (case Refresh f s h of (err, s', h') \<Rightarrow> refresh_all minB maxB fs (next_backoff minB maxB backoff err) s' h')"

text \<open>\<open>FileSource.Fetch\<close>, over the outcome of reading the file and the decoder.\<close>

definition file_Fetch :: "go_error + string \<Rightarrow> (string \<Rightarrow> go_error + snapshot \<times> string) \<Rightarrow> fetch_fun" where
  "file_Fetch read dec known =
     (case read of
        Inl e \<Rightarrow> Inl (GwError CodeUnavailable (Msg ''reading the snapshot file'' []) False (Some e))
      | Inr b \<Rightarrow> (case dec b of
          Inl e \<Rightarrow> Inl e
        | Inr (snap, digest) \<Rightarrow>
            if digest \<noteq> '''' \<and> digest = known
            then Inr \<lparr>ft_Snapshot = None, ft_Digest = digest, ft_Unchanged = True\<rparr>
            else Inr \<lparr>ft_Snapshot = Some snap, ft_Digest = digest, ft_Unchanged = False\<rparr>))"

lemma Swap_error_frame: "Swap h n = (Some e, h') \<Longrightarrow> h' = h"
  by (auto simp: Swap_def split: option.splits)

lemma Refresh_frozen: "Refresh f s h = (Some e, s', h') \<Longrightarrow> h' = h \<and> sub_digest s' = sub_digest s"
  by (auto simp: Refresh_def split: sum.splits if_splits prod.splits option.splits dest: Swap_error_frame)

lemma Refresh_counts:
  assumes "Refresh f s h = (err, s', h')"
  shows "sub_applied s' + sub_unchanged s' + sub_failed s' + sub_rejected s'
         = Suc (sub_applied s + sub_unchanged s + sub_failed s + sub_rejected s)"
  using assms by (auto simp: Refresh_def split: sum.splits if_splits prod.splits option.splits)

lemma Refresh_steps:
  assumes "Refresh f s h = (err, s', h')"
  shows "holder_step\<^sup>*\<^sup>* h h'"
proof -
  have "h' = h \<or> (\<exists>n. Swap h (Some n) = (None, h'))"
    using assms
    by (auto simp: Refresh_def split: sum.splits if_splits prod.splits option.splits dest: Swap_error_frame)
  then show ?thesis
  proof
    assume "\<exists>n. Swap h (Some n) = (None, h')"
    then obtain n where n: "Swap h (Some n) = (None, h')" ..
    from Swap_steps[OF n] show ?thesis by (metis rtranclp.rtrancl_into_rtrancl rtranclp.rtrancl_refl)
  qed simp
qed

lemma next_backoff_bounds:
  assumes "0 < minB" "minB \<le> maxB" "maxB < 2 ^ 62" "minB \<le> b" "b \<le> maxB"
  shows "minB \<le> next_backoff minB maxB b err \<and> next_backoff minB maxB b err \<le> maxB"
proof -
  have "i64 (b * 2) = b * 2" using assms by (intro i64_id_nonneg) auto
  then show ?thesis using assms by (auto simp: next_backoff_def split: option.split)
qed

section \<open>Properties\<close>

lemma holder_steps_snap:
  assumes "holder_step\<^sup>*\<^sup>* h h'"
  shows "length (h_gens h) \<le> length (h_gens h') \<and>
         (\<forall>k < length (h_gens h). gen_snap (h_gens h' ! k) = gen_snap (h_gens h ! k)) \<and>
         length (h_leases h) \<le> length (h_leases h') \<and>
         (\<forall>l < length (h_leases h). le_gen (h_leases h' ! l) = le_gen (h_leases h ! l))"
  using assms
proof (induction rule: rtranclp_induct)
  case (step y z)
  with holder_step_snap[OF step.hyps(2)] show ?case by (metis less_le_trans order_trans)
qed simp

lemma holder_reach_steps: "holder_step\<^sup>*\<^sup>* h h' \<Longrightarrow> holder_reach s0 h \<Longrightarrow> holder_reach s0 h'"
  by (induction rule: rtranclp_induct) (auto intro: reach_step)

text \<open>Claim C6. A configuration is never taken from under a request: however leases, releases, swaps, rollbacks and the dropping
  of old generations interleave, a lease that is not released keeps the snapshot it was given, its generation is not
  retired, and no generation is retired twice.\<close>

theorem live_lease_keeps_its_snapshot:
  assumes "holder_reach s0 h" "holder_step\<^sup>*\<^sup>* h h'" "l < length (h_leases h)" "\<not> le_released (h_leases h' ! l)"
  shows "lease_Snapshot h' l = lease_Snapshot h l \<and> \<not> gen_retired (h_gens h' ! le_gen (h_leases h' ! l)) \<and> distinct (h_retireLog h')"
proof -
  note s = holder_steps_snap[OF assms(2)]
  have i: "holder_inv h" "holder_inv h'"
    using holder_reach_inv[OF assms(1)] holder_reach_inv[OF holder_reach_steps[OF assms(2,1)]] by auto
  have l: "l < length (h_leases h')" using s assms(3) by simp
  have g: "le_gen (h_leases h' ! l) < length (h_gens h')" "le_gen (h_leases h ! l) < length (h_gens h)"
    using i l assms(3) by (auto simp: holder_inv_def holder_bounds_def)
  have "0 < live_leases h' (le_gen (h_leases h' ! l))"
    using l assms(4) by (auto simp: live_leases_def filter_empty_conv intro!: bexI[of _ "h_leases h' ! l"])
  then have "owners h' (le_gen (h_leases h' ! l)) \<noteq> 0" by (auto simp: owners_def split: if_splits)
  with i(2) g(1) have "\<not> gen_retired (h_gens h' ! le_gen (h_leases h' ! l))" by (auto simp: holder_inv_def gen_inv_def)
  moreover have "lease_Snapshot h' l = lease_Snapshot h l" using s g(2) assms(3) by (simp add: lease_Snapshot_def)
  moreover have "distinct (h_retireLog h')" using i(2) by (simp add: holder_inv_def holder_bounds_def)
  ultimately show ?thesis by blast
qed

definition ex_holder :: holder where
  "ex_holder = snd (Acquire (projr (holder_New (Some ex_snapshot))))"

theorem live_lease_keeps_its_snapshot_witness:
  "lease_Snapshot (swap_install ex_holder ex_snapshot) 0 = ex_snapshot \<and> \<not> gen_retired (h_gens (swap_install ex_holder ex_snapshot) ! 0)"
proof -
  have h: "holder_New (Some ex_snapshot) = Inr (projr (holder_New (Some ex_snapshot)))" by (simp add: holder_New_def)
  have "holder_step (projr (holder_New (Some ex_snapshot))) ex_holder"
    by (rule step_acquire[of 0 _ True])
      (simp_all add: ex_holder_def Acquire_def acquire_on_def tryRef_def holder_New_def newGeneration_def)
  then have r: "holder_reach ex_snapshot ex_holder" by (rule reach_step[OF reach_init[OF h]])
  have "checkMonotonic (Current ex_holder) ex_snapshot = None"
    by (simp add: ex_holder_def Acquire_def acquire_on_def tryRef_def holder_New_def newGeneration_def Current_def checkMonotonic_None)
  then have "holder_step\<^sup>*\<^sup>* ex_holder (swap_install ex_holder ex_snapshot)" by (intro r_into_rtranclp step_swap)
  from live_lease_keeps_its_snapshot[OF r this, of 0] show ?thesis
    by (simp add: ex_holder_def Acquire_def acquire_on_def tryRef_def holder_New_def newGeneration_def swap_install_def lease_Snapshot_def)
qed

end
