(* ===== verification/Snapshot_Source.thy ===== *)
theory Snapshot_Source
  imports Wire Snapshot_Holder
begin

text \<open>
  Where snapshots come from: \<open>HTTPSource.Fetch\<close> of \<open>dataplane/internal/snapshot/httpsource.go\<close> over the
  outcome of the exchange, and both sources composed with \<open>decodeAndVerify\<close>.
\<close>

definition maxSnapshotBytes :: nat where
  "maxSnapshotBytes = 67108864"

record http_response =
  hp_StatusCode :: int
  hp_Digest :: string
  hp_Body :: "go_error + string"

definition http_request :: "string \<Rightarrow> string \<Rightarrow> (string \<times> string) list" where
  \<comment> \<open>The headers set on the request, for the source's token and the digest the caller holds.\<close>
  "http_request token known =
     (if token \<noteq> '''' then [(''Authorization'', ''Bearer '' @ token)] else []) @
     (if known \<noteq> '''' then [(''If-None-Match'', known)] else [])"

definition http_Fetch :: "((string \<times> string) list \<Rightarrow> go_error + http_response) \<Rightarrow> string \<Rightarrow>
    (string \<Rightarrow> go_error + snapshot \<times> string) \<Rightarrow> fetch_fun" where
  "http_Fetch exchange token dec known =
     (case exchange (http_request token known) of
        Inl e \<Rightarrow> Inl (GwError CodeUnavailable (Msg ''fetching the snapshot'' []) False (Some e))
      | Inr resp \<Rightarrow>
          if hp_StatusCode resp = 304 then Inr \<lparr>ft_Snapshot = None, ft_Digest = known, ft_Unchanged = True\<rparr>
          else if hp_StatusCode resp \<noteq> 200
            then Inl (err_Newf CodeUnavailable ''control plane returned %d fetching the snapshot'' [AInt (hp_StatusCode resp)])
          else if hp_Digest resp \<noteq> '''' \<and> hp_Digest resp = known
            then Inr \<lparr>ft_Snapshot = None, ft_Digest = known, ft_Unchanged = True\<rparr>
          else (case hp_Body resp of
              Inl e \<Rightarrow> Inl (GwError CodeUnavailable (Msg ''reading the snapshot response'' []) False (Some e))
            | Inr body \<Rightarrow>
                if length body > maxSnapshotBytes
                then Inl (err_Newf CodeUnavailable ''snapshot exceeds the %d byte limit'' [AInt (int maxSnapshotBytes)])
                else (case dec body of
                    Inl e \<Rightarrow> Inl e
                  | Inr (snap, digest) \<Rightarrow> Inr \<lparr>ft_Snapshot = Some snap, ft_Digest = digest, ft_Unchanged = False\<rparr>)))"

section \<open>Lemmas\<close>

lemma decodeAndVerify_Inr:
  "decodeAndVerify c b = Inr (snap, d) \<longleftrightarrow>
   (\<exists>m. cd_parse c b = Inr m \<and> VerifyGlobal (cd_sha c) (cd_global c) (psn_global m) = None \<and>
        list_all (\<lambda>t. VerifyTenant (cd_sha c) (cd_tenant c) t = None) (psn_tenants m) \<and>
        DecodeSnapshot (cd_policy c) (Some m) = Inr snap \<and> d = GetDigest (Option.bind (psn_global m) pgl_version))"
proof -
  have none: "List.map_filter f xs = [] \<longleftrightarrow> list_all (\<lambda>x. f x = None) xs" for f :: "pb_tenant \<Rightarrow> go_error option" and xs
    by (induction xs) (auto simp: map_filter_simps split: option.split)
  show ?thesis
  proof (cases "cd_parse c b")
    case (Inr m)
    then show ?thesis
      using none[of "VerifyTenant (cd_sha c) (cd_tenant c)" "psn_tenants m"]
      by (cases "List.map_filter (VerifyTenant (cd_sha c) (cd_tenant c)) (psn_tenants m)")
        (auto simp: decodeAndVerify_def UnmarshalSnapshot_def split: sum.splits option.splits)
  qed (simp add: decodeAndVerify_def UnmarshalSnapshot_def)
qed

lemma decodeAndVerify_wf:
  assumes "decodeAndVerify c b = Inr (snap, d)"
  shows "snapshot_wf snap \<and> routed snap"
proof -
  obtain m where "DecodeSnapshot (cd_policy c) (Some m) = Inr snap"
    using assms by (auto simp: decodeAndVerify_Inr)
  then obtain g global tenants where g: "NewGlobalLayer (DecodeGlobal (cd_policy c) g) = Inr global"
    and ts: "map_err (\<lambda>t. NewTenantLayer (DecodeTenant (cd_policy c) t)) (psn_tenants m) = Inr tenants"
    and c: "Compose (Some global) (map Some tenants) = Inr snap"
    by (auto simp: DecodeSnapshot_def split: option.splits sum.splits)
  have "\<forall>l. Some l \<in> set (map Some tenants) \<longrightarrow> tenant_wf l"
    using ts by (auto simp: map_err_Inr_iff list_all2_conv_all_nth in_set_conv_nth) (metis NewTenantLayer_wf)
  with Compose_wf[OF c] NewGlobalLayer_wf[OF g] show ?thesis by blast
qed

section \<open>Properties\<close>

text \<open>A worker is only ever offered coherent configuration: whatever bytes the control plane or the
  file holds, a source either fails, reports nothing new, or yields a snapshot that satisfies the
  snapshot invariant and routes every tenant it contains.\<close>

lemma sources_yield_coherent_snapshots:
  "case (http_Fetch exchange token (decodeAndVerify c) known, file_Fetch content (decodeAndVerify c) known) of
     (remote, local) \<Rightarrow> list_all (\<lambda>outcome.
        case outcome of
          Inl e \<Rightarrow> True
        | Inr f \<Rightarrow> (case ft_Snapshot f of None \<Rightarrow> ft_Unchanged f | Some snap \<Rightarrow> snapshot_wf snap \<and> routed snap)) [remote, local]"
  by (auto simp: http_Fetch_def file_Fetch_def decodeAndVerify_wf split: sum.split option.split prod.split)

definition ex_codec :: codec where
  \<comment> \<open>Bytes that start with a 1 carry the example tenant, others do not.\<close>
  "ex_codec =
     \<lparr>cd_sha = (\<lambda>s. ''''), cd_global = (\<lambda>_. Inr ''''), cd_tenant = (\<lambda>_. Inr ''''),
      cd_parse = (\<lambda>b. Inr
        \<lparr>psn_global = Some ((EncodeGlobal (\<lambda>_. Inl (err_New CodeInternal '''')) ex_wire_global)
                       \<lparr>pgl_version := Some \<lparr>pbv_number = 3, pbv_digest = ''sha256:''\<rparr>\<rparr>),
         psn_tenants = (if b = ''1'' then [EncodeTenant (\<lambda>_. Inl (err_New CodeInternal '''')) ex_wire_tenant] else [])\<rparr>),
      cd_policy = (\<lambda>_. Inr '''')\<rparr>"

text \<open>The file source does not notice a change confined to tenant layers: it compares only the global
  layer's digest, so a file whose global layer is unchanged is reported unchanged even when it decodes
  to a snapshot with other tenants.\<close>

lemma file_source_misses_tenant_changes:
  "\<exists>c old new s1 s2 d. decodeAndVerify c old = Inr (s1, d) \<and> decodeAndVerify c new = Inr (s2, d) \<and>
     TenantIDs s1 \<noteq> TenantIDs s2 \<and>
     file_Fetch (Inr new) (decodeAndVerify c) d = Inr \<lparr>ft_Snapshot = None, ft_Digest = d, ft_Unchanged = True\<rparr>"
proof -
  let ?s = "\<lambda>b. fst (projr (decodeAndVerify ex_codec b))"
  have "decodeAndVerify ex_codec ''1'' = Inr (?s ''1'', ''sha256:'') \<and> decodeAndVerify ex_codec ''2'' = Inr (?s ''2'', ''sha256:'') \<and>
     TenantIDs (?s ''1'') \<noteq> TenantIDs (?s ''2'')"
    by code_simp
  then obtain s1 s2 where "decodeAndVerify ex_codec ''1'' = Inr (s1, ''sha256:'')" "TenantIDs s1 \<noteq> TenantIDs s2"
    and new: "decodeAndVerify ex_codec ''2'' = Inr (s2, ''sha256:'')" by blast
  moreover from new have "file_Fetch (Inr ''2'') (decodeAndVerify ex_codec) ''sha256:'' =
      Inr \<lparr>ft_Snapshot = None, ft_Digest = ''sha256:'', ft_Unchanged = True\<rparr>"
    by (simp add: file_Fetch_def)
  ultimately show ?thesis by blast
qed


end
