(* ===== verification/Telemetry.thy ===== *)
theory Telemetry
  imports Core_Events "HOL-Library.Multiset" "HOL-Library.Sublist"
begin

text \<open>
  \<open>dataplane/internal/telemetry\<close>: the buffered emitter of \<open>emitter.go\<close> with its log and Prometheus
  sinks. The buffered channel is a bounded list and every channel operation and counter update of
  \<open>Emit\<close> and \<open>run\<close> is a step of its own, so that \<open>em_step\<close> has all interleavings of any number of
  emitting requests with the background worker. What a sink does with a batch is a function on the
  sink's own state. \<open>em_accepted\<close>, \<open>em_lost\<close> and \<open>em_written\<close> record which events entered the buffer, which were
  discarded and which batches were handed to \<open>write\<close>; no operation reads them.
\<close>

section \<open>The emitter\<close>

definition DefaultBufferSize :: nat where "DefaultBufferSize = 4096"
definition DefaultBatchSize :: nat where "DefaultBatchSize = 128"
definition DefaultFlushTimeout :: duration where "DefaultFlushTimeout = 5 * second"

record 's sink =
  sk_Name :: string
  sk_Write :: "duration \<Rightarrow> 's \<Rightarrow> event list \<Rightarrow> go_error option \<times> 's"
  sk_State :: 's

record 's emitter =
  em_sinks :: "'s sink list"
  em_capacity :: nat
  em_buffer :: "event list"
  em_onError :: bool
  em_batchSize :: nat
  em_flushTimeout :: duration
  em_received :: int
  em_dropped :: int
  em_failed :: int
  em_stop :: bool
  em_batch :: "event list"
  em_draining :: bool
  em_stopped :: bool
  em_errors :: "(string \<times> go_error) list"
  em_accepted :: "event list"
  em_lost :: "event list"
  em_written :: "event list list"

datatype emitter_option = WithBufferSize int | WithBatchSize int | WithErrorHandler

fun apply_emitter_option :: "'s emitter \<Rightarrow> emitter_option \<Rightarrow> 's emitter" where
  "apply_emitter_option e (WithBufferSize n) = (if n > 0 then e\<lparr>em_capacity := nat n, em_buffer := []\<rparr> else e)"
| "apply_emitter_option e (WithBatchSize n) = (if n > 0 then e\<lparr>em_batchSize := nat n\<rparr> else e)"
| "apply_emitter_option e WithErrorHandler = e\<lparr>em_onError := True\<rparr>"

definition NewEmitter :: "'s sink option list \<Rightarrow> emitter_option list \<Rightarrow> go_error + 's emitter" where
  \<comment> \<open>None is a nil sink.\<close>
  "NewEmitter sinks opts =
     (if sinks = [] then Inl (err_New CodeInternal ''an emitter needs at least one sink'')
      else if None \<in> set sinks then Inl (err_New CodeInternal ''a nil sink was supplied'')
      else Inr (foldl apply_emitter_option
        \<lparr>em_sinks = List.map_filter (\<lambda>s. s) sinks, em_capacity = DefaultBufferSize, em_buffer = [], em_onError = False,
         em_batchSize = DefaultBatchSize, em_flushTimeout = DefaultFlushTimeout, em_received = 0, em_dropped = 0,
         em_failed = 0, em_stop = False, em_batch = [], em_draining = False, em_stopped = False,
         em_errors = [], em_accepted = [], em_lost = [], em_written = []\<rparr>
        opts))"

text \<open>The three selects of \<open>Emit\<close>.\<close>

definition offer :: "'s emitter \<Rightarrow> event \<Rightarrow> bool \<times> 's emitter" where
  "offer e ev =
     (if length (em_buffer e) < em_capacity e
      then (True, e\<lparr>em_buffer := em_buffer e @ [ev], em_accepted := em_accepted e @ [ev]\<rparr>)
      else (False, e))"

definition evict :: "'s emitter \<Rightarrow> 's emitter" where
  "evict e = (case em_buffer e of
     [] \<Rightarrow> e
   | old # rest \<Rightarrow> e\<lparr>em_buffer := rest, em_dropped := em_dropped e + 1, em_lost := em_lost e @ [old]\<rparr>)"

definition give_up :: "'s emitter \<Rightarrow> event \<Rightarrow> 's emitter" where
  "give_up e ev = e\<lparr>em_dropped := em_dropped e + 1, em_lost := em_lost e @ [ev]\<rparr>"

text \<open>One call of \<open>Emit\<close> that no other goroutine interrupts.\<close>

definition emit_one :: "'s emitter \<Rightarrow> event \<Rightarrow> 's emitter" where
  "emit_one e ev =
     (case offer (e\<lparr>em_received := em_received e + 1\<rparr>) ev of
        (True, e1) \<Rightarrow> e1
      | (False, e1) \<Rightarrow>
          (case offer (evict e1) ev of
             (True, e2) \<Rightarrow> e2
           | (False, e2) \<Rightarrow> give_up e2 ev))"

definition Emit :: "'s emitter \<Rightarrow> event list \<Rightarrow> 's emitter" where
  "Emit e evs = foldl emit_one e evs"

record emitter_stats =
  es_Received :: int
  es_Dropped :: int
  es_Failed :: int
  es_Queued :: nat

definition emitter_Stats :: "'s emitter \<Rightarrow> emitter_stats" where
  "emitter_Stats e =
     \<lparr>es_Received = em_received e, es_Dropped = em_dropped e, es_Failed = em_failed e, es_Queued = length (em_buffer e)\<rparr>"

text \<open>The worker: a batch is handed to every sink in turn, and a failure of one is counted and reported.\<close>

definition write_sink :: "'s emitter \<Rightarrow> event list \<Rightarrow> 's sink list \<times> int \<times> (string \<times> go_error) list \<Rightarrow> 's sink \<Rightarrow>
    's sink list \<times> int \<times> (string \<times> go_error) list" where
  "write_sink e batch acc s =
     (case acc of (done, failed, errs) \<Rightarrow>
      (case sk_Write s (em_flushTimeout e) (sk_State s) batch of
         (None, st) \<Rightarrow> (done @ [s\<lparr>sk_State := st\<rparr>], failed, errs)
       | (Some err, st) \<Rightarrow>
           (done @ [s\<lparr>sk_State := st\<rparr>], failed + int (length batch),
            if em_onError e then errs @ [(sk_Name s, err)] else errs)))"

definition em_write :: "'s emitter \<Rightarrow> event list \<Rightarrow> 's emitter" where
  "em_write e batch =
     (case foldl (write_sink e batch) ([], em_failed e, em_errors e) (em_sinks e) of
        (sinks, failed, errs) \<Rightarrow>
          e\<lparr>em_sinks := sinks, em_failed := failed, em_errors := errs, em_written := em_written e @ [batch]\<rparr>)"

definition em_flush :: "'s emitter \<Rightarrow> 's emitter" where
  "em_flush e = (if em_batch e = [] then e else (em_write e (em_batch e))\<lparr>em_batch := []\<rparr>)"

definition em_take :: "'s emitter \<Rightarrow> 's emitter" where
  \<comment> \<open>\<open>case event := <-e.buffer\<close> of either select of \<open>run\<close>.\<close>
  "em_take e = (case em_buffer e of
     [] \<Rightarrow> e
   | ev # rest \<Rightarrow>
       (let e1 = e\<lparr>em_buffer := rest, em_batch := em_batch e @ [ev]\<rparr>
        in if length (em_batch e1) \<ge> em_batchSize e1 then em_flush e1 else e1))"

fun drain_n :: "nat \<Rightarrow> 's emitter \<Rightarrow> 's emitter" where
  "drain_n 0 e = e"
| "drain_n (Suc n) e = drain_n n (em_take e)"

definition em_drain :: "'s emitter \<Rightarrow> 's emitter" where
  \<comment> \<open>The inner loop after \<open>stop\<close> when nothing is emitted meanwhile: it ends once the buffer is empty.\<close>
  "em_drain e = (em_flush (drain_n (length (em_buffer e)) e))\<lparr>em_stopped := True\<rparr>"

definition em_Close :: "'s emitter \<Rightarrow> 's emitter" where
  "em_Close e = (if em_stop e then e else em_drain (e\<lparr>em_stop := True, em_draining := True\<rparr>))"

section \<open>All interleavings\<close>

text \<open>Where a goroutine in \<open>Emit\<close> stands with its current event.\<close>

datatype emit_pc = Handed event | Full event | Retry event

fun pc_event :: "emit_pc \<Rightarrow> event" where
  "pc_event (Handed ev) = ev"
| "pc_event (Full ev) = ev"
| "pc_event (Retry ev) = ev"

inductive em_step :: "'s emitter \<times> emit_pc multiset \<Rightarrow> 's emitter \<times> emit_pc multiset \<Rightarrow> bool" where
  hand: "em_step (e, M) (e\<lparr>em_received := em_received e + 1\<rparr>, add_mset (Handed ev) M)"
| offer_ok: "offer e ev = (True, e') \<Longrightarrow> em_step (e, add_mset (Handed ev) M) (e', M)"
| offer_full: "offer e ev = (False, e') \<Longrightarrow> em_step (e, add_mset (Handed ev) M) (e', add_mset (Full ev) M)"
| evict_oldest: "em_step (e, add_mset (Full ev) M) (evict e, add_mset (Retry ev) M)"
| retry_ok: "offer e ev = (True, e') \<Longrightarrow> em_step (e, add_mset (Retry ev) M) (e', M)"
| retry_full: "offer e ev = (False, e') \<Longrightarrow> em_step (e, add_mset (Retry ev) M) (give_up e' ev, M)"
| take: "\<not> em_stopped e \<Longrightarrow> em_buffer e \<noteq> [] \<Longrightarrow> em_step (e, M) (em_take e, M)"
| tick_flush: "\<not> em_stopped e \<Longrightarrow> \<not> em_draining e \<Longrightarrow> em_step (e, M) (em_flush e, M)"
| close_stop: "em_step (e, M) (e\<lparr>em_stop := True\<rparr>, M)"
| see_stop: "em_stop e \<Longrightarrow> em_step (e, M) (e\<lparr>em_draining := True\<rparr>, M)"
| drained: "em_draining e \<Longrightarrow> \<not> em_stopped e \<Longrightarrow> em_buffer e = [] \<Longrightarrow>
     em_step (e, M) ((em_flush e)\<lparr>em_stopped := True\<rparr>, M)"

inductive em_reach :: "'s emitter \<Rightarrow> 's emitter \<times> emit_pc multiset \<Rightarrow> bool" for e0 where
  start: "em_reach e0 (e0, {#})"
| next_step: "em_reach e0 c \<Longrightarrow> em_step c c' \<Longrightarrow> em_reach e0 c'"

section \<open>The log sink\<close>

datatype log_value = LStr string | LInt int | LNat nat | LDuration duration | LMsg message | LAddr "addr option"

type_synonym log_line = "string \<times> (string \<times> log_value) list"

fun log_event :: "event \<Rightarrow> log_line" where
  "log_event (UsageEvent e) =
     (''usage'',
      [(''request_id'', LStr (ue_RequestID e)), (''tenant'', LStr (ue_Tenant e)), (''tier'', LStr (ue_Tier e)),
       (''key_id'', LStr (ue_KeyID e)), (''deployment'', LStr (ue_Deployment e)),
       (''route'', LStr (routing_key_String (ue_Route e))), (''input_tokens'', LInt (ue_InputTokens e)),
       (''cached_input_tokens'', LInt (ue_CachedInputTokens e)), (''cache_write_tokens'', LInt (ue_CacheWriteTokens e)),
       (''output_tokens'', LInt (ue_OutputTokens e)), (''cost_micro_usd'', LInt (ue_CostMicroUSD e)),
       (''price_micro_usd'', LInt (ue_PriceMicroUSD e)), (''latency_ms'', LInt (ue_LatencyMs e)),
       (''ttfb'', LDuration (ue_TimeToFirstByte e)), (''outcome'', LStr (code_string (ue_Outcome e))),
       (''snapshot_version'', LNat (ue_SnapshotVersion e))])"
| "log_event (AuditEvent e) =
     (''audit'',
      [(''event_id'', LStr (au_EventID e)), (''request_id'', LStr (au_RequestID e)), (''tenant'', LStr (au_Tenant e)),
       (''actor'', LStr (au_Actor e)), (''action'', LStr (au_Action e)), (''resource'', LStr (au_Resource e)),
       (''outcome'', LStr (code_string (au_Outcome e))), (''reason'', LMsg (au_Reason e)),
       (''source_ip'', LAddr (au_SourceIP e)), (''snapshot_version'', LNat (au_SnapshotVersion e))])"

definition log_Write :: "duration \<Rightarrow> log_line list \<Rightarrow> event list \<Rightarrow> go_error option \<times> log_line list" where
  "log_Write timeout out evs = (None, out @ map log_event evs)"

section \<open>The Prometheus sink\<close>

record prom =
  pr_requests :: "(string list, real) gomap"
  pr_tokens :: "(string list, real) gomap"
  pr_cost :: "(string list, real) gomap"
  pr_price :: "(string list, real) gomap"
  pr_latency :: "(string list, real list) gomap"
  pr_ttfb :: "(string list, real list) gomap"

definition labelOr :: "string \<Rightarrow> string \<Rightarrow> string" where
  "labelOr v fallback = (if v = '''' then fallback else v)"

definition counter_Add :: "string list \<Rightarrow> real \<Rightarrow> (string list, real) gomap \<Rightarrow> (string list, real) gomap" where
  "counter_Add ls x m = AList.update ls (gomap_get 0 m ls + x) m"

definition Observe_in :: "string list \<Rightarrow> real \<Rightarrow> (string list, real list) gomap \<Rightarrow> (string list, real list) gomap" where
  "Observe_in ls x m = AList.update ls (gomap_get [] m ls @ [x]) m"

definition token_classes :: "usage_event \<Rightarrow> (string \<times> int) list" where
  "token_classes u =
     [(''input'', ue_InputTokens u), (''cached_input'', ue_CachedInputTokens u),
      (''cache_write'', ue_CacheWriteTokens u), (''output'', ue_OutputTokens u)]"

definition add_positive :: "string list \<Rightarrow> int \<Rightarrow> (string list, real) gomap \<Rightarrow> (string list, real) gomap" where
  "add_positive ls n m = (if n > 0 then counter_Add ls (real_of_int n) m else m)"

definition prom_usage :: "prom \<Rightarrow> usage_event \<Rightarrow> prom" where
  "prom_usage s u =
     (let tier = labelOr (ue_Tier u) ''unknown''; outcome = labelOr (code_string (ue_Outcome u)) ''ok'';
          provider = labelOr (ue_Provider u) ''none''; stream = (if ue_Stream u then ''true'' else ''false'');
          labels = [tier, outcome, provider, stream]
      in \<lparr>pr_requests = counter_Add labels 1 (pr_requests s),
          pr_tokens = foldl (\<lambda>m (direction, n). add_positive [tier, provider, direction] n m) (pr_tokens s) (token_classes u),
          pr_cost = add_positive [tier, provider] (ue_CostMicroUSD u) (pr_cost s),
          pr_price = add_positive [tier, provider] (ue_PriceMicroUSD u) (pr_price s),
          pr_latency = Observe_in labels (real_of_int (ue_LatencyMs u) / 1000) (pr_latency s),
          pr_ttfb = (if ue_TimeToFirstByte u > 0
                     then Observe_in [tier, provider] (real_of_int (ue_TimeToFirstByte u) / 10 ^ 9) (pr_ttfb s)
                     else pr_ttfb s)\<rparr>)"

fun prom_event :: "prom \<Rightarrow> event \<Rightarrow> prom" where
  "prom_event s (UsageEvent u) = prom_usage s u"
| "prom_event s (AuditEvent _) = s"

definition prom_Write :: "duration \<Rightarrow> prom \<Rightarrow> event list \<Rightarrow> go_error option \<times> prom" where
  "prom_Write timeout s evs = (None, foldl prom_event s evs)"

section \<open>Lemmas\<close>

definition sink_after :: "duration \<Rightarrow> event list list \<Rightarrow> 's sink \<Rightarrow> 's sink" where
  \<comment> \<open>A sink after being handed the batches in order.\<close>
  "sink_after timeout batches s = s\<lparr>sk_State := foldl (\<lambda>st b. snd (sk_Write s timeout st b)) (sk_State s) batches\<rparr>"

fun sink_failures :: "duration \<Rightarrow> event list list \<Rightarrow> 's sink \<Rightarrow> int" where
  \<comment> \<open>The events of the batches a sink refuses when handed them in order.\<close>
  "sink_failures timeout [] s = 0"
| "sink_failures timeout (b # bs) s =
     (case sk_Write s timeout (sk_State s) b of
        (err, st) \<Rightarrow> (if err = None then 0 else int (length b)) + sink_failures timeout bs (s\<lparr>sk_State := st\<rparr>))"

definition em_inv :: "'s sink list \<Rightarrow> 's emitter \<Rightarrow> emit_pc multiset \<Rightarrow> bool" where
  "em_inv sinks e M =
     (0 < em_capacity e \<and> length (em_buffer e) \<le> em_capacity e \<and>
      0 < em_batchSize e \<and> length (em_batch e) < em_batchSize e \<and>
      list_all (\<lambda>b. b \<noteq> [] \<and> length b \<le> em_batchSize e) (em_written e) \<and>
      em_dropped e = int (length (em_lost e)) \<and>
      em_received e = em_dropped e + int (size M + length (em_buffer e) + length (em_batch e) + length (concat (em_written e))) \<and>
      subseq (concat (em_written e) @ em_batch e @ em_buffer e) (em_accepted e) \<and>
      em_failed e = (\<Sum>s\<leftarrow>sinks. sink_failures (em_flushTimeout e) (em_written e) s) \<and>
      em_sinks e = map (sink_after (em_flushTimeout e) (em_written e)) sinks)"

lemma write_sink_parts:
  "fst (write_sink e b acc s) = fst acc @ [s\<lparr>sk_State := snd (sk_Write s (em_flushTimeout e) (sk_State s) b)\<rparr>]"
  "fst (snd (write_sink e b acc s)) =
     fst (snd acc) + (if fst (sk_Write s (em_flushTimeout e) (sk_State s) b) = None then 0 else int (length b))"
  by (auto simp: write_sink_def split: prod.split option.split)

lemma write_sink_fold:
  "fst (foldl (write_sink e b) acc ss) =
     fst acc @ map (\<lambda>s. s\<lparr>sk_State := snd (sk_Write s (em_flushTimeout e) (sk_State s) b)\<rparr>) ss"
  "fst (snd (foldl (write_sink e b) acc ss)) =
     fst (snd acc) + (\<Sum>s\<leftarrow>ss. if fst (sk_Write s (em_flushTimeout e) (sk_State s) b) = None then 0 else int (length b))"
  by (induction ss arbitrary: acc) (simp_all add: write_sink_parts)

lemma em_write_fields:
  "em_sinks (em_write e b) = map (\<lambda>s. s\<lparr>sk_State := snd (sk_Write s (em_flushTimeout e) (sk_State s) b)\<rparr>) (em_sinks e)"
  "em_failed (em_write e b) =
     em_failed e + (\<Sum>s\<leftarrow>em_sinks e. if fst (sk_Write s (em_flushTimeout e) (sk_State s) b) = None then 0 else int (length b))"
  "em_written (em_write e b) = em_written e @ [b]"
  "em_capacity (em_write e b) = em_capacity e" "em_buffer (em_write e b) = em_buffer e"
  "em_batchSize (em_write e b) = em_batchSize e" "em_batch (em_write e b) = em_batch e"
  "em_received (em_write e b) = em_received e" "em_dropped (em_write e b) = em_dropped e"
  "em_lost (em_write e b) = em_lost e" "em_accepted (em_write e b) = em_accepted e"
  "em_flushTimeout (em_write e b) = em_flushTimeout e" "em_stop (em_write e b) = em_stop e"
  using write_sink_fold[of e b "([], em_failed e, em_errors e)" "em_sinks e"]
  by (auto simp: em_write_def split: prod.splits)

lemma sink_after_Nil [simp]: "sink_after t [] s = s"
  by (simp add: sink_after_def)

lemma sink_after_snoc:
  "sink_after t (bs @ [b]) s =
     (sink_after t bs s)\<lparr>sk_State := snd (sk_Write (sink_after t bs s) t (sk_State (sink_after t bs s)) b)\<rparr>"
  by (simp add: sink_after_def)

lemma sum_no_failures [simp]: "sum_list (map (sink_failures t []) ss) = 0"
  by (induction ss) simp_all

lemma sink_failures_snoc:
  "sink_failures t (bs @ [b]) s = sink_failures t bs s +
     (if fst (sk_Write (sink_after t bs s) t (sk_State (sink_after t bs s)) b) = None then 0 else int (length b))"
  by (induction t bs s rule: sink_failures.induct) (auto simp: sink_after_def split: prod.split)

text \<open>Flushing moves the batch to the sinks; the guard on the batch's length is what \<open>run\<close> keeps.\<close>

lemma em_flush_fields:
  "em_batch (em_flush e) = []" "em_buffer (em_flush e) = em_buffer e"
  "em_capacity (em_flush e) = em_capacity e" "em_batchSize (em_flush e) = em_batchSize e"
  "em_received (em_flush e) = em_received e" "em_dropped (em_flush e) = em_dropped e"
  "em_lost (em_flush e) = em_lost e" "em_accepted (em_flush e) = em_accepted e"
  "em_flushTimeout (em_flush e) = em_flushTimeout e" "em_stop (em_flush e) = em_stop e"
  "em_written (em_flush e) = em_written e @ (if em_batch e = [] then [] else [em_batch e])"
  "concat (em_written (em_flush e)) = concat (em_written e) @ em_batch e"
  by (simp_all add: em_flush_def em_write_fields)

lemma em_flush_sinks:
  "em_sinks e = map (sink_after (em_flushTimeout e) (em_written e)) sinks \<Longrightarrow>
   em_sinks (em_flush e) = map (sink_after (em_flushTimeout e) (em_written (em_flush e))) sinks"
  "em_sinks e = map (sink_after (em_flushTimeout e) (em_written e)) sinks \<Longrightarrow>
   em_failed e = (\<Sum>s\<leftarrow>sinks. sink_failures (em_flushTimeout e) (em_written e) s) \<Longrightarrow>
   em_failed (em_flush e) = (\<Sum>s\<leftarrow>sinks. sink_failures (em_flushTimeout e) (em_written (em_flush e)) s)"
  by (simp_all add: em_flush_def em_write_fields sink_after_snoc sink_failures_snoc sum_list_addf comp_def)

lemma em_inv_flush:
  assumes "em_inv sinks (e\<lparr>em_batchSize := Suc (em_batchSize e)\<rparr>) M" "0 < em_batchSize e"
    "list_all (\<lambda>b. b \<noteq> [] \<and> length b \<le> em_batchSize e) (em_written e)"
  shows "em_inv sinks (em_flush e) M"
  using assms em_flush_sinks[of e sinks] by (auto simp: em_inv_def em_flush_fields(1-10,12)) (auto simp: em_flush_fields)

lemma em_inv_weaken: "em_inv sinks e M \<Longrightarrow> em_inv sinks (e\<lparr>em_batchSize := Suc (em_batchSize e)\<rparr>) M"
  by (auto simp: em_inv_def list_all_iff)

lemma em_inv_tick:
  assumes "em_inv sinks e M"
  shows "em_inv sinks (em_flush e) M"
  using em_inv_flush[OF em_inv_weaken[OF assms]] assms by (simp add: em_inv_def)

lemma em_inv_take:
  assumes "em_inv sinks e M"
  shows "em_inv sinks (em_take e) M"
proof (cases "em_buffer e")
  case (Cons ev rest)
  let ?e = "e\<lparr>em_buffer := rest, em_batch := em_batch e @ [ev]\<rparr>"
  have "em_inv sinks (?e\<lparr>em_batchSize := Suc (em_batchSize e)\<rparr>) M"
    using assms Cons by (auto simp: em_inv_def list_all_iff)
  then have "em_inv sinks (em_flush ?e) M"
    using assms em_inv_flush[of sinks ?e M] by (simp add: em_inv_def)
  moreover have "em_inv sinks ?e M" if "length (em_batch ?e) < em_batchSize e"
    using assms Cons that by (auto simp: em_inv_def)
  ultimately show ?thesis using Cons by (simp add: em_take_def Let_def not_le)
qed (simp add: em_take_def assms)

lemma subseq_steps:
  "subseq (xs @ ys @ zs) as \<Longrightarrow> subseq (xs @ ys @ zs @ [z]) (as @ [z])"
  "subseq (xs @ ys @ z # zs) as \<Longrightarrow> subseq (xs @ ys @ zs) as"
proof -
  show "subseq (xs @ ys @ zs) as \<Longrightarrow> subseq (xs @ ys @ zs @ [z]) (as @ [z])"
    using list_emb_append_mono[of "(=)" "xs @ ys @ zs" as "[z]" "[z]"] by simp
  have "subseq (xs @ ys @ zs) (xs @ ys @ z # zs)" by (intro list_emb_append_mono) auto
  then show "subseq (xs @ ys @ z # zs) as \<Longrightarrow> subseq (xs @ ys @ zs) as"
    using subseq_order.order_trans by blast
qed

lemma em_inv_offer:
  assumes "em_inv sinks e (add_mset pc M)"
  shows "case offer e ev of (True, e') \<Rightarrow> em_inv sinks e' M | (False, e') \<Rightarrow> e' = e \<and> em_inv sinks (give_up e ev) M"
  using assms by (auto simp: em_inv_def offer_def give_up_def subseq_steps(1))

lemma em_inv_evict: "em_inv sinks e M \<Longrightarrow> em_inv sinks (evict e) M"
  by (auto simp: em_inv_def evict_def split: list.split elim: subseq_steps(2))

lemma em_inv_size: "em_inv sinks e M \<Longrightarrow> size M' = size M \<Longrightarrow> em_inv sinks e M'"
  by (simp add: em_inv_def)

lemma em_step_inv: "em_step (e, M) (e', M') \<Longrightarrow> em_inv sinks e M \<Longrightarrow> em_inv sinks e' M'"
proof (induction "(e, M)" "(e', M')" rule: em_step.induct)
  case (offer_ok ev) then show ?case using em_inv_offer[of sinks e _ _ ev] by fastforce
next
  case (offer_full ev) then show ?case using em_inv_offer[of sinks e _ _ ev] by (fastforce intro: em_inv_size)
next
  case (retry_ok ev) then show ?case using em_inv_offer[of sinks e _ _ ev] by fastforce
next
  case (retry_full ev) then show ?case using em_inv_offer[of sinks e _ _ ev] by fastforce
next
  case (evict_oldest ev) then show ?case by (auto intro: em_inv_evict em_inv_size)
next
  case take then show ?case using em_inv_take by blast
next
  case tick_flush then show ?case using em_inv_tick by blast
next
  case drained
  then have "em_inv sinks (em_flush e) M'" using em_inv_tick by blast
  with drained show ?case by (auto simp: em_inv_def)
qed (auto simp: em_inv_def)

lemma em_reach_inv:
  assumes "em_reach e0 c" "em_inv sinks e0 {#}"
  shows "em_inv sinks (fst c) (snd c)"
  using assms
proof induction
  case (next_step c c')
  then show ?case using em_step_inv[of "fst c" "snd c" "fst c'" "snd c'"] by simp
qed simp

lemma NewEmitter_inv:
  fixes ss :: "'s sink option list"
  assumes "NewEmitter ss opts = Inr e"
  shows "em_inv (List.map_filter (\<lambda>s. s) ss) e {#}"
proof -
  define z where "z = \<lparr>em_sinks = List.map_filter (\<lambda>s. s) ss, em_capacity = DefaultBufferSize, em_buffer = [], em_onError = False,
         em_batchSize = DefaultBatchSize, em_flushTimeout = DefaultFlushTimeout, em_received = 0, em_dropped = 0,
         em_failed = 0, em_stop = False, em_batch = [], em_draining = False, em_stopped = False,
         em_errors = [], em_accepted = [], em_lost = [], em_written = []\<rparr>"
  have step: "em_inv s (apply_emitter_option e' opt) {#} \<and> em_written (apply_emitter_option e' opt) = [] \<and>
      em_batch (apply_emitter_option e' opt) = [] \<and> em_buffer (apply_emitter_option e' opt) = []"
    if "em_inv s e' {#}" "em_written e' = []" "em_batch e' = []" "em_buffer e' = []"
    for s and e' :: "'s emitter" and opt :: emitter_option
    using that by (cases opt) (auto simp: em_inv_def)
  have "em_inv s (foldl apply_emitter_option e' opts) {#}"
    if "em_inv s e' {#}" "em_written e' = []" "em_batch e' = []" "em_buffer e' = []" for s and e' :: "'s emitter"
    using that by (induction opts arbitrary: e') (use step in auto)
  moreover have "em_inv (List.map_filter (\<lambda>s. s) ss) z {#}"
    by (simp add: z_def em_inv_def DefaultBufferSize_def DefaultBatchSize_def cong: map_cong)
  ultimately have "em_inv (List.map_filter (\<lambda>s. s) ss) (foldl apply_emitter_option z opts) {#}"
    by (simp add: z_def)
  with assms show ?thesis by (simp add: NewEmitter_def z_def split: if_splits)
qed

lemma em_take_pending:
  "em_buffer (em_take e) = tl (em_buffer e)" "em_dropped (em_take e) = em_dropped e" "em_stop (em_take e) = em_stop e"
  "concat (em_written (em_take e)) @ em_batch (em_take e) @ em_buffer (em_take e) = concat (em_written e) @ em_batch e @ em_buffer e"
  by (auto simp: em_take_def em_flush_fields Let_def split: list.split)

lemma drain_n_pending:
  "em_buffer (drain_n n e) = drop n (em_buffer e)" "em_dropped (drain_n n e) = em_dropped e" "em_stop (drain_n n e) = em_stop e"
  "concat (em_written (drain_n n e)) @ em_batch (drain_n n e) @ em_buffer (drain_n n e) = concat (em_written e) @ em_batch e @ em_buffer e"
  by (induction n arbitrary: e) (simp_all add: em_take_pending(1-3) drop_Suc, metis em_take_pending(1,4))

lemma counter_total_Add: "gomap_wf m \<Longrightarrow> sum_list (map snd (counter_Add ls x m)) = sum_list (map snd m) + x"
  unfolding counter_Add_def by (induction m) (auto simp: gomap_get_def map_of_eq_None_iff split: option.splits)

lemma counter_Add_wf: "gomap_wf m \<Longrightarrow> gomap_wf (counter_Add ls x m)"
  by (simp add: counter_Add_def)

section \<open>Properties\<close>

text \<open>Claim C13. The emitter never loses count of an event, however requests and its worker interleave.
  In every state reachable from a new emitter, the events received are exactly those dropped, those
  handed to the sinks, those in the batch or the buffer, and those a request is still handing over;
  the buffer stays within its capacity; what reached the sinks is in the order it was accepted;
  every sink was given every batch, whatever another sink answered; and the failures counted are the
  events of the batches a sink refused.\<close>

theorem emitter_accounts_for_every_event:
  assumes "NewEmitter ss opts = Inr e0" "em_reach e0 (e, M)"
  shows "em_received e - em_dropped e =
           int (length (concat (em_written e)) + length (em_batch e) + length (em_buffer e) + size M) \<and>
         em_dropped e = int (length (em_lost e)) \<and> length (em_buffer e) \<le> em_capacity e \<and>
         subseq (concat (em_written e) @ em_batch e @ em_buffer e) (em_accepted e) \<and>
         em_failed e = (\<Sum>s\<leftarrow>List.map_filter (\<lambda>s. s) ss. sink_failures (em_flushTimeout e) (em_written e) s) \<and>
         em_sinks e = map (sink_after (em_flushTimeout e) (em_written e)) (List.map_filter (\<lambda>s. s) ss)"
proof -
  have "em_inv (List.map_filter (\<lambda>s. s) ss) e M"
    using em_reach_inv[OF assms(2) NewEmitter_inv[OF assms(1)]] by simp
  then show ?thesis by (simp add: em_inv_def)
qed

definition ex_sink :: "log_line list sink" where
  "ex_sink = \<lparr>sk_Name = ''log'', sk_Write = log_Write, sk_State = []\<rparr>"

definition ex_audit :: event where
  "ex_audit = AuditEvent \<lparr>au_EventID = ''r:a'', au_RequestID = ''r'', au_Timestamp = 1, au_Tenant = ''t'', au_Actor = ''k'',
     au_Action = ''a'', au_Resource = ''m'', au_Outcome = CodeForbidden, au_Reason = no_message, au_SourceIP = None,
     au_SnapshotVersion = 1\<rparr>"

definition ex_emitter :: "log_line list emitter" where
  "ex_emitter =
     \<lparr>em_sinks = [ex_sink], em_capacity = 1, em_buffer = [], em_onError = False,
      em_batchSize = DefaultBatchSize, em_flushTimeout = DefaultFlushTimeout, em_received = 0, em_dropped = 0,
      em_failed = 0, em_stop = False, em_batch = [], em_draining = False, em_stopped = False,
      em_errors = [], em_accepted = [], em_lost = [], em_written = []\<rparr>"

lemma ex_emitter_new: "NewEmitter [Some ex_sink] [WithBufferSize 1] = Inr ex_emitter"
  by (simp add: NewEmitter_def ex_emitter_def map_filter_simps)

lemma ex_emitter_reach:
  "em_reach ex_emitter (em_take (snd (offer (ex_emitter\<lparr>em_received := 1\<rparr>) ex_audit)), {#})"
proof -
  let ?e1 = "ex_emitter\<lparr>em_received := 1\<rparr>" and ?e2 = "snd (offer (ex_emitter\<lparr>em_received := 1\<rparr>) ex_audit)"
  have "em_step (ex_emitter, {#}) (?e1, {#Handed ex_audit#})"
    using em_step.hand[of ex_emitter "{#}" ex_audit] by (simp add: ex_emitter_def)
  moreover have "em_step (?e1, {#Handed ex_audit#}) (?e2, {#})"
    by (rule em_step.offer_ok) (simp add: offer_def ex_emitter_def)
  moreover have "em_step (?e2, {#}) (em_take ?e2, {#})"
    by (rule em_step.take) (simp_all add: offer_def ex_emitter_def)
  ultimately show ?thesis by (blast intro: em_reach.intros)
qed

theorem emitter_accounts_witness:
  "em_received (em_take (snd (offer (ex_emitter\<lparr>em_received := 1\<rparr>) ex_audit))) -
     em_dropped (em_take (snd (offer (ex_emitter\<lparr>em_received := 1\<rparr>) ex_audit))) = 1"
  using emitter_accounts_for_every_event[OF ex_emitter_new ex_emitter_reach]
  by (simp add: em_take_def offer_def ex_emitter_def DefaultBatchSize_def)

text \<open>Claim C36. Closing the emitter loses nothing: \<open>Close\<close> of an emitter nobody is emitting to ends with an
  empty buffer and an empty batch, having handed everything that was waiting to the sinks in order and
  dropped nothing. Closing a second time changes nothing.\<close>

theorem Close_flushes_everything:
  "em_Close (em_Close e) = em_Close e \<and>
   (em_stop e \<or>
    (em_buffer (em_Close e) = [] \<and> em_batch (em_Close e) = [] \<and> em_stopped (em_Close e) \<and>
     concat (em_written (em_Close e)) = concat (em_written e) @ em_batch e @ em_buffer e \<and>
     em_dropped (em_Close e) = em_dropped e))"
proof -
  let ?e = "e\<lparr>em_stop := True, em_draining := True\<rparr>"
  have "concat (em_written (drain_n (length (em_buffer e)) ?e)) @ em_batch (drain_n (length (em_buffer e)) ?e) =
      concat (em_written e) @ em_batch e @ em_buffer e"
    using drain_n_pending(1,4)[of "length (em_buffer e)" ?e] by simp
  then show ?thesis
    by (auto simp: em_Close_def em_drain_def em_flush_fields drain_n_pending)
qed

text \<open>The request counter counts every usage event once, and audit events not at all: after the
  Prometheus sink wrote a batch, the sum over all label combinations has grown by the number of usage
  events in it, and the recorded cost by the sum of their positive costs.\<close>

lemma prom_Write_totals:
  assumes "gomap_wf (pr_requests s)" "gomap_wf (pr_cost s)"
  shows "sum_list (map snd (pr_requests (snd (prom_Write t s evs)))) =
           sum_list (map snd (pr_requests s)) + real (length (filter (\<lambda>ev. event_Kind ev = ''usage'') evs)) \<and>
         sum_list (map snd (pr_cost (snd (prom_Write t s evs)))) =
           sum_list (map snd (pr_cost s)) +
           (\<Sum>ev\<leftarrow>evs. case ev of UsageEvent u \<Rightarrow> real_of_int (max 0 (ue_CostMicroUSD u)) | AuditEvent _ \<Rightarrow> 0)"
  using assms
proof (induction evs arbitrary: s)
  case (Cons ev evs)
  have "gomap_wf (pr_requests (prom_event s ev)) \<and> gomap_wf (pr_cost (prom_event s ev))"
    using Cons.prems by (cases ev) (simp_all add: prom_usage_def Let_def counter_Add_wf add_positive_def)
  with Cons.IH[of "prom_event s ev"] Cons.prems show ?case
    by (cases ev) (auto simp: prom_Write_def prom_usage_def Let_def counter_total_Add add_positive_def)
qed (simp add: prom_Write_def)

end
