(* ===== verification/Secrets.thy ===== *)
theory Secrets
  imports Core_Identity "HOL-Library.Multiset"
begin

text \<open>
  \<open>dataplane/internal/secrets\<close>: the credential resolver with its TTL cache (\<open>secrets.go\<close>) and the
  environment store (\<open>env.go\<close>). The store behind the resolver is a parameter. \<open>Resolve\<close> holds the mutex
  for the lookup and for the insertion but not across the fetch, so \<open>res_step\<close> has the two as
  separate steps and interleaves any number of requests, clock ticks and invalidations.
\<close>

section \<open>The resolver\<close>

definition DefaultTTL :: duration where "DefaultTTL = 5 * minute"

record cred_entry =
  ce_secret :: string
  ce_expiresAt :: gotime

record resolver =
  rs_ttl :: duration
  rs_cached :: "(string, cred_entry) gomap"

definition NewResolver :: "bool \<Rightarrow> duration option \<Rightarrow> go_error + resolver" where
  \<comment> \<open>Whether a store was supplied, and the argument of \<open>WithTTL\<close> if the option is given.\<close>
  "NewResolver store ttl =
     (if \<not> store then Inl (err_New CodeInternal ''a credential resolver needs a store'')
      else (let t = (case ttl of None \<Rightarrow> DefaultTTL | Some t \<Rightarrow> t) in
        if t \<le> 0 then Inl (err_New CodeInternal ''credential cache TTL must be positive'')
        else Inr \<lparr>rs_ttl = t, rs_cached = []\<rparr>))"

definition resolver_lookup :: "resolver \<Rightarrow> gotime \<Rightarrow> string \<Rightarrow> string option" where
  "resolver_lookup r now ref =
     (case map_of (rs_cached r) ref of
        None \<Rightarrow> None
      | Some e \<Rightarrow> if \<not> now < ce_expiresAt e then None else Some (ce_secret e))"

definition cache_secret :: "resolver \<Rightarrow> gotime \<Rightarrow> string \<Rightarrow> string \<Rightarrow> resolver" where
  "cache_secret r now ref secret =
     r\<lparr>rs_cached := AList.update ref \<lparr>ce_secret = secret, ce_expiresAt = now + rs_ttl r\<rparr> (rs_cached r)\<rparr>"

definition Resolve :: "resolver \<Rightarrow> (string \<Rightarrow> go_error + string) \<Rightarrow> gotime \<Rightarrow> gotime \<Rightarrow> string \<Rightarrow> (go_error + credential) \<times> resolver" where
  \<comment> \<open>A call no other goroutine interrupts; the clock is read at the lookup and again after the fetch.\<close>
  "Resolve r fetch now later ref =
     (if ref = '''' then (Inr \<lparr>cred_Ref = '''', cred_Secret = ''''\<rparr>, r)
      else (case resolver_lookup r now ref of
          Some secret \<Rightarrow> (Inr \<lparr>cred_Ref = ref, cred_Secret = secret\<rparr>, r)
        | None \<Rightarrow>
            (case fetch ref of
               Inl e \<Rightarrow> (Inl e, r)
             | Inr secret \<Rightarrow> (Inr \<lparr>cred_Ref = ref, cred_Secret = secret\<rparr>, cache_secret r later ref secret))))"

definition Invalidate :: "resolver \<Rightarrow> string \<Rightarrow> resolver" where
  "Invalidate r ref = r\<lparr>rs_cached := AList.delete ref (rs_cached r)\<rparr>"

definition InvalidateAll :: "resolver \<Rightarrow> resolver" where
  "InvalidateAll r = r\<lparr>rs_cached := []\<rparr>"

section \<open>The environment store\<close>

definition env_Fetch :: "(string \<Rightarrow> string option) \<Rightarrow> string \<Rightarrow> go_error + string" where
  "env_Fetch lookup ref =
     (case CutPrefix ref ''env:'' of
        None \<Rightarrow> Inl (err_Newf CodeInvalidRequest ''credential reference %q is not an %s reference'' [AStr ref, AStr ''env:''])
      | Some name \<Rightarrow>
          if name = '''' then Inl (err_New CodeInvalidRequest ''credential reference names no variable'')
          else (case lookup name of
              None \<Rightarrow> Inl (err_Newf CodeUnavailable ''environment variable %s is not set'' [AStr name])
            | Some v \<Rightarrow> if v = '''' then Inl (err_Newf CodeUnavailable ''environment variable %s is not set'' [AStr name])
                         else Inr v))"

section \<open>All interleavings\<close>

text \<open>
  A configuration: the clock, the resolver, the requests between lookup and insertion (with the secret
  once the store has answered), what the store answered so far, what was inserted when, and what was
  returned when.
\<close>

record res_conf =
  rc_now :: gotime
  rc_resolver :: resolver
  rc_pending :: "(string \<times> string option) multiset"
  rc_fetched :: "(string \<times> string) list"
  rc_inserted :: "(gotime \<times> string \<times> string) list"
  rc_returned :: "(gotime \<times> string \<times> string) list"

inductive res_step :: "res_conf \<Rightarrow> res_conf \<Rightarrow> bool" where
  hit: "ref \<noteq> '''' \<Longrightarrow> resolver_lookup (rc_resolver c) (rc_now c) ref = Some s \<Longrightarrow>
    res_step c (c\<lparr>rc_returned := rc_returned c @ [(rc_now c, ref, s)]\<rparr>)"
| miss: "ref \<noteq> '''' \<Longrightarrow> resolver_lookup (rc_resolver c) (rc_now c) ref = None \<Longrightarrow>
    res_step c (c\<lparr>rc_pending := add_mset (ref, None) (rc_pending c)\<rparr>)"
| fetch_ok: "rc_pending c = add_mset (ref, None) P \<Longrightarrow>
    res_step c (c\<lparr>rc_pending := add_mset (ref, Some s) P, rc_fetched := rc_fetched c @ [(ref, s)]\<rparr>)"
| fetch_fail: "rc_pending c = add_mset (ref, None) P \<Longrightarrow> res_step c (c\<lparr>rc_pending := P\<rparr>)"
| insert: "rc_pending c = add_mset (ref, Some s) P \<Longrightarrow>
    res_step c (c\<lparr>rc_pending := P, rc_resolver := cache_secret (rc_resolver c) (rc_now c) ref s,
                   rc_inserted := rc_inserted c @ [(rc_now c, ref, s)], rc_returned := rc_returned c @ [(rc_now c, ref, s)]\<rparr>)"
| invalidate: "res_step c (c\<lparr>rc_resolver := Invalidate (rc_resolver c) ref\<rparr>)"
| invalidate_all: "res_step c (c\<lparr>rc_resolver := InvalidateAll (rc_resolver c)\<rparr>)"
| advance: "rc_now c \<le> t \<Longrightarrow> res_step c (c\<lparr>rc_now := t\<rparr>)"

inductive res_reach :: "res_conf \<Rightarrow> res_conf \<Rightarrow> bool" for c0 where
  start: "res_reach c0 c0"
| next_step: "res_reach c0 c \<Longrightarrow> res_step c c' \<Longrightarrow> res_reach c0 c'"

definition res_start :: "resolver \<Rightarrow> gotime \<Rightarrow> res_conf" where
  "res_start r now = \<lparr>rc_now = now, rc_resolver = r, rc_pending = {#}, rc_fetched = [], rc_inserted = [], rc_returned = []\<rparr>"

section \<open>Lemmas\<close>

definition fresh :: "duration \<Rightarrow> (gotime \<times> string \<times> string) list \<Rightarrow> gotime \<times> string \<times> string \<Rightarrow> bool" where
  \<comment> \<open>The secret was inserted for this reference less than a TTL before.\<close>
  "fresh ttl inserted ret = (case ret of (t, ref, s) \<Rightarrow> \<exists>ti. (ti, ref, s) \<in> set inserted \<and> ti \<le> t \<and> t < ti + ttl)"

definition res_inv :: "duration \<Rightarrow> res_conf \<Rightarrow> bool" where
  "res_inv ttl c =
     (0 < ttl \<and> rs_ttl (rc_resolver c) = ttl \<and>
      (\<forall>ref e. map_of (rs_cached (rc_resolver c)) ref = Some e \<longrightarrow>
         (ce_expiresAt e - ttl, ref, ce_secret e) \<in> set (rc_inserted c)) \<and>
      (\<forall>t ref s. (t, ref, s) \<in> set (rc_inserted c) \<longrightarrow> t \<le> rc_now c \<and> (ref, s) \<in> set (rc_fetched c)) \<and>
      (\<forall>ref s. (ref, Some s) \<in># rc_pending c \<longrightarrow> (ref, s) \<in> set (rc_fetched c)) \<and>
      list_all (fresh ttl (rc_inserted c)) (rc_returned c))"

lemma fresh_mono: "fresh ttl ins r \<Longrightarrow> set ins \<subseteq> set ins' \<Longrightarrow> fresh ttl ins' r"
  by (auto simp: fresh_def)

lemma fresh_mono_all: "list_all (fresh ttl ins) rs \<Longrightarrow> list_all (fresh ttl (ins @ xs)) rs"
  by (erule list.pred_mono_strong) (auto elim: fresh_mono)

lemma res_step_inv: "res_step c c' \<Longrightarrow> res_inv ttl c \<Longrightarrow> res_inv ttl c'"
proof (induction rule: res_step.induct)
  case (hit ref c s)
  then obtain e where "map_of (rs_cached (rc_resolver c)) ref = Some e" "rc_now c < ce_expiresAt e" "s = ce_secret e"
    by (auto simp: resolver_lookup_def split: option.splits if_splits)
  moreover from this hit(3) have "(ce_expiresAt e - ttl, ref, s) \<in> set (rc_inserted c)" "0 < ttl"
    by (simp_all add: res_inv_def)
  moreover from this hit(3) have "ce_expiresAt e - ttl \<le> rc_now c" by (simp add: res_inv_def)
  ultimately have "fresh ttl (rc_inserted c) (rc_now c, ref, s)"
    by (force simp: fresh_def)
  with hit(3) show ?case by (simp add: res_inv_def)
next
  case (insert c ref s P)
  then show ?case by (auto simp: res_inv_def cache_secret_def fresh_mono_all fresh_def)
next
  case (fetch_ok c ref P s)
  then show ?case by (auto simp: res_inv_def)
next
  case (invalidate c ref)
  then show ?case by (auto simp: res_inv_def Invalidate_def)
next
  case (advance c t)
  then show ?case by (fastforce simp: res_inv_def)
qed (auto simp: res_inv_def InvalidateAll_def)

lemma res_reach_inv: "res_reach c0 c \<Longrightarrow> res_inv ttl c0 \<Longrightarrow> res_inv ttl c"
  by (induction rule: res_reach.induct) (auto intro: res_step_inv)

lemma NewResolver_inv: "NewResolver store ttl = Inr r \<Longrightarrow> res_inv (rs_ttl r) (res_start r now)"
  by (auto simp: NewResolver_def res_inv_def res_start_def Let_def split: if_splits)

section \<open>Properties\<close>

text \<open>Claim C30. A resolved credential is never stale and never another reference's: however requests, clock
  ticks and invalidations interleave, every secret \<open>Resolve\<close> returned for a reference is one the store
  answered for that very reference, put into the cache at most one TTL before it was returned.\<close>

theorem resolver_never_stale:
  assumes "NewResolver store ttl = Inr r" "res_reach (res_start r now) c"
  shows "list_all (\<lambda>(t, ref, s). (ref, s) \<in> set (rc_fetched c) \<and> fresh (rs_ttl r) (rc_inserted c) (t, ref, s)) (rc_returned c)"
proof -
  have i: "res_inv (rs_ttl r) c" by (rule res_reach_inv[OF assms(2) NewResolver_inv[OF assms(1)]])
  show ?thesis
    unfolding list_all_iff
  proof
    fix x assume "x \<in> set (rc_returned c)"
    with i have "fresh (rs_ttl r) (rc_inserted c) x" by (simp add: res_inv_def list_all_iff)
    moreover obtain t ref s where x: "x = (t, ref, s)" by (metis prod_cases3)
    ultimately obtain ti where "(ti, ref, s) \<in> set (rc_inserted c)" by (auto simp: fresh_def)
    with i have "(ref, s) \<in> set (rc_fetched c)" by (simp add: res_inv_def)
    with \<open>fresh (rs_ttl r) (rc_inserted c) x\<close> x
    show "case x of (t, ref, s) \<Rightarrow> (ref, s) \<in> set (rc_fetched c) \<and> fresh (rs_ttl r) (rc_inserted c) (t, ref, s)"
      by simp
  qed
qed

definition ex_resolver :: resolver where "ex_resolver = \<lparr>rs_ttl = 10, rs_cached = []\<rparr>"

definition ex_resolved :: res_conf where
  "ex_resolved = \<lparr>rc_now = 12, rc_resolver = cache_secret ex_resolver 5 ''a'' ''s'', rc_pending = {#},
     rc_fetched = [(''a'', ''s'')], rc_inserted = [(5, ''a'', ''s'')], rc_returned = [(5, ''a'', ''s''), (12, ''a'', ''s'')]\<rparr>"

lemma ex_resolved_reach: "res_reach (res_start ex_resolver 5) ex_resolved"
proof -
  let ?c0 = "res_start ex_resolver 5"
  let ?c1 = "?c0\<lparr>rc_pending := {#(''a'', None)#}\<rparr>"
  let ?c2 = "?c0\<lparr>rc_pending := {#(''a'', Some ''s'')#}, rc_fetched := [(''a'', ''s'')]\<rparr>"
  let ?c3 = "ex_resolved\<lparr>rc_now := 5, rc_returned := [(5, ''a'', ''s'')]\<rparr>"
  let ?c4 = "ex_resolved\<lparr>rc_returned := [(5, ''a'', ''s'')]\<rparr>"
  have 1: "res_step ?c0 ?c1"
    using res_step.miss[of "''a''" ?c0] by (simp add: res_start_def ex_resolver_def resolver_lookup_def)
  have 2: "res_step ?c1 ?c2"
    using res_step.fetch_ok[of ?c1 "''a''" "{#}" "''s''"] by (simp add: res_start_def)
  have 3: "res_step ?c2 ?c3"
    using res_step.insert[of ?c2 "''a''" "''s''" "{#}"] by (simp add: res_start_def ex_resolved_def)
  have 4: "res_step ?c3 ?c4"
    using res_step.advance[of ?c3 12] by (simp add: ex_resolved_def)
  have 5: "res_step ?c4 ex_resolved"
    using res_step.hit[of "''a''" ?c4 "''s''"] by (simp add: ex_resolved_def resolver_lookup_def cache_secret_def ex_resolver_def)
  show ?thesis
    by (rule res_reach.next_step[OF res_reach.next_step[OF res_reach.next_step[OF res_reach.next_step[OF
          res_reach.next_step[OF res_reach.start 1] 2] 3] 4] 5])
qed

theorem resolver_never_stale_witness:
  "fresh 10 (rc_inserted ex_resolved) (12, ''a'', ''s'')"
  using resolver_never_stale[of True "Some 10" ex_resolver 5 ex_resolved] ex_resolved_reach
  by (simp add: NewResolver_def ex_resolver_def ex_resolved_def)

end
