(* ===== verification/Http_Text.thy ===== *)
theory Http_Text
  imports Core_Identity
begin

text \<open>
  Caller-supplied text at the HTTP boundary, \<open>dataplane/internal/httpapi/logsafe.go\<close> and the bearer
  token of \<open>server.go\<close>: UTF-8 decoding as the Go runtime does it, model-name validation, and the
  sanitising of anything that reaches a log line.
\<close>

section \<open>UTF-8\<close>

abbreviation byte_at :: "string \<Rightarrow> nat \<Rightarrow> nat" where
  "byte_at s i \<equiv> of_char (s ! i)"

definition is_cont :: "string \<Rightarrow> nat \<Rightarrow> bool" where
  "is_cont s i = (i < length s \<and> 128 \<le> byte_at s i \<and> byte_at s i \<le> 191)"

definition accept :: "string \<Rightarrow> bool" where
  \<comment> \<open>Whether the second byte is in the range the first one accepts.\<close>
  "accept s =
     (1 < length s \<and>
      (if byte_at s 0 = 224 then 160 else if byte_at s 0 = 240 then 144 else 128) \<le> byte_at s 1 \<and>
      byte_at s 1 \<le> (if byte_at s 0 = 237 then 159 else if byte_at s 0 = 244 then 143 else 191))"

definition DecodeRune :: "string \<Rightarrow> nat \<times> nat" where
  \<comment> \<open>The rune at the front of a non-empty string and its width; an invalid byte is U+FFFD of width 1.\<close>
  "DecodeRune s =
     (let b = byte_at s 0 in
      if b < 128 then (b, 1)
      else if 194 \<le> b \<and> b \<le> 223 \<and> accept s
        then ((b - 192) * 64 + (byte_at s 1 - 128), 2)
      else if 224 \<le> b \<and> b \<le> 239 \<and> accept s \<and> is_cont s 2
        then ((b - 224) * 4096 + (byte_at s 1 - 128) * 64 + (byte_at s 2 - 128), 3)
      else if 240 \<le> b \<and> b \<le> 244 \<and> accept s \<and> is_cont s 2 \<and> is_cont s 3
        then ((b - 240) * 262144 + (byte_at s 1 - 128) * 4096 + (byte_at s 2 - 128) * 64 + (byte_at s 3 - 128), 4)
      else (65533, 1))"

lemma DecodeRune_width: "1 \<le> snd (DecodeRune s)"
  by (simp add: DecodeRune_def Let_def)

function runes :: "string \<Rightarrow> (nat \<times> string) list" where
  \<comment> \<open>\<open>for _, r := range s\<close>: every rune with the bytes it was read from.\<close>
  "runes s = (if s = [] then []
     else (let (r, w) = DecodeRune s in (r, take w s) # runes (drop w s)))"
  by pat_completeness auto
termination
proof (relation "measure length")
  fix s :: string and x r w
  assume "s \<noteq> []" "x = DecodeRune s" "(r, w) = x"
  then have "1 \<le> w" using DecodeRune_width[of s] by (metis snd_conv)
  with \<open>s \<noteq> []\<close> show "(drop w s, s) \<in> measure length" by (cases s) auto
qed simp

declare runes.simps [simp del]

lemma runes_Nil [simp]: "runes [] = []"
  by (subst runes.simps) simp

lemma runes_step: "s \<noteq> [] \<Longrightarrow> DecodeRune s = (r, w) \<Longrightarrow> runes s = (r, take w s) # runes (drop w s)"
  by (subst runes.simps) simp

definition rune_error :: "nat \<times> string \<Rightarrow> bool" where
  "rune_error p = (case p of (r, bs) \<Rightarrow> length bs = 1 \<and> 128 \<le> byte_at bs 0)"

definition ValidString :: "string \<Rightarrow> bool" where
  "ValidString s = list_all (\<lambda>p. \<not> rune_error p) (runes s)"

definition IsControl :: "nat \<Rightarrow> bool" where
  "IsControl r = (r < 32 \<or> (127 \<le> r \<and> r < 160))"

definition IsSpace :: "nat \<Rightarrow> bool" where
  "IsSpace r =
     (r \<in> {9, 10, 11, 12, 13, 32, 133, 160, 5760, 8232, 8233, 8239, 8287, 12288} \<or> (8192 \<le> r \<and> r \<le> 8202))"

definition TrimSpace :: "string \<Rightarrow> string" where
  "TrimSpace s =
     (let space = (\<lambda>p. IsSpace (fst p) \<and> \<not> rune_error p)
      in concat (map snd (rev (dropWhile space (rev (dropWhile space (runes s)))))))"

section \<open>The boundary\<close>

definition maxModelNameBytes :: nat where "maxModelNameBytes = 256"
definition maxLoggedValueBytes :: nat where "maxLoggedValueBytes = 256"

definition validModelName :: "string \<Rightarrow> bool" where
  "validModelName name =
     (\<not> (name = '''' \<or> length name > maxModelNameBytes) \<and> ValidString name \<and>
      list_all (\<lambda>(r, _). \<not> IsControl r) (runes name))"

definition RuneStart :: "char \<Rightarrow> bool" where
  "RuneStart c = (of_char c div 64 \<noteq> (2 :: nat))"

fun cut_back :: "string \<Rightarrow> nat \<Rightarrow> nat" where
  "cut_back s 0 = 0"
| "cut_back s (Suc n) = (if RuneStart (s ! Suc n) then Suc n else cut_back s n)"

definition ellipsis :: string where "ellipsis = map char_of [226 :: nat, 128, 166]"
definition replacement :: string where "replacement = map char_of [239 :: nat, 191, 189]"

definition truncateRunes :: "string \<Rightarrow> nat \<Rightarrow> string" where
  "truncateRunes s limit =
     (if length s \<le> limit then s else take (cut_back s limit) s @ ellipsis)"

definition ReplaceByte :: "char \<Rightarrow> string \<Rightarrow> string \<Rightarrow> string" where
  "ReplaceByte c by s = concat (map (\<lambda>x. if x = c then by else [x]) s)"

definition sanitize :: "nat \<times> string \<Rightarrow> string" where
  \<comment> \<open>The function given to \<open>strings.Map\<close>, which also rewrites invalid bytes.\<close>
  "sanitize p = (if IsControl (fst p) \<or> rune_error p then replacement else snd p)"

definition logSafe :: "string \<Rightarrow> string" where
  "logSafe s =
     (let s1 = truncateRunes s maxLoggedValueBytes;
          s2 = ReplaceByte (char_of (13 :: nat)) [char_of (92 :: nat), CHR ''r''] s1;
          s3 = ReplaceByte (char_of (10 :: nat)) [char_of (92 :: nat), CHR ''n''] s2
      in concat (map sanitize (runes s3)))"

definition bearerToken :: "string \<Rightarrow> string" where
  "bearerToken header =
     (case CutPrefix header ''Bearer '' of Some after \<Rightarrow> TrimSpace after | None \<Rightarrow> TrimSpace header)"

section \<open>Lemmas\<close>

lemma below_four:
  "i < 2 \<Longrightarrow> i = 0 \<or> i = (1 :: nat)" "i < 3 \<Longrightarrow> i = 0 \<or> i = 1 \<or> i = (2 :: nat)"
  "i < 4 \<Longrightarrow> i = 0 \<or> i = 1 \<or> i = 2 \<or> i = (3 :: nat)"
  by presburger+

lemma accept_second: "accept s \<Longrightarrow> 1 < length s \<and> 128 \<le> byte_at s 1"
  by (auto simp: accept_def split: if_splits)

lemma DecodeRune_cases:
  assumes "DecodeRune s = (r, w)"
  obtains "byte_at s 0 < 128" "r = byte_at s 0" "w = 1" | "128 \<le> byte_at s 0" "w = 1"
    | "128 \<le> byte_at s 0" "accept s" "w = 2" | "128 \<le> byte_at s 0" "accept s" "is_cont s 2" "w = 3"
    | "128 \<le> byte_at s 0" "accept s" "is_cont s 2" "is_cont s 3" "w = 4"
  using assms unfolding DecodeRune_def Let_def by (simp split: if_splits)

lemma DecodeRune_piece:
  assumes "DecodeRune s = (r, w)" "s \<noteq> []"
  shows "(\<exists>c. take w s = [c] \<and> r = of_char c \<and> r < 128) \<or> (take w s \<noteq> [] \<and> list_all (\<lambda>c. 128 \<le> (of_char c :: nat)) (take w s))"
proof -
  have high: ?thesis if "\<And>i. i < w \<Longrightarrow> i < length s \<and> 128 \<le> byte_at s i" "0 < w"
    using that assms(2) by (auto simp: list_all_length)
  from assms(1) show ?thesis
  proof (cases rule: DecodeRune_cases)
    case 1 with assms(2) show ?thesis by (cases s) auto
  next
    case 2 with assms(2) show ?thesis by (intro high) (auto simp: less_Suc_eq)
  next
    case 3 with accept_second[of s] show ?thesis by (intro high) (auto dest!: below_four(1))
  next
    case 4 with accept_second[of s] show ?thesis by (intro high) (auto simp: is_cont_def dest!: below_four(2))
  next
    case 5 with accept_second[of s] show ?thesis by (intro high) (auto simp: is_cont_def dest!: below_four(3))
  qed
qed

lemma runes_pieces: "(r, bs) \<in> set (runes s) \<Longrightarrow>
    (\<exists>c. bs = [c] \<and> r = of_char c \<and> r < 128) \<or> (bs \<noteq> [] \<and> list_all (\<lambda>c. 128 \<le> (of_char c :: nat)) bs)"
proof (induction s rule: runes.induct)
  case (1 s)
  have d: "DecodeRune s = (fst (DecodeRune s), snd (DecodeRune s))" by simp
  show ?case
  proof (cases "s = []")
    case False
    note ih = 1(1)[OF False refl d[symmetric]]
    from 1(2) consider "r = fst (DecodeRune s)" "bs = take (snd (DecodeRune s)) s"
      | "(r, bs) \<in> set (runes (drop (snd (DecodeRune s)) s))"
      unfolding runes_step[OF False d] by auto
    then show ?thesis
    proof cases
      case 1
      then show ?thesis using DecodeRune_piece[OF d False] by simp
    next
      case 2
      then show ?thesis by (rule ih)
    qed
  next
    case True
    with 1(2) show ?thesis by simp
  qed
qed

lemma runes_concat: "concat (map snd (runes s)) = s"
proof (induction s rule: runes.induct)
  case (1 s)
  have d: "DecodeRune s = (fst (DecodeRune s), snd (DecodeRune s))" by simp
  show ?case
  proof (cases "s = []")
    case False
    note ih = 1[OF False refl d[symmetric]]
    show ?thesis unfolding runes_step[OF False d] using ih by simp
  qed simp
qed

definition log_byte :: "char \<Rightarrow> bool" where
  \<comment> \<open>Neither an ASCII control character nor DEL.\<close>
  "log_byte c = (32 \<le> (of_char c :: nat) \<and> (of_char c :: nat) \<noteq> 127)"

lemma sanitize_bytes:
  assumes "p \<in> set (runes s)"
  shows "list_all log_byte (sanitize p)"
proof (cases "IsControl (fst p) \<or> rune_error p")
  case True
  then show ?thesis by (simp add: sanitize_def replacement_def log_byte_def)
next
  case False
  obtain r bs where p: "p = (r, bs)" by fastforce
  from runes_pieces[of r bs s] assms p False show ?thesis
    by (auto simp: sanitize_def IsControl_def log_byte_def list_all_iff)
qed

lemma sanitize_length: "p \<in> set (runes s) \<Longrightarrow> length (sanitize p) \<le> 3 * length (snd p)"
  using runes_pieces[of "fst p" "snd p" s] by (cases p; cases "snd p") (auto simp: sanitize_def replacement_def)

lemma concat_sanitize_length: "length (concat (map sanitize (runes s))) \<le> 3 * length s"
proof -
  have "length (concat (map sanitize ps)) \<le> 3 * length (concat (map snd ps))" if "set ps \<subseteq> set (runes s)" for ps
    using that
  proof (induction ps)
    case (Cons p ps)
    with sanitize_length[of p s] show ?case by simp
  qed simp
  from this[of "runes s"] show ?thesis by (simp add: runes_concat)
qed

lemma cut_back_le: "cut_back s n \<le> n"
  by (induction n) auto

lemma truncateRunes_length: "length (truncateRunes s limit) \<le> limit + 3"
  using cut_back_le[of s limit] by (simp add: truncateRunes_def ellipsis_def)

lemma ReplaceByte_length: "length (ReplaceByte c [a, b] s) \<le> 2 * length s"
  by (induction s) (auto simp: ReplaceByte_def)

section \<open>Properties\<close>

text \<open>Nothing a caller sends can forge or corrupt a log line: whatever bytes go in, what
  \<open>logSafe\<close> gives to the logger has no line break, no other control character and no DEL, and its
  length is bounded.\<close>

lemma logSafe_is_safe:
  "list_all log_byte (logSafe s) \<and> length (logSafe s) \<le> 12 * (maxLoggedValueBytes + 3)"
proof
  show "list_all log_byte (logSafe s)"
    using sanitize_bytes by (auto simp: logSafe_def Let_def list_all_iff)
  let ?s1 = "truncateRunes s maxLoggedValueBytes"
  let ?s2 = "ReplaceByte (char_of (13 :: nat)) [char_of (92 :: nat), CHR ''r''] ?s1"
  let ?s3 = "ReplaceByte (char_of (10 :: nat)) [char_of (92 :: nat), CHR ''n''] ?s2"
  have "length (logSafe s) \<le> 3 * length ?s3"
    using concat_sanitize_length[of ?s3] by (simp add: logSafe_def Let_def)
  also have "\<dots> \<le> 3 * (2 * length ?s2)" using ReplaceByte_length[of _ _ _ ?s2] by simp
  also have "\<dots> \<le> 3 * (2 * (2 * length ?s1))" using ReplaceByte_length[of _ _ _ ?s1] by simp
  also have "\<dots> \<le> 12 * (maxLoggedValueBytes + 3)" using truncateRunes_length[of s maxLoggedValueBytes] by simp
  finally show "length (logSafe s) \<le> 12 * (maxLoggedValueBytes + 3)" .
qed

end
