(* ===== verification/Http_Api.thy ===== *)
theory Http_Api
  imports Stream_Laws Http_Text Snapshot_Holder Telemetry
begin

text \<open>
  \<open>dataplane/internal/httpapi\<close>: the two completion surfaces over the pipeline, the relay of a provider
  stream as server-sent events, the error envelope, cross-origin grants, readiness and panic recovery.
  A handler maps a request, the holder and the worker to a reply and the new holder and worker. What
  the standard library does with the bytes (JSON, addresses, durations) is a record of functions;
  tracing spans and log lines are left out.
\<close>

section \<open>Errors\<close>

definition statusByCode :: "code \<Rightarrow> int option" where
  "statusByCode c =
     (case c of
        CodeNone \<Rightarrow> None | CodeUnauthenticated \<Rightarrow> Some 401 | CodeForbidden \<Rightarrow> Some 403 | CodeTrustTierDenied \<Rightarrow> Some 403
      | CodeInvalidRequest \<Rightarrow> Some 400 | CodeModelNotFound \<Rightarrow> Some 404 | CodeEndpointUnsupported \<Rightarrow> Some 404
      | CodeNoCandidates \<Rightarrow> Some 503 | CodeRateLimited \<Rightarrow> Some 429 | CodeBudgetExhausted \<Rightarrow> Some 402
      | CodeGuardrailDenied \<Rightarrow> Some 422 | CodeUpstreamError \<Rightarrow> Some 502 | CodeUpstreamTimeout \<Rightarrow> Some 504
      | CodeUnavailable \<Rightarrow> Some 503 | CodeInternal \<Rightarrow> Some 500)"

record error_detail =
  ed_Message :: string
  ed_Type :: string
  ed_Code :: string
  ed_RequestID :: string

datatype sse_frame = SData string | SError code string | SDone

datatype reply_body = NoContent | ErrorBody error_detail | Payload string | Frames "sse_frame list"

record reply =
  re_Status :: int
  re_Headers :: "(string, string) gomap"
  re_Body :: reply_body

text \<open>What the handlers use of the standard library.\<close>

record http_lib =
  hl_sprintf :: "message \<Rightarrow> string"
  hl_ParseDuration :: "string \<Rightarrow> duration option"
  hl_ParseBody :: "string \<Rightarrow> go_error + string \<times> bool"
  hl_SplitHostPort :: "string \<Rightarrow> string option"
  hl_ParseAddr :: "string \<Rightarrow> addr option"

definition typeForStatus :: "int \<Rightarrow> string" where
  "typeForStatus status = (if status \<ge> 500 then ''server_error'' else ''invalid_request_error'')"

definition cut_after :: "string \<Rightarrow> string \<Rightarrow> string option" where
  \<comment> \<open>The part \<open>strings.Cut\<close> returns after the separator.\<close>
  "cut_after s sep = map_option (\<lambda>i. drop (i + length sep) s) (Index s sep)"

definition retryAfterFrom :: "http_lib \<Rightarrow> go_error \<Rightarrow> duration" where
  "retryAfterFrom lib err =
     (case errors_As err of
        None \<Rightarrow> 0
      | Some (_, m, _) \<Rightarrow>
          (case cut_after (hl_sprintf lib m) ''retry in '' of
             None \<Rightarrow> 0
           | Some after \<Rightarrow> (case hl_ParseDuration lib after of None \<Rightarrow> 0 | Some d \<Rightarrow> d)))"

definition error_message :: "http_lib \<Rightarrow> int \<Rightarrow> go_error \<Rightarrow> string" where
  "error_message lib status err =
     (if status \<ge> 500 then ''internal error''
      else (case errors_As err of
          Some (_, m, _) \<Rightarrow> if hl_sprintf lib m \<noteq> '''' then hl_sprintf lib m else Error_text (hl_sprintf lib) err
        | None \<Rightarrow> Error_text (hl_sprintf lib) err))"

definition writeError :: "http_lib \<Rightarrow> (string, string) gomap \<Rightarrow> string \<Rightarrow> go_error \<Rightarrow> reply" where
  "writeError lib headers requestID err =
     (let code = CodeOf (Some err);
          status = (case statusByCode code of Some s \<Rightarrow> s | None \<Rightarrow> 500);
          after = retryAfterFrom lib err;
          h1 = (if status = 429 \<and> after > 0 then AList.update ''Retry-After'' (FormatInt (go_div after second)) headers else headers)
      in \<lparr>re_Status = status, re_Headers = AList.update ''Content-Type'' ''application/json'' h1,
          re_Body = ErrorBody \<lparr>ed_Message = error_message lib status err, ed_Type = typeForStatus status,
             ed_Code = code_string code, ed_RequestID = requestID\<rparr>\<rparr>)"

section \<open>The caller\<close>

fun addr_Unmap :: "addr \<Rightarrow> addr" where
  "addr_Unmap (Addr6 a zone) = (if drop_bit 32 a = 65535 then Addr4 (ucast a) else Addr6 a zone)"
| "addr_Unmap a = a"

definition clientIP :: "http_lib \<Rightarrow> string \<Rightarrow> addr" where
  "clientIP lib remote =
     (let host = (case hl_SplitHostPort lib remote of Some h \<Rightarrow> h | None \<Rightarrow> remote)
      in case hl_ParseAddr lib host of None \<Rightarrow> AddrNone | Some a \<Rightarrow> addr_Unmap a)"

datatype body_read = BodyRead string | BodyTooLarge | BodyFailed go_error

record http_in =
  ht_traceID :: string
  ht_newID :: string
  ht_RemoteAddr :: string
  ht_Authorization :: string
  ht_IdempotencyKey :: string
  ht_Body :: body_read
  ht_receivedAt :: gotime
  ht_deadline :: "gotime option"
  ht_canFlush :: bool

definition maxBodyBytes :: int where "maxBodyBytes = 8388608"

definition deprecatedKeyWarning :: string where
  "deprecatedKeyWarning = ''299 - \"This API key is deprecated and will stop working after its rotation window\"''"

section \<open>Relaying a stream\<close>

text \<open>
  The transport's side of a stream: how the n-th write to the client went, how long after the start the
  n-th chunk came, and how the cursor ended: a last chunk with its error, None for the end of file.
\<close>

record transport =
  tr_write :: "nat \<Rightarrow> go_error option"
  tr_since :: "nat \<Rightarrow> duration"
  tr_last :: "chunk \<times> go_error option"

record relay =
  rl_restorer :: restorer
  rl_usage :: token_usage
  rl_ttfb :: duration
  rl_frames :: "sse_frame list"

datatype relay_end = Clean | HungUp go_error | Broken go_error

definition relay_chunk :: "transport \<Rightarrow> nat \<Rightarrow> relay \<Rightarrow> chunk \<Rightarrow> go_error option \<times> relay" where
  "relay_chunk tr i st c =
     (let usage = (if tu_Input (chunk_Usage c) \<noteq> 0 \<or> tu_Output (chunk_Usage c) \<noteq> 0 then chunk_Usage c else rl_usage st)
      in case Push (rl_restorer st) (chunk_Body c) of (body, r) \<Rightarrow>
           (let st1 = st\<lparr>rl_restorer := r, rl_usage := usage\<rparr> in
            if body = '''' then (None, st1)
            else (let st2 = st1\<lparr>rl_ttfb := (if rl_ttfb st = 0 then tr_since tr i else rl_ttfb st)\<rparr> in
                  case tr_write tr i of
                    Some e \<Rightarrow> (Some e, st2)
                  | None \<Rightarrow> (None, st2\<lparr>rl_frames := rl_frames st @ [SData body]\<rparr>))))"

fun relay_chunks :: "transport \<Rightarrow> nat \<Rightarrow> relay \<Rightarrow> chunk list \<Rightarrow> relay_end \<times> relay" where
  "relay_chunks tr i st [] =
     (case relay_chunk tr i st (fst (tr_last tr)) of
        (Some e, st1) \<Rightarrow> (HungUp e, st1)
      | (None, st1) \<Rightarrow> (case snd (tr_last tr) of None \<Rightarrow> (Clean, st1) | Some e \<Rightarrow> (Broken e, st1)))"
| "relay_chunks tr i st (c # cs) =
     (case relay_chunk tr i st c of
        (Some e, st1) \<Rightarrow> (HungUp e, st1)
      | (None, st1) \<Rightarrow> relay_chunks tr (Suc i) st1 cs)"

definition relay_finish :: "string \<Rightarrow> relay_end \<times> relay \<Rightarrow> sse_frame list" where
  \<comment> \<open>What is written after the loop.\<close>
  "relay_finish requestID out =
     (case out of
        (HungUp _, st) \<Rightarrow> rl_frames st
      | (Broken e, st) \<Rightarrow> rl_frames st @ [SError (CodeOf (Some e)) requestID]
      | (Clean, st) \<Rightarrow>
          (let tail = fst (Flush (rl_restorer st))
           in rl_frames st @ (if tail \<noteq> '''' then [SData tail] else []) @ [SDone]))"

fun stream_error :: "relay_end \<Rightarrow> go_error option" where
  "stream_error Clean = None"
| "stream_error (HungUp e) = Some (GwError CodeUpstreamError (Msg ''client disconnected'' []) False (Some e))"
| "stream_error (Broken e) = Some e"

definition sse_headers :: "(string, string) gomap \<Rightarrow> (string, string) gomap" where
  "sse_headers h =
     AList.update ''X-Accel-Buffering'' ''no'' (AList.update ''Cache-Control'' ''no-cache''
       (AList.update ''Content-Type'' ''text/event-stream'' h))"

definition warn_deprecated :: "principal \<Rightarrow> (string, string) gomap \<Rightarrow> (string, string) gomap" where
  "warn_deprecated p h = (if p_Deprecated p then AList.update ''Warning'' deprecatedKeyWarning h else h)"

definition relay_start :: "stream_result \<Rightarrow> relay" where
  "relay_start sr =
     \<lparr>rl_restorer = (case so_Restorer sr of Some r \<Rightarrow> r | None \<Rightarrow> NewRestorer []), rl_usage = no_usage, rl_ttfb = 0, rl_frames = []\<rparr>"

definition streamCompletion ::
  "http_lib \<Rightarrow> transport \<Rightarrow> 's pipeline \<Rightarrow> bool \<Rightarrow> (string, string) gomap \<Rightarrow> snapshot \<Rightarrow> request \<Rightarrow> string \<Rightarrow> 's worker \<Rightarrow>
   reply \<times> 's worker" where
  "streamCompletion lib tr pl canFlush h snap req requestID w =
     (if \<not> canFlush then (writeError lib h requestID (err_New CodeInternal ''this server cannot stream''), w)
      else (case HandleStream pl snap req w of
          (sr, Some e, w1) \<Rightarrow> (writeError lib (warn_deprecated (so_Principal sr) h) requestID e, w1)
        | (sr, None, w1) \<Rightarrow>
            (case relay_chunks tr 0 (relay_start sr) (so_Chunks sr) of (how, st) \<Rightarrow>
               (\<lparr>re_Status = 200, re_Headers = sse_headers (warn_deprecated (so_Principal sr) h),
                 re_Body = Frames (relay_finish requestID (how, st))\<rparr>,
                snd (Finish pl snap sr (rl_usage st) (rl_ttfb st) (stream_error how) w1)))))"

section \<open>A completion request\<close>

definition request_id :: "http_in \<Rightarrow> string" where
  "request_id ht = (if ht_traceID ht = '''' then ht_newID ht else ht_traceID ht)"

definition request_of :: "http_lib \<Rightarrow> http_in \<Rightarrow> endpoint \<Rightarrow> string \<Rightarrow> string \<Rightarrow> bool \<Rightarrow> request" where
  "request_of lib ht ep body model stream =
     \<lparr>rq_Meta = \<lparr>RequestID = request_id ht, m_Model = model, m_Endpoint = ep, m_Stream = stream, m_PayloadBytes = int (length body),
        m_SourceIP = clientIP lib (ht_RemoteAddr ht), m_Region = '''', m_Priority = PriorityInteractive,
        m_IdempotencyKey = ht_IdempotencyKey ht, m_ReceivedAt = ht_receivedAt ht,
        m_Deadline = (case ht_deadline ht of Some d \<Rightarrow> d | None \<Rightarrow> 0)\<rparr>,
      rq_APIKey = bearerToken (ht_Authorization ht), rq_Body = body, rq_deepInspection = False\<rparr>"

definition parse_request :: "http_lib \<Rightarrow> http_in \<Rightarrow> endpoint \<Rightarrow> go_error + request \<times> bool" where
  \<comment> \<open>The checks before the pipeline, in order.\<close>
  "parse_request lib ht ep =
     (case ht_Body ht of
        BodyTooLarge \<Rightarrow> Inl (err_Newf CodeInvalidRequest ''request body exceeds the %d byte limit'' [AInt maxBodyBytes])
      | BodyFailed e \<Rightarrow> Inl (GwError CodeInvalidRequest (Msg ''reading the request body'' []) False (Some e))
      | BodyRead body \<Rightarrow>
          (case hl_ParseBody lib body of
             Inl e \<Rightarrow> Inl (GwError CodeInvalidRequest (Msg ''parsing the request body'' []) False (Some e))
           | Inr (model, stream) \<Rightarrow>
               if model = '''' then Inl (err_New CodeInvalidRequest ''the request has no model'')
               else if \<not> validModelName model then Inl (err_New CodeInvalidRequest ''the model name is malformed or too long'')
               else Inr (request_of lib ht ep body model stream, stream)))"

definition serve_leased ::
  "http_lib \<Rightarrow> transport \<Rightarrow> 's pipeline \<Rightarrow> http_in \<Rightarrow> endpoint \<Rightarrow> snapshot \<Rightarrow> 's worker \<Rightarrow> reply \<times> 's worker" where
  \<comment> \<open>\<open>serveCompletion\<close> between acquiring and releasing its lease.\<close>
  "serve_leased lib tr pl ht ep snap w =
     (let requestID = request_id ht;
          h = AList.update ''X-Gateway-Snapshot-Version'' (layer_version_String (GlobalVersion snap)) [(''X-Request-Id'', requestID)]
      in case parse_request lib ht ep of
           Inl e \<Rightarrow> (writeError lib h requestID e, w)
         | Inr (req, True) \<Rightarrow> streamCompletion lib tr pl (ht_canFlush ht) h snap req requestID w
         | Inr (req, False) \<Rightarrow>
             (case Handle pl snap req w of
                (res, Some e, w1) \<Rightarrow> (writeError lib (warn_deprecated (hr_Principal res) h) requestID e, w1)
              | (res, None, w1) \<Rightarrow>
                  (\<lparr>re_Status = hr_StatusCode res,
                    re_Headers = AList.update ''Content-Type'' ''application/json'' (warn_deprecated (hr_Principal res) h),
                    re_Body = Payload (hr_Body res)\<rparr>, w1)))"

definition serveCompletion ::
  "http_lib \<Rightarrow> transport \<Rightarrow> 's pipeline \<Rightarrow> http_in \<Rightarrow> endpoint \<Rightarrow> holder \<Rightarrow> 's worker \<Rightarrow> reply \<times> holder \<times> 's worker" where
  \<comment> \<open>Nothing else touches the holder meanwhile, so the first round of \<open>Acquire\<close> succeeds.\<close>
  "serveCompletion lib tr pl ht ep h w =
     (case Acquire h of (_, h1) \<Rightarrow>
       (let lease = length (h_leases h1) - 1
        in case serve_leased lib tr pl ht ep (lease_Snapshot h1 lease) w of
             (rep, w1) \<Rightarrow> (rep, lease_Release h1 lease, w1)))"

section \<open>Cross-origin grants\<close>

definition withCORS :: "string list \<Rightarrow> string \<Rightarrow> string \<Rightarrow> reply \<Rightarrow> reply" where
  \<comment> \<open>The allowed origins, the request's method and origin, and the reply of the wrapped handler.\<close>
  "withCORS origins meth orig rep =
     (if origins = [] \<or> orig = '''' \<or> orig \<notin> set origins then rep
      else (let grant = (\<lambda>h. AList.update ''Access-Control-Max-Age'' ''600''
                 (AList.update ''Access-Control-Expose-Headers'' ''X-Request-Id, X-Gateway-Snapshot-Version, Warning''
                 (AList.update ''Access-Control-Allow-Methods'' ''POST, GET, OPTIONS''
                 (AList.update ''Access-Control-Allow-Headers'' ''Authorization, Content-Type''
                 (AList.update ''Vary'' ''Origin'' (AList.update ''Access-Control-Allow-Origin'' orig h))))))
            in if meth = ''OPTIONS'' then \<lparr>re_Status = 204, re_Headers = grant [], re_Body = NoContent\<rparr>
               else rep\<lparr>re_Headers := grant (re_Headers rep)\<rparr>))"

section \<open>Panics\<close>

datatype panic = AbortHandler | PanicValue string

definition recoverPanics :: "http_lib \<Rightarrow> string \<Rightarrow> panic + reply \<Rightarrow> panic + reply" where
  \<comment> \<open>The request id header set so far, and the outcome of the wrapped handler.\<close>
  "recoverPanics lib requestID out =
     (case out of
        Inr rep \<Rightarrow> Inr rep
      | Inl AbortHandler \<Rightarrow> Inl AbortHandler
      | Inl (PanicValue _) \<Rightarrow>
          Inr (writeError lib (if requestID = '''' then [] else [(''X-Request-Id'', requestID)]) requestID
                 (err_New CodeInternal ''internal error'')))"

section \<open>Readiness\<close>

datatype json = JNum real | JStr string | JBool bool | JObj "(string \<times> json) list" | JArr "json list"

record ready_inputs =
  ry_sub :: "subscriber option"
  ry_router :: "deployment_health list option"
  ry_guard :: "chain_stats option"
  ry_telemetry :: "emitter_stats option"

definition ready_subscriber :: "http_lib \<Rightarrow> subscriber \<Rightarrow> json" where
  "ready_subscriber lib s =
     JObj [(''digest'', JStr (case sub_digest s of Some d \<Rightarrow> d | None \<Rightarrow> '''')), (''applied'', JNum (real (sub_applied s))),
           (''unchanged'', JNum (real (sub_unchanged s))), (''failed'', JNum (real (sub_failed s))),
           (''rejected'', JNum (real (sub_rejected s))),
           (''last_error'', JStr (case sub_lastError s of Some e \<Rightarrow> Error_text (hl_sprintf lib) e | None \<Rightarrow> ''''))]"

definition ready_deployment :: "deployment_health \<Rightarrow> json" where
  "ready_deployment d =
     JObj [(''deployment'', JStr (dh_Deployment d)), (''score'', JNum (dh_Score d)),
           (''observations'', JNum (real (dh_Observations d))), (''breaker_open'', JBool (dh_BreakerOpen d))]"

definition ready_guardrails :: "chain_stats \<Rightarrow> json" where
  "ready_guardrails g =
     JObj [(''evaluated'', JNum (real_of_int (cs_Evaluated g))), (''denied'', JNum (real_of_int (cs_Denied g))),
           (''mutated'', JNum (real_of_int (cs_Mutated g))), (''failed_open'', JNum (real_of_int (cs_FailedOpen g))),
           (''failed_shut'', JNum (real_of_int (cs_FailedShut g))), (''skipped'', JNum (real_of_int (cs_Skipped g)))]"

definition ready_telemetry :: "emitter_stats \<Rightarrow> json" where
  "ready_telemetry t =
     JObj [(''received'', JNum (real_of_int (es_Received t))), (''dropped'', JNum (real_of_int (es_Dropped t))),
           (''failed'', JNum (real_of_int (es_Failed t))), (''queued'', JNum (real (es_Queued t)))]"

definition opt_field :: "string \<Rightarrow> ('a \<Rightarrow> json) \<Rightarrow> 'a option \<Rightarrow> (string \<times> json) list" where
  "opt_field name f x = (case x of None \<Rightarrow> [] | Some v \<Rightarrow> [(name, f v)])"

definition handleReady :: "http_lib \<Rightarrow> holder_stats \<Rightarrow> ready_inputs \<Rightarrow> int \<times> json" where
  "handleReady lib st ry =
     (200, JObj
       ([(''snapshot_version'', JNum (real (v_Number (hs_Version st)))), (''snapshot_digest'', JStr (v_Digest (hs_Version st))),
         (''in_flight'', JNum (real_of_int (hs_InFlight st))), (''draining'', JNum (real_of_int (hs_PreviousInFlight st))),
         (''previous_loaded'', JBool (hs_PreviousVersion st \<noteq> None)),
         (''previous_version'', JNum (case hs_PreviousVersion st of Some v \<Rightarrow> real (v_Number v) | None \<Rightarrow> 0))] @
        opt_field ''subscriber'' (ready_subscriber lib) (ry_sub ry) @
        opt_field ''router'' (\<lambda>ds. JArr (map ready_deployment ds)) (ry_router ry) @
        opt_field ''guardrails'' ready_guardrails (ry_guard ry) @
        opt_field ''telemetry'' ready_telemetry (ry_telemetry ry)))"

section \<open>Lemmas\<close>

lemma Acquire_release:
  assumes "holder_inv h" "Acquire h = (ok, h1)"
  shows "ok" "lease_Snapshot h1 (length (h_leases h1) - 1) = Current h"
    "h_gens (lease_Release h1 (length (h_leases h1) - 1)) = h_gens h"
    "h_current (lease_Release h1 (length (h_leases h1) - 1)) = h_current h"
proof -
  let ?g = "h_current h"
  have b: "?g < length (h_gens h)" using assms(1) by (simp add: holder_inv_def holder_bounds_def)
  have "0 < owners h ?g" by (simp add: owners_def live_leases_def)
  then have pos: "0 < gen_refs (h_gens h ! ?g)" using holder_invD(1)[OF assms(1) b] by simp
  then have h1: "h1 = h\<lparr>h_gens := (h_gens h)[?g := (h_gens h ! ?g)\<lparr>gen_refs := gen_refs (h_gens h ! ?g) + 1\<rparr>],
                   h_leases := h_leases h @ [\<lparr>le_gen = ?g, le_released = False\<rparr>]\<rparr>" and ok: "ok"
    using assms(2) by (auto simp: Acquire_def acquire_on_def tryRef_def Let_def)
  show "ok" by (rule ok)
  show "lease_Snapshot h1 (length (h_leases h1) - 1) = Current h"
    using b by (simp add: h1 lease_Snapshot_def Current_def)
  have "lease_Release h1 (length (h_leases h1) - 1) =
      h\<lparr>h_leases := h_leases h @ [\<lparr>le_gen = ?g, le_released = True\<rparr>]\<rparr>"
    using b pos by (simp add: h1 lease_Release_def unref_def Let_def list_update_append)
  then show "h_gens (lease_Release h1 (length (h_leases h1) - 1)) = h_gens h"
    "h_current (lease_Release h1 (length (h_leases h1) - 1)) = h_current h" by simp_all
qed

definition frame_text :: "sse_frame \<Rightarrow> string" where
  "frame_text f = (case f of SData s \<Rightarrow> s | SError _ _ \<Rightarrow> '''' | SDone \<Rightarrow> '''')"

definition stream_text :: "sse_frame list \<Rightarrow> string" where
  \<comment> \<open>The text of the data events a client receives.\<close>
  "stream_text fs = concat (map frame_text fs)"

lemma stream_text_simps [simp]:
  "stream_text [] = ''''" "stream_text (fs @ gs) = stream_text fs @ stream_text gs"
  "stream_text [SData s] = s" "stream_text [SDone] = ''''"
  by (simp_all add: stream_text_def frame_text_def)

lemma relay_chunk_Push:
  assumes "\<And>i. tr_write tr i = None"
  shows "fst (relay_chunk tr i st c) = None"
    "rl_restorer (snd (relay_chunk tr i st c)) = snd (Push (rl_restorer st) (chunk_Body c))"
    "stream_text (rl_frames (snd (relay_chunk tr i st c))) = stream_text (rl_frames st) @ fst (Push (rl_restorer st) (chunk_Body c))"
  by (auto simp: relay_chunk_def assms Let_def split: prod.split)

lemma relay_chunks_push_all:
  assumes "\<And>i. tr_write tr i = None" "snd (tr_last tr) = None"
  shows "fst (relay_chunks tr i st cs) = Clean \<and>
    stream_text (relay_finish rid (relay_chunks tr i st cs)) =
      stream_text (rl_frames st) @ fst (push_all (rl_restorer st) (map chunk_Body cs @ [chunk_Body (fst (tr_last tr))]))"
proof (induction cs arbitrary: i st)
  case Nil
  let ?st = "snd (relay_chunk tr i st (fst (tr_last tr)))"
  note P = relay_chunk_Push[OF assms(1), of i st "fst (tr_last tr)"]
  have "relay_chunks tr i st [] = (Clean, ?st)" using P(1) assms(2) by (auto split: prod.split)
  with P show ?case by (auto simp: relay_finish_def Let_def split: prod.split)
next
  case (Cons c cs)
  let ?st = "snd (relay_chunk tr i st c)"
  note P = relay_chunk_Push[OF assms(1), of i st c]
  have "relay_chunks tr i st (c # cs) = relay_chunks tr (Suc i) ?st cs" using P(1) by (auto split: prod.split)
  with Cons.IH[of "Suc i" ?st] P show ?case by (simp split: prod.split)
qed

section \<open>Properties\<close>

text \<open>An error reply tells a caller the code and at most one message. Every error of the taxonomy has
  its own status; a reply of the 500 class says \<open>internal error\<close> and nothing else, any other one says the
  outermost gateway error's own message, never that of a cause it wraps. Only an error with an empty
  message shows its chain.\<close>

lemma writeError_reveals_only_its_message:
  "case writeError lib h requestID err of rep \<Rightarrow>
     re_Status rep = (case statusByCode (CodeOf (Some err)) of Some s \<Rightarrow> s | None \<Rightarrow> 500) \<and>
     (\<exists>d. re_Body rep = ErrorBody d \<and> ed_Code d = code_string (CodeOf (Some err)) \<and> ed_RequestID d = requestID \<and>
        (re_Status rep \<ge> 500 \<and> ed_Message d = ''internal error'' \<or>
         re_Status rep < 500 \<and> (\<exists>c m r. errors_As err = Some (c, m, r) \<and>
           (ed_Message d = hl_sprintf lib m \<or> hl_sprintf lib m = '''' \<and> ed_Message d = Error_text (hl_sprintf lib) err))))"
proof (cases "errors_As err")
  case None
  then have "CodeOf (Some err) = CodeInternal" by (simp add: CodeOf_def)
  then show ?thesis by (simp add: writeError_def Let_def statusByCode_def error_message_def)
next
  case (Some x)
  then obtain c m r where "errors_As err = Some (c, m, r)" by (cases x) auto
  then show ?thesis by (auto simp: writeError_def Let_def error_message_def)
qed


text \<open>Claim C24. A client of a stream receives the provider's answer with every original put back: when the stream
  ends cleanly and no write fails, the text of the data events is \<open>Restore\<close> of the whole answer, however
  the provider cut it into chunks.\<close>

theorem relayed_stream_is_restored:
  assumes "\<And>i. tr_write tr i = None" "snd (tr_last tr) = None"
    "bounded_placeholders (concat (map chunk_Body cs) @ chunk_Body (fst (tr_last tr)))"
    "so_Restorer sr = Some (NewRestorer repl)"
  shows "stream_text (relay_finish requestID (relay_chunks tr 0 (relay_start sr) cs)) =
           Restore (concat (map chunk_Body cs) @ chunk_Body (fst (tr_last tr))) repl"
  using relay_chunks_push_all[OF assms(1,2), of 0 "relay_start sr" cs requestID] assms(3,4)
    push_all_Restore[of "map chunk_Body cs @ [chunk_Body (fst (tr_last tr))]" repl]
  by (simp add: relay_start_def)

definition ex_chunk :: "string \<Rightarrow> chunk" where
  "ex_chunk s = \<lparr>chunk_Body = s, chunk_Usage = no_usage, chunk_Final = False\<rparr>"

definition ex_transport :: transport where
  "ex_transport = \<lparr>tr_write = (\<lambda>_. None), tr_since = (\<lambda>_. 1), tr_last = (ex_chunk '''', None)\<rparr>"

definition ex_stream_result :: stream_result where
  "ex_stream_result = zero_stream\<lparr>so_Restorer := Some (NewRestorer [(''[[EMAIL_1]]'', ''a@b.io'')])\<rparr>"

theorem relayed_stream_witness:
  "stream_text (relay_finish ''r'' (relay_chunks ex_transport 0 (relay_start ex_stream_result) [ex_chunk ''to [[EM'', ex_chunk ''AIL_1]]''])) =
   ''to a@b.io''"
proof -
  have "Restore ''to [[EMAIL_1]]'' [(''[[EMAIL_1]]'', ''a@b.io'')] = ''to a@b.io''" by code_simp
  then show ?thesis
    using relayed_stream_is_restored[of ex_transport "[ex_chunk ''to [[EM'', ex_chunk ''AIL_1]]'']" ex_stream_result
        "[(''[[EMAIL_1]]'', ''a@b.io'')]" "''r''"] bounded_if_short[of "''to [[EMAIL_1]]''"]
    by (simp add: ex_transport_def ex_chunk_def ex_stream_result_def MaxPlaceholderLen_def)
qed

text \<open>Restoring across events breaks the events. When a provider's JSON events cut a placeholder, the
  bytes held back from the first event are written with the second: the client receives a first event that
  stops in the middle of its JSON, a second that starts there, and the placeholder is not restored.\<close>

lemma relay_breaks_event_framing:
  "relay_finish ''r'' (relay_chunks ex_transport 0 (relay_start ex_stream_result)
      [ex_chunk ''{t:[[EMA}'', ex_chunk ''{t:IL_1]]}'']) =
   [SData ''{t:'', SData ''[[EMA}{t:IL_1]]}'', SDone]"
  by code_simp

text \<open>Claim C38. A stream that fails to start keeps its concurrency slot for ever: when \<open>HandleStream\<close> returns an error
  after admission, \<open>streamCompletion\<close> answers with the error and never calls \<open>Finish\<close>, so the key's count
  stays one higher than before the request.\<close>

theorem failed_stream_keeps_its_slot:
  assumes "\<And>now p. authenticate pl snap req now = Inr p \<Longrightarrow> slots_wf w p"
    "HandleStream pl snap req w = (sr, Some e, w1)" "so_releaseLimit sr = Some p" "0 < MaxConcurrent (p_Limits p)" "w_limiter w \<noteq> None"
  shows "slot_count (snd (streamCompletion lib tr pl True h snap req requestID w)) (p_KeyID p) = slot_count w (p_KeyID p) + 1"
proof -
  obtain sr' w2 where f: "Finish pl snap sr no_usage 0 None w1 = (sr', w2)" by fastforce
  show ?thesis
    using stream_slots[OF assms(1,2) f, where key = "p_KeyID p"] assms(2-5) by (simp add: streamCompletion_def)
qed

definition ex_failing :: "mem_store pipeline" where
  "ex_failing = ex_pipeline\<lparr>pl_stream := (\<lambda>n left c. Inl (err_New CodeUpstreamError ''down''))\<rparr>"

definition ex_lib :: http_lib where
  "ex_lib = \<lparr>hl_sprintf = (\<lambda>_. ''m''), hl_ParseDuration = (\<lambda>_. None), hl_ParseBody = (\<lambda>_. Inr (''chat'', True)),
     hl_SplitHostPort = (\<lambda>_. None), hl_ParseAddr = (\<lambda>_. None)\<rparr>"

definition ex_http_in :: http_in where
  "ex_http_in = \<lparr>ht_traceID = '''', ht_newID = ''r1'', ht_RemoteAddr = '''', ht_Authorization = ''Bearer gw_ac_s3cret'',
     ht_IdempotencyKey = '''', ht_Body = BodyRead ''a@b.co'', ht_receivedAt = 0, ht_deadline = None, ht_canFlush = True\<rparr>"

lemma ex_failing_run:
  "case HandleStream ex_failing ex_snapshot ex_request ex_worker of (sr, err, w1) \<Rightarrow>
     err \<noteq> None \<and> map_option p_KeyID (so_releaseLimit sr) = Some ''k1'' \<and>
     map_option (\<lambda>p. MaxConcurrent (p_Limits p)) (so_releaseLimit sr) = Some 2"
  by code_simp

theorem failed_stream_witness:
  "slot_count (snd (streamCompletion ex_lib ex_transport ex_failing True [] ex_snapshot ex_request ''r1'' ex_worker)) ''k1'' = 1"
proof -
  obtain sr err w1 where h: "HandleStream ex_failing ex_snapshot ex_request ex_worker = (sr, err, w1)" by (metis prod_cases3)
  have "err \<noteq> None \<and> map_option p_KeyID (so_releaseLimit sr) = Some ''k1'' \<and>
     map_option (\<lambda>p. MaxConcurrent (p_Limits p)) (so_releaseLimit sr) = Some 2"
    using ex_failing_run unfolding h prod.case by assumption
  then obtain e p where e: "err = Some e" and p: "so_releaseLimit sr = Some p" "p_KeyID p = ''k1''" "MaxConcurrent (p_Limits p) = 2"
    by auto
  have wf: "slots_wf ex_worker q" for q
    by (simp add: slots_wf_def slot_count_def ex_worker_def limiter_New_def)
  have "w_limiter ex_worker \<noteq> None" by (simp add: ex_worker_def)
  from failed_stream_keeps_its_slot[OF wf h[unfolded e] p(1) _ this, of ex_lib ex_transport "[]" "''r1''"] p(2,3)
  show ?thesis by (simp add: slot_count_def ex_worker_def limiter_New_def)
qed


lemma serve_leased_records:
  "case serve_leased lib tr pl ht ep snap w of (rep, w') \<Rightarrow>
     (case parse_request lib ht ep of
        Inl e \<Rightarrow> w' = w
      | Inr (req, stream) \<Rightarrow>
          (stream \<and> \<not> ht_canFlush ht \<and> w' = w) \<or>
          (\<exists>res n err evs. w_events w' = w_events w @ evs \<and> one_record req res n err evs))"
proof (cases "parse_request lib ht ep")
  case (Inl e)
  then show ?thesis by (simp add: serve_leased_def Let_def split: prod.split)
next
  case (Inr x)
  obtain req stream where x: "x = (req, stream)" by fastforce
  show ?thesis
  proof (cases stream)
    case False
    obtain res err w1 where h: "Handle pl snap req w = (res, err, w1)" by (metis prod_cases3)
    have "snd (serve_leased lib tr pl ht ep snap w) = w1"
      using Inr x False h by (cases err) (simp_all add: serve_leased_def Let_def)
    with Handle_recorded[OF h] Inr x show ?thesis by (auto simp: recorded_def split: prod.split)
  next
    case True
    obtain sr err w1 where h: "HandleStream pl snap req w = (sr, err, w1)" by (metis prod_cases3)
    obtain how st where r: "relay_chunks tr 0 (relay_start sr) (so_Chunks sr) = (how, st)" by fastforce
    obtain sr' w2 where f: "Finish pl snap sr (rl_usage st) (rl_ttfb st) (stream_error how) w1 = (sr', w2)" by fastforce
    note R = stream_recorded(1)[OF h f]
    have serve: "snd (serve_leased lib tr pl ht ep snap w) = (if ht_canFlush ht then (if err = None then w2 else w1) else w)"
      using Inr x True h f r by (cases err) (simp_all add: serve_leased_def streamCompletion_def Let_def)
    have "\<exists>res err'. recorded req res err' w (if err = None then w2 else w1)"
      using R HandleStream_facts(1)[OF h] by (cases err) (auto simp: stream_state_def)
    with serve Inr x True show ?thesis by (auto simp: recorded_def split: prod.split if_splits) blast+
  qed
qed

text \<open>Claim C4. Every request that reaches the pipeline is recorded exactly once, over either surface and on either
  path, streamed or buffered, failed or served; a request refused at the boundary, before its key is looked at,
  changes nothing.\<close>

theorem serve_records_once:
  "case serve_leased lib tr pl ht ep snap w of (rep, w') \<Rightarrow>
     (case parse_request lib ht ep of
        Inl e \<Rightarrow> w' = w
      | Inr (req, stream) \<Rightarrow>
          (stream \<and> \<not> ht_canFlush ht \<and> w' = w) \<or>
          (\<exists>res n err evs. w_events w' = w_events w @ evs \<and> one_record req res n err evs))"
  by (rule serve_leased_records)

end
