(* ===== verification/Providers.thy ===== *)
theory Providers
  imports Http_Text
begin

text \<open>
  The provider adapters of \<open>dataplane/internal/adapters\<close>: \<open>openaicompat\<close>, \<open>anthropic\<close> and \<open>echo\<close>.
  What a call sends, how a reply or a failure is classified, and the cursor over a server-sent event
  stream. The network is the argument \<open>exchange\<close>, one round trip of an HTTP client, and JSON is a
  record of functions; reading lines from a body is modelled as \<open>bufio.Scanner\<close> does it.
\<close>

section \<open>HTTP and JSON\<close>

record http_request =
  hq_Method :: string
  hq_URL :: string
  hq_Headers :: "(string, string) gomap"
  hq_Body :: string

text \<open>What \<open>io.ReadAll\<close> gets from a body: its bytes, and the error after them unless it ends cleanly.\<close>

record http_response =
  hs_StatusCode :: int
  hs_Status :: string
  hs_Body :: string
  hs_readErr :: "go_error option"

text \<open>A failed round trip, by what \<open>errors.Is\<close> says of it.\<close>

datatype http_failure = DeadlineExceeded go_error | Canceled go_error | Failed go_error

fun failure_error :: "http_failure \<Rightarrow> go_error" where
  "failure_error (DeadlineExceeded e) = e"
| "failure_error (Canceled e) = e"
| "failure_error (Failed e) = e"

type_synonym exchange = "http_request \<Rightarrow> http_failure + http_response"

record openai_usage =
  ou_PromptTokens :: int
  ou_CompletionTokens :: int
  ou_CachedTokens :: int

record anthropic_usage =
  au_InputTokens :: int
  au_OutputTokens :: int
  au_CacheReadInputTokens :: int
  au_CacheCreationInputTokens :: int

record stream_event =
  ev_Type :: string
  ev_Message :: "anthropic_usage option"
  ev_Usage :: "anthropic_usage option"
  ev_Error :: "(string \<times> string) option"

text \<open>
  \<open>encoding/json\<close> on the types the adapters read and write. An object decodes to a map, which is nil
  for the document \<open>null\<close>. The last component says which URLs \<open>http.NewRequest\<close> refuses.
\<close>

record provider_lib =
  pv_object :: "string \<Rightarrow> go_error + (string, string) gomap option"
  pv_quote :: "string \<Rightarrow> go_error + string"
  pv_encode :: "(string, string) gomap \<Rightarrow> go_error + string"
  pv_usage :: "string \<Rightarrow> go_error + openai_usage"
  pv_message :: "string \<Rightarrow> go_error + anthropic_usage"
  pv_event :: "string \<Rightarrow> go_error + stream_event"
  pv_badURL :: "string \<Rightarrow> go_error option"

definition TrimSuffix :: "string \<Rightarrow> string \<Rightarrow> string" where
  "TrimSuffix s suf = (if HasSuffix s suf then take (length s - length suf) s else s)"

definition wrap_err :: "code \<Rightarrow> string \<Rightarrow> go_error \<Rightarrow> go_error" where
  "wrap_err c m e = GwError c (Msg m []) False (Some e)"

definition wrap_retry :: "code \<Rightarrow> string \<Rightarrow> go_error \<Rightarrow> go_error" where
  "wrap_retry c m e = GwError c (Msg m []) True (Some e)"

section \<open>Lines of a body\<close>

definition maxSSELineBytes :: nat where "maxSSELineBytes = 1048576"

definition dropCR :: "string \<Rightarrow> string" where
  "dropCR line = (if line \<noteq> [] \<and> List.last line = CHR 0x0D then butlast line else line)"

fun scan_lines :: "nat \<Rightarrow> string \<Rightarrow> string \<Rightarrow> string list \<times> bool" where
  \<comment> \<open>The lines a scanner delivers from a body, and whether it stops at a line that fills its buffer. The
     second argument is the current line, reversed.\<close>
  "scan_lines m cur [] =
     (if cur = [] then ([], False) else if m \<le> length cur then ([], True) else ([dropCR (rev cur)], False))"
| "scan_lines m cur (c # cs) =
     (if m \<le> length cur then ([], True)
      else if c = CHR 0x0A then (case scan_lines m [] cs of (ls, e) \<Rightarrow> (dropCR (rev cur) # ls, e))
      else scan_lines m (c # cur) cs)"

section \<open>Calls\<close>

definition maxErrorBodyBytes :: nat where "maxErrorBodyBytes = 8192"

definition upstreamError :: "http_response \<Rightarrow> go_error" where
  "upstreamError resp =
     (let detail = TrimSpace (take maxErrorBodyBytes (hs_Body resp));
          err = err_Newf CodeUpstreamError ''provider returned %d: %s''
                  [AInt (hs_StatusCode resp), AStr (if detail = '''' then hs_Status resp else detail)]
      in if hs_StatusCode resp = 429 \<or> hs_StatusCode resp \<ge> 500 then AsRetryable err else err)"

definition send_failure :: "http_failure \<Rightarrow> go_error" where
  "send_failure f =
     (case f of
        DeadlineExceeded e \<Rightarrow> wrap_retry CodeUpstreamTimeout ''provider did not respond in time'' e
      | Canceled e \<Rightarrow> e
      | Failed e \<Rightarrow> wrap_retry CodeUpstreamError ''calling the provider'' e)"

definition post :: "provider_lib \<Rightarrow> exchange \<Rightarrow> string \<Rightarrow> (string, string) gomap \<Rightarrow> string \<Rightarrow> go_error + http_response" where
  "post lib exchange url headers body =
     (case pv_badURL lib url of
        Some e \<Rightarrow> Inl (wrap_err CodeInvalidRequest ''building the upstream request'' e)
      | None \<Rightarrow>
          (case exchange \<lparr>hq_Method = ''POST'', hq_URL = url, hq_Headers = headers, hq_Body = body\<rparr> of
             Inl f \<Rightarrow> Inl (send_failure f)
           | Inr resp \<Rightarrow> Inr resp))"

definition probe_status :: "provider_lib \<Rightarrow> exchange \<Rightarrow> string \<Rightarrow> (string, string) gomap \<Rightarrow> go_error option" where
  "probe_status lib exchange url headers =
     (case pv_badURL lib url of
        Some e \<Rightarrow> Some (wrap_err CodeInvalidRequest ''building the probe request'' e)
      | None \<Rightarrow>
          (case exchange \<lparr>hq_Method = ''GET'', hq_URL = url, hq_Headers = headers, hq_Body = ''''\<rparr> of
             Inl f \<Rightarrow> Some (wrap_retry CodeUnavailable ''probing the provider'' (failure_error f))
           | Inr resp \<Rightarrow>
               if hs_StatusCode resp < 400 then None
               else if hs_StatusCode resp = 404 \<or> hs_StatusCode resp = 405 then None
               else Some (err_Newf CodeUnavailable ''probe returned %d'' [AInt (hs_StatusCode resp)])))"

section \<open>Cursors\<close>

text \<open>What one call of \<open>Next\<close> answers; \<open>io.EOF\<close> is the end of a stream.\<close>

datatype next_item = Item chunk | EOF | Stop go_error

text \<open>
  Both adapters keep the same cursor: the lines not yet read, the error the scanner ends with, and the
  fields of their \<open>stream\<close> type.
\<close>

record cursor =
  cu_lines :: "string list"
  cu_err :: "go_error option"
  cu_closed :: bool
  cu_finished :: bool
  cu_usage :: token_usage

definition errTooLong :: go_error where
  "errTooLong = Foreign ''bufio.Scanner: token too long'' None"

definition newStream :: "http_response \<Rightarrow> cursor" where
  "newStream resp =
     (case scan_lines maxSSELineBytes [] (hs_Body resp) of (ls, long) \<Rightarrow>
       \<lparr>cu_lines = ls, cu_err = (if long then Some errTooLong else hs_readErr resp), cu_closed = False, cu_finished = False,
        cu_usage = no_usage\<rparr>)"

definition data_chunk :: "string \<Rightarrow> chunk" where
  "data_chunk payload = \<lparr>chunk_Body = payload, chunk_Usage = no_usage, chunk_Final = False\<rparr>"

definition scan_end :: "string \<Rightarrow> cursor \<Rightarrow> next_item" where
  \<comment> \<open>After the last line: a read error, or a stream cut short.\<close>
  "scan_end missing st =
     (case cu_err st of
        Some e \<Rightarrow> Stop (wrap_err CodeUpstreamError ''reading the provider stream'' e)
      | None \<Rightarrow> Stop (err_New CodeUpstreamError missing))"

definition cursor_Close :: "go_error option \<Rightarrow> cursor \<Rightarrow> go_error option \<times> cursor" where
  \<comment> \<open>The argument is what closing the body reports.\<close>
  "cursor_Close closeErr st =
     (if cu_closed st then (None, st)
      else (map_option (wrap_err CodeUpstreamError ''closing the provider stream'') closeErr, st\<lparr>cu_closed := True\<rparr>))"

section \<open>The OpenAI-compatible adapter\<close>

definition openai_body :: "provider_lib \<Rightarrow> provider_call \<Rightarrow> bool \<Rightarrow> (go_error + string) option" where
  \<comment> \<open>\<open>prepareBody\<close>. None is the panic of assigning to a nil map.\<close>
  "openai_body lib call stream =
     (case pv_object lib (call_Body call) of
        Inl e \<Rightarrow> Some (Inl (wrap_err CodeInvalidRequest ''the request body is not a JSON object'' e))
      | Inr decoded \<Rightarrow>
          (let k = dep_Key (call_Deployment call);
               served = (if IsAdapter k then AdapterID k else BaseModel k)
           in case pv_quote lib served of
                Inl e \<Rightarrow> Some (Inl (wrap_err CodeInternal ''encoding the model name'' e))
              | Inr model \<Rightarrow>
                  (case decoded of
                     None \<Rightarrow> None
                   | Some payload \<Rightarrow>
                       (let p1 = AList.update ''stream'' ''false'' (AList.update ''model'' model payload);
                            p2 = (if stream
                                  then AList.update ''stream_options'' ''{\"include_usage\":true}'' (AList.update ''stream'' ''true'' p1)
                                  else p1)
                        in case pv_encode lib p2 of
                             Inl e \<Rightarrow> Some (Inl (wrap_err CodeInternal ''re-encoding the request body'' e))
                           | Inr out \<Rightarrow> Some (Inr out)))))"

definition openai_headers :: "credential \<Rightarrow> bool \<Rightarrow> (string, string) gomap" where
  "openai_headers cred stream =
     [(''Content-Type'', ''application/json'')] @
     (if cred_Secret cred \<noteq> '''' then [(''Authorization'', ''Bearer '' @ cred_Secret cred)] else []) @
     (if stream then [(''Accept'', ''text/event-stream'')] else [])"

definition openai_send :: "provider_lib \<Rightarrow> exchange \<Rightarrow> provider_call \<Rightarrow> bool \<Rightarrow> (go_error + http_response) option" where
  "openai_send lib exchange call stream =
     (case openai_body lib call stream of
        None \<Rightarrow> None
      | Some (Inl e) \<Rightarrow> Some (Inl e)
      | Some (Inr body) \<Rightarrow>
          Some (post lib exchange (TrimSuffix (dep_Endpoint (call_Deployment call)) ''/'' @ ''/chat/completions'')
                  (openai_headers (call_Credential call) stream) body))"

definition usageFrom :: "provider_lib \<Rightarrow> string \<Rightarrow> token_usage" where
  "usageFrom lib body =
     (case pv_usage lib body of
        Inl _ \<Rightarrow> no_usage
      | Inr u \<Rightarrow> \<lparr>tu_Input = max (i64 (ou_PromptTokens u - ou_CachedTokens u)) 0, tu_CachedInput = ou_CachedTokens u,
                  tu_CacheWrite = 0, tu_Output = ou_CompletionTokens u\<rparr>)"

definition read_reply :: "(string \<Rightarrow> token_usage) \<Rightarrow> go_error + http_response \<Rightarrow> go_error + provider_response" where
  \<comment> \<open>The part of \<open>Invoke\<close> after \<open>send\<close>.\<close>
  "read_reply usage sent =
     (case sent of
        Inl e \<Rightarrow> Inl e
      | Inr resp \<Rightarrow>
          if hs_StatusCode resp \<ge> 400 then Inl (upstreamError resp)
          else (case hs_readErr resp of
              Some e \<Rightarrow> Inl (wrap_err CodeUpstreamError ''reading the provider response'' e)
            | None \<Rightarrow> Inr \<lparr>resp_StatusCode = hs_StatusCode resp, resp_Body = hs_Body resp, resp_Usage = usage (hs_Body resp)\<rparr>))"

definition start_stream :: "go_error + http_response \<Rightarrow> go_error + cursor" where
  "start_stream sent =
     (case sent of
        Inl e \<Rightarrow> Inl e
      | Inr resp \<Rightarrow> if hs_StatusCode resp \<ge> 400 then Inl (upstreamError resp) else Inr (newStream resp))"

definition openai_Invoke :: "provider_lib \<Rightarrow> exchange \<Rightarrow> provider_call \<Rightarrow> (go_error + provider_response) option" where
  "openai_Invoke lib exchange call = map_option (read_reply (usageFrom lib)) (openai_send lib exchange call False)"

definition openai_Stream :: "provider_lib \<Rightarrow> exchange \<Rightarrow> provider_call \<Rightarrow> (go_error + cursor) option" where
  "openai_Stream lib exchange call = map_option start_stream (openai_send lib exchange call True)"

definition openai_Probe :: "provider_lib \<Rightarrow> exchange \<Rightarrow> deployment \<Rightarrow> credential \<Rightarrow> go_error option" where
  "openai_Probe lib exchange d cred =
     probe_status lib exchange (TrimSuffix (dep_Endpoint d) ''/'' @ ''/models'')
       (if cred_Secret cred \<noteq> '''' then [(''Authorization'', ''Bearer '' @ cred_Secret cred)] else [])"

fun openai_scan :: "provider_lib \<Rightarrow> cursor \<Rightarrow> string list \<Rightarrow> next_item \<times> cursor" where
  "openai_scan lib st [] = (scan_end ''provider stream ended without a terminator'' st, st\<lparr>cu_lines := []\<rparr>)"
| "openai_scan lib st (l # ls) =
     (let line = TrimSpace l in
      if line = '''' \<or> HasPrefix line '':'' then openai_scan lib st ls
      else (case CutPrefix line ''data: '' of
          None \<Rightarrow> openai_scan lib st ls
        | Some payload \<Rightarrow>
            if payload = ''[DONE]''
            then (Item \<lparr>chunk_Body = '''', chunk_Usage = cu_usage st, chunk_Final = True\<rparr>, st\<lparr>cu_lines := ls, cu_finished := True\<rparr>)
            else (let u = usageFrom lib payload
                  in (Item (data_chunk payload),
                      st\<lparr>cu_lines := ls, cu_usage := (if tu_Input u \<noteq> 0 \<or> tu_Output u \<noteq> 0 then u else cu_usage st)\<rparr>))))"

definition openai_Next :: "provider_lib \<Rightarrow> go_error option \<Rightarrow> cursor \<Rightarrow> next_item \<times> cursor" where
  \<comment> \<open>The second argument is the context's error.\<close>
  "openai_Next lib ctxErr st =
     (case ctxErr of
        Some e \<Rightarrow> (Stop e, st)
      | None \<Rightarrow> if cu_closed st \<or> cu_finished st then (EOF, st) else openai_scan lib st (cu_lines st))"

section \<open>The Anthropic adapter\<close>

definition APIVersion :: string where "APIVersion = ''2023-06-01''"

definition defaultMaxTokens :: int where "defaultMaxTokens = 4096"

definition anthropic_body :: "provider_lib \<Rightarrow> provider_call \<Rightarrow> bool \<Rightarrow> (go_error + string) option" where
  "anthropic_body lib call stream =
     (case pv_object lib (call_Body call) of
        Inl e \<Rightarrow> Some (Inl (wrap_err CodeInvalidRequest ''the request body is not a JSON object'' e))
      | Inr decoded \<Rightarrow>
          (case pv_quote lib (BaseModel (dep_Key (call_Deployment call))) of
             Inl e \<Rightarrow> Some (Inl (wrap_err CodeInternal ''encoding the model name'' e))
           | Inr model \<Rightarrow>
               (case decoded of
                  None \<Rightarrow> None
                | Some payload \<Rightarrow>
                    (let p1 = AList.update ''stream'' ''false'' (AList.update ''model'' model payload);
                         p2 = (if stream then AList.update ''stream'' ''true'' p1 else p1);
                         p3 = (if map_of p2 ''max_tokens'' = None then AList.update ''max_tokens'' (FormatInt defaultMaxTokens) p2 else p2)
                     in case pv_encode lib p3 of
                          Inl e \<Rightarrow> Some (Inl (wrap_err CodeInternal ''re-encoding the request body'' e))
                        | Inr out \<Rightarrow> Some (Inr out)))))"

definition anthropic_headers :: "credential \<Rightarrow> bool \<Rightarrow> (string, string) gomap" where
  "anthropic_headers cred stream =
     [(''Content-Type'', ''application/json''), (''anthropic-version'', APIVersion)] @
     (if cred_Secret cred \<noteq> '''' then [(''x-api-key'', cred_Secret cred)] else []) @
     (if stream then [(''Accept'', ''text/event-stream'')] else [])"

definition anthropic_send :: "provider_lib \<Rightarrow> exchange \<Rightarrow> provider_call \<Rightarrow> bool \<Rightarrow> (go_error + http_response) option" where
  "anthropic_send lib exchange call stream =
     (case anthropic_body lib call stream of
        None \<Rightarrow> None
      | Some (Inl e) \<Rightarrow> Some (Inl e)
      | Some (Inr body) \<Rightarrow>
          Some (post lib exchange (TrimSuffix (dep_Endpoint (call_Deployment call)) ''/'' @ ''/messages'')
                  (anthropic_headers (call_Credential call) stream) body))"

definition normalized :: "anthropic_usage \<Rightarrow> token_usage" where
  "normalized u = \<lparr>tu_Input = au_InputTokens u, tu_CachedInput = au_CacheReadInputTokens u,
                   tu_CacheWrite = au_CacheCreationInputTokens u, tu_Output = au_OutputTokens u\<rparr>"

definition usageFromMessage :: "provider_lib \<Rightarrow> string \<Rightarrow> token_usage" where
  "usageFromMessage lib body = (case pv_message lib body of Inl _ \<Rightarrow> no_usage | Inr u \<Rightarrow> normalized u)"

definition anthropic_Invoke :: "provider_lib \<Rightarrow> exchange \<Rightarrow> provider_call \<Rightarrow> (go_error + provider_response) option" where
  "anthropic_Invoke lib exchange call = map_option (read_reply (usageFromMessage lib)) (anthropic_send lib exchange call False)"

definition anthropic_Stream :: "provider_lib \<Rightarrow> exchange \<Rightarrow> provider_call \<Rightarrow> (go_error + cursor) option" where
  "anthropic_Stream lib exchange call = map_option start_stream (anthropic_send lib exchange call True)"

definition anthropic_Probe :: "provider_lib \<Rightarrow> exchange \<Rightarrow> deployment \<Rightarrow> credential \<Rightarrow> go_error option" where
  "anthropic_Probe lib exchange d cred =
     probe_status lib exchange (TrimSuffix (dep_Endpoint d) ''/'' @ ''/models'')
       ((''anthropic-version'', APIVersion) # (if cred_Secret cred \<noteq> '''' then [(''x-api-key'', cred_Secret cred)] else []))"

definition merge_usage :: "token_usage \<Rightarrow> token_usage \<Rightarrow> token_usage" where
  \<comment> \<open>The case \<open>message_delta\<close>: a count is overwritten only when it is reported.\<close>
  "merge_usage u r =
     \<lparr>tu_Input = (if tu_Input r > 0 then tu_Input r else tu_Input u),
      tu_CachedInput = (if tu_CachedInput r > 0 then tu_CachedInput r else tu_CachedInput u),
      tu_CacheWrite = (if tu_CacheWrite r > 0 then tu_CacheWrite r else tu_CacheWrite u),
      tu_Output = (if tu_Output r > 0 then tu_Output r else tu_Output u)\<rparr>"

definition event_usage :: "stream_event \<Rightarrow> token_usage \<Rightarrow> token_usage" where
  "event_usage ev u =
     (if ev_Type ev = ''message_start'' then (case ev_Message ev of Some m \<Rightarrow> normalized m | None \<Rightarrow> u)
      else if ev_Type ev = ''message_delta'' then (case ev_Usage ev of Some d \<Rightarrow> merge_usage u (normalized d) | None \<Rightarrow> u)
      else u)"

definition event_error :: "stream_event \<Rightarrow> go_error" where
  "event_error ev =
     err_New CodeUpstreamError (case ev_Error ev of Some (t, m) \<Rightarrow> t @ '': '' @ m | None \<Rightarrow> ''provider reported a stream error'')"

definition anthropic_event :: "provider_lib \<Rightarrow> cursor \<Rightarrow> string \<Rightarrow> next_item \<times> cursor" where
  \<comment> \<open>The body of the loop for one payload; the lines after it are already in the cursor.\<close>
  "anthropic_event lib st payload =
     (case pv_event lib payload of
        Inl _ \<Rightarrow> (Item (data_chunk payload), st)
      | Inr ev \<Rightarrow>
          (let st1 = st\<lparr>cu_usage := event_usage ev (cu_usage st)\<rparr> in
           if ev_Type ev = ''error'' then (Stop (event_error ev), st1)
           else if ev_Type ev = ''message_stop''
           then (Item \<lparr>chunk_Body = payload, chunk_Usage = cu_usage st1, chunk_Final = True\<rparr>, st1\<lparr>cu_finished := True\<rparr>)
           else (Item (data_chunk payload), st1)))"

fun anthropic_scan :: "provider_lib \<Rightarrow> cursor \<Rightarrow> string list \<Rightarrow> next_item \<times> cursor" where
  "anthropic_scan lib st [] = (scan_end ''provider stream ended without message_stop'' st, st\<lparr>cu_lines := []\<rparr>)"
| "anthropic_scan lib st (l # ls) =
     (let line = TrimSpace l in
      if line = '''' \<or> HasPrefix line '':'' \<or> HasPrefix line ''event:'' then anthropic_scan lib st ls
      else (case CutPrefix line ''data: '' of
          None \<Rightarrow> anthropic_scan lib st ls
        | Some payload \<Rightarrow> anthropic_event lib (st\<lparr>cu_lines := ls\<rparr>) payload))"

definition anthropic_Next :: "provider_lib \<Rightarrow> go_error option \<Rightarrow> cursor \<Rightarrow> next_item \<times> cursor" where
  "anthropic_Next lib ctxErr st =
     (case ctxErr of
        Some e \<Rightarrow> (Stop e, st)
      | None \<Rightarrow> if cu_closed st \<or> cu_finished st then (EOF, st) else anthropic_scan lib st (cu_lines st))"

section \<open>The echo adapter\<close>

definition ChunkSize :: nat where "ChunkSize = 16"

definition estimateUsage :: "string \<Rightarrow> token_usage" where
  "estimateUsage body = (let tokens = go_div (i64 (int (length body) + 3)) 4
                         in \<lparr>tu_Input = tokens, tu_CachedInput = 0, tu_CacheWrite = 0, tu_Output = tokens\<rparr>)"

record echo_cursor =
  ec_body :: string
  ec_offset :: nat
  ec_usage :: token_usage
  ec_closed :: bool

definition echo_Probe :: "go_error option \<Rightarrow> go_error option" where
  "echo_Probe ctxErr = ctxErr"

definition echo_Invoke :: "go_error option \<Rightarrow> provider_call \<Rightarrow> go_error + provider_response" where
  "echo_Invoke ctxErr call =
     (case ctxErr of
        Some e \<Rightarrow> Inl e
      | None \<Rightarrow> Inr \<lparr>resp_StatusCode = 200, resp_Body = call_Body call, resp_Usage = estimateUsage (call_Body call)\<rparr>)"

definition echo_Stream :: "go_error option \<Rightarrow> provider_call \<Rightarrow> go_error + echo_cursor" where
  "echo_Stream ctxErr call =
     (case ctxErr of
        Some e \<Rightarrow> Inl e
      | None \<Rightarrow> Inr \<lparr>ec_body = call_Body call, ec_offset = 0, ec_usage = estimateUsage (call_Body call), ec_closed = False\<rparr>)"

definition echo_Next :: "go_error option \<Rightarrow> echo_cursor \<Rightarrow> next_item \<times> echo_cursor" where
  "echo_Next ctxErr st =
     (case ctxErr of
        Some e \<Rightarrow> (Stop e, st)
      | None \<Rightarrow>
          if ec_closed st \<or> length (ec_body st) \<le> ec_offset st then (EOF, st)
          else (let stop = min (ec_offset st + ChunkSize) (length (ec_body st));
                    final = (length (ec_body st) \<le> stop)
                in (Item \<lparr>chunk_Body = take (stop - ec_offset st) (drop (ec_offset st) (ec_body st)),
                          chunk_Usage = (if final then ec_usage st else no_usage), chunk_Final = final\<rparr>,
                    st\<lparr>ec_offset := stop\<rparr>)))"

definition echo_Close :: "echo_cursor \<Rightarrow> echo_cursor" where
  "echo_Close st = st\<lparr>ec_closed := True\<rparr>"

section \<open>The contract of a cursor\<close>

fun drain :: "('c \<Rightarrow> next_item \<times> 'c) \<Rightarrow> nat \<Rightarrow> 'c \<Rightarrow> chunk list \<times> next_item option" where
  \<comment> \<open>Calling \<open>Next\<close> until it answers something that is no chunk, at most the given number of times.\<close>
  "drain nxt 0 c = ([], None)"
| "drain nxt (Suc n) c =
     (case nxt c of
        (Item x, c') \<Rightarrow> (case drain nxt n c' of (xs, e) \<Rightarrow> (x # xs, e))
      | (e, c') \<Rightarrow> ([], Some e))"

text \<open>
  What a caller relies on: every chunk brings the end nearer, and the chunk marked final is followed by
  the end of the stream, which stays.
\<close>

locale chunk_stream =
  fixes nxt :: "'c \<Rightarrow> next_item \<times> 'c" and left :: "'c \<Rightarrow> nat"
  assumes progress: "nxt c = (Item x, c') \<Longrightarrow> left c' < left c"
    and final_ends: "nxt c = (Item x, c') \<Longrightarrow> chunk_Final x \<Longrightarrow> nxt c' = (EOF, c')"
begin

lemma drain_ends:
  assumes "left c < n"
  shows "\<exists>xs e. drain nxt n c = (xs, Some e) \<and> length xs \<le> left c \<and> (\<forall>x. e \<noteq> Item x)"
  using assms
proof (induction n arbitrary: c)
  case (Suc n)
  obtain a c' where s: "nxt c = (a, c')" by fastforce
  show ?case
  proof (cases a)
    case (Item x)
    have "left c' < left c" using progress s Item by blast
    with Suc.IH[of c'] Suc.prems s Item show ?thesis by fastforce
  qed (simp_all add: s)
qed simp

lemma drain_final_last:
  assumes "drain nxt n c = (xs, e)"
  shows "list_all (\<lambda>x. \<not> chunk_Final x) (butlast xs)"
  using assms
proof (induction n arbitrary: c xs e)
  case (Suc n)
  obtain a c' where s: "nxt c = (a, c')" by fastforce
  show ?case
  proof (cases a)
    case (Item x)
    obtain ys e' where d: "drain nxt n c' = (ys, e')" by fastforce
    have xs: "xs = x # ys" using Suc.prems s Item d by simp
    have "ys = []" if "chunk_Final x"
      using final_ends[of c x c'] s Item that d by (cases n) auto
    with Suc.IH[OF d] xs show ?thesis by auto
  qed (use Suc.prems s in simp_all)
qed simp

lemma drain_stops:
  assumes "left c < n"
  shows "\<exists>xs e. drain nxt n c = (xs, Some e) \<and> (e = EOF \<or> (\<exists>err. e = Stop err)) \<and> list_all (\<lambda>x. \<not> chunk_Final x) (butlast xs)"
proof -
  obtain xs e where d: "drain nxt n c = (xs, Some e)" "\<forall>x. e \<noteq> Item x" using drain_ends[OF assms] by blast
  then have "e = EOF \<or> (\<exists>err. e = Stop err)" by (cases e) auto
  with d drain_final_last[OF d(1)] show ?thesis by blast
qed

end

definition lines_left :: "cursor \<Rightarrow> nat" where
  "lines_left st = (if cu_closed st \<or> cu_finished st then 0 else Suc (length (cu_lines st)))"

lemma openai_scan_Item:
  assumes "openai_scan lib st ls = (Item x, st')" "\<not> cu_closed st" "\<not> cu_finished st"
  shows "lines_left st' < Suc (length ls) \<and> (chunk_Final x \<longrightarrow> cu_finished st') \<and> cu_err st' = cu_err st"
  using assms
proof (induction ls)
  case Nil
  then show ?case by (auto simp: scan_end_def split: option.splits)
next
  case (Cons l ls)
  then show ?case
    by (auto simp: Let_def lines_left_def data_chunk_def split: if_splits option.splits)
qed

lemma anthropic_event_Item:
  assumes "anthropic_event lib st payload = (Item x, st')" "\<not> cu_closed st" "\<not> cu_finished st"
  shows "lines_left st' < Suc (Suc (length (cu_lines st))) \<and> (chunk_Final x \<longrightarrow> cu_finished st') \<and> cu_err st' = cu_err st"
  using assms by (auto simp: anthropic_event_def Let_def lines_left_def data_chunk_def split: sum.splits if_splits)

lemma anthropic_scan_Item:
  assumes "anthropic_scan lib st ls = (Item x, st')" "\<not> cu_closed st" "\<not> cu_finished st"
  shows "lines_left st' < Suc (length ls) \<and> (chunk_Final x \<longrightarrow> cu_finished st') \<and> cu_err st' = cu_err st"
  using assms
proof (induction ls)
  case Nil
  then show ?case by (auto simp: scan_end_def split: option.splits)
next
  case (Cons l ls)
  then show ?case
    by (auto simp: Let_def split: if_splits option.splits dest!: anthropic_event_Item)
qed

interpretation openai: chunk_stream "openai_Next lib None" lines_left for lib
proof
  show "lines_left c' < lines_left c" if "openai_Next lib None c = (Item x, c')" for c x c'
    using that openai_scan_Item[of lib c "cu_lines c" x c'] by (auto simp: openai_Next_def lines_left_def split: if_splits)
  show "openai_Next lib None c' = (EOF, c')" if "openai_Next lib None c = (Item x, c')" "chunk_Final x" for c x c'
    using that openai_scan_Item[of lib c "cu_lines c" x c'] by (auto simp: openai_Next_def split: if_splits)
qed

interpretation anthropic: chunk_stream "anthropic_Next lib None" lines_left for lib
proof
  show "lines_left c' < lines_left c" if "anthropic_Next lib None c = (Item x, c')" for c x c'
    using that anthropic_scan_Item[of lib c "cu_lines c" x c'] by (auto simp: anthropic_Next_def lines_left_def split: if_splits)
  show "anthropic_Next lib None c' = (EOF, c')" if "anthropic_Next lib None c = (Item x, c')" "chunk_Final x" for c x c'
    using that anthropic_scan_Item[of lib c "cu_lines c" x c'] by (auto simp: anthropic_Next_def split: if_splits)
qed

interpretation echo: chunk_stream "echo_Next None" "\<lambda>c. length (ec_body c) - ec_offset c"
proof
  show "length (ec_body c') - ec_offset c' < length (ec_body c) - ec_offset c" if "echo_Next None c = (Item x, c')" for c x c'
    using that by (auto simp: echo_Next_def Let_def ChunkSize_def split: if_splits)
  show "echo_Next None c' = (EOF, c')" if "echo_Next None c = (Item x, c')" "chunk_Final x" for c x c'
    using that by (auto simp: echo_Next_def Let_def split: if_splits)
qed

section \<open>What a cursor yields\<close>

definition payloads :: "(string \<Rightarrow> bool) \<Rightarrow> string list \<Rightarrow> string list" where
  \<comment> \<open>The payloads of the data lines, of those lines that are not framing.\<close>
  "payloads framing ls = concat (map (\<lambda>l. if framing (TrimSpace l) then []
     else (case CutPrefix (TrimSpace l) ''data: '' of None \<Rightarrow> [] | Some p \<Rightarrow> [p])) ls)"

definition openai_framing :: "string \<Rightarrow> bool" where
  "openai_framing line = (line = '''' \<or> HasPrefix line '':'')"

definition openai_usage_after :: "provider_lib \<Rightarrow> token_usage \<Rightarrow> string list \<Rightarrow> token_usage" where
  \<comment> \<open>The last usage reported.\<close>
  "openai_usage_after lib u ps = foldl (\<lambda>u p. let v = usageFrom lib p in if tu_Input v \<noteq> 0 \<or> tu_Output v \<noteq> 0 then v else u) u ps"

lemma payloads_simps [simp]:
  "payloads f [] = []"
  "payloads f (l # ls) = (if f (TrimSpace l) then payloads f ls
     else (case CutPrefix (TrimSpace l) ''data: '' of None \<Rightarrow> payloads f ls | Some p \<Rightarrow> p # payloads f ls))"
  by (auto simp: payloads_def split: option.split)

lemma openai_scan_Cons:
  "openai_scan lib st (l # ls) =
     (if openai_framing (TrimSpace l) then openai_scan lib st ls
      else (case CutPrefix (TrimSpace l) ''data: '' of
          None \<Rightarrow> openai_scan lib st ls
        | Some p \<Rightarrow>
            if p = ''[DONE]''
            then (Item \<lparr>chunk_Body = '''', chunk_Usage = cu_usage st, chunk_Final = True\<rparr>, st\<lparr>cu_lines := ls, cu_finished := True\<rparr>)
            else (Item (data_chunk p), st\<lparr>cu_lines := ls, cu_usage := openai_usage_after lib (cu_usage st) [p]\<rparr>)))"
  by (auto simp: Let_def openai_framing_def openai_usage_after_def split: option.split)

lemma openai_scan_payload:
  assumes "payloads openai_framing ls = p # ps"
  shows "\<exists>rest. payloads openai_framing rest = ps \<and> length rest < length ls \<and>
     openai_scan lib st ls =
       (if p = ''[DONE]''
        then (Item \<lparr>chunk_Body = '''', chunk_Usage = cu_usage st, chunk_Final = True\<rparr>, st\<lparr>cu_lines := rest, cu_finished := True\<rparr>)
        else (Item (data_chunk p), st\<lparr>cu_lines := rest, cu_usage := openai_usage_after lib (cu_usage st) [p]\<rparr>))"
  using assms
proof (induction ls)
  case (Cons l ls)
  show ?case
  proof (cases "openai_framing (TrimSpace l) \<or> CutPrefix (TrimSpace l) ''data: '' = None")
    case True
    then have "payloads openai_framing ls = p # ps" using Cons.prems by (auto split: if_splits)
    from Cons.IH[OF this] obtain rest where "payloads openai_framing rest = ps" "length rest < length ls"
      "openai_scan lib st ls =
       (if p = ''[DONE]''
        then (Item \<lparr>chunk_Body = '''', chunk_Usage = cu_usage st, chunk_Final = True\<rparr>, st\<lparr>cu_lines := rest, cu_finished := True\<rparr>)
        else (Item (data_chunk p), st\<lparr>cu_lines := rest, cu_usage := openai_usage_after lib (cu_usage st) [p]\<rparr>))"
      by blast
    with True show ?thesis by (intro exI[of _ rest]) (auto simp: openai_scan_Cons simp del: openai_scan.simps)
  next
    case False
    then show ?thesis using Cons.prems
      by (intro exI[of _ ls]) (auto simp: openai_scan_Cons simp del: openai_scan.simps)
  qed
qed simp

lemma openai_scan_none:
  "payloads openai_framing ls = [] \<Longrightarrow>
   openai_scan lib st ls = (scan_end ''provider stream ended without a terminator'' st, st\<lparr>cu_lines := []\<rparr>)"
  by (induction ls) (auto simp: openai_scan_Cons simp del: openai_scan.simps(2) split: if_splits option.splits)

lemma openai_drain:
  assumes "payloads openai_framing (cu_lines st) = ps" "\<not> cu_closed st" "\<not> cu_finished st" "length (cu_lines st) + 1 < n"
  shows "drain (openai_Next lib None) n st =
    (let sent = takeWhile (\<lambda>p. p \<noteq> ''[DONE]'') ps in
     if ''[DONE]'' \<in> set ps
     then (map data_chunk sent @ [\<lparr>chunk_Body = '''', chunk_Usage = openai_usage_after lib (cu_usage st) sent, chunk_Final = True\<rparr>], Some EOF)
     else (map data_chunk sent, Some (scan_end ''provider stream ended without a terminator'' st)))"
  using assms
proof (induction ps arbitrary: st n)
  case Nil
  obtain m where n: "n = Suc m" using Nil.prems(4) by (cases n) auto
  show ?case using Nil.prems(2,3) openai_scan_none[OF Nil.prems(1)]
    by (simp add: n openai_Next_def scan_end_def split: option.split)
next
  case (Cons p ps)
  obtain m where n: "n = Suc m" using Cons.prems(4) by (cases n) auto
  obtain rest where r: "payloads openai_framing rest = ps" "length rest < length (cu_lines st)"
    "openai_scan lib st (cu_lines st) =
       (if p = ''[DONE]''
        then (Item \<lparr>chunk_Body = '''', chunk_Usage = cu_usage st, chunk_Final = True\<rparr>, st\<lparr>cu_lines := rest, cu_finished := True\<rparr>)
        else (Item (data_chunk p), st\<lparr>cu_lines := rest, cu_usage := openai_usage_after lib (cu_usage st) [p]\<rparr>))"
    using openai_scan_payload[OF Cons.prems(1)] by blast
  show ?case
  proof (cases "p = ''[DONE]''")
    case True
    obtain k where "m = Suc k" using Cons.prems(4) n r(2) by (cases m) auto
    with True show ?thesis using Cons.prems(2,3) r(3) by (simp add: n openai_Next_def Let_def openai_usage_after_def)
  next
    case False
    let ?st = "st\<lparr>cu_lines := rest, cu_usage := openai_usage_after lib (cu_usage st) [p]\<rparr>"
    have "length (cu_lines ?st) + 1 < m" using Cons.prems(4) r(2) n by simp
    from Cons.IH[of ?st, OF _ _ _ this] False r Cons.prems(2,3) show ?thesis
      by (simp add: n openai_Next_def Let_def scan_end_def openai_usage_after_def)
  qed
qed

definition anthropic_framing :: "string \<Rightarrow> bool" where
  "anthropic_framing line = (line = '''' \<or> HasPrefix line '':'' \<or> HasPrefix line ''event:'')"

definition event_type :: "provider_lib \<Rightarrow> string \<Rightarrow> string" where
  "event_type lib p = (case pv_event lib p of Inl _ \<Rightarrow> '''' | Inr ev \<Rightarrow> ev_Type ev)"

definition ends_stream :: "provider_lib \<Rightarrow> string \<Rightarrow> bool" where
  "ends_stream lib p = (event_type lib p = ''error'' \<or> event_type lib p = ''message_stop'')"

definition anthropic_usage_after :: "provider_lib \<Rightarrow> token_usage \<Rightarrow> string list \<Rightarrow> token_usage" where
  "anthropic_usage_after lib u ps = foldl (\<lambda>u p. case pv_event lib p of Inl _ \<Rightarrow> u | Inr ev \<Rightarrow> event_usage ev u) u ps"

lemma anthropic_scan_Cons:
  "anthropic_scan lib st (l # ls) =
     (if anthropic_framing (TrimSpace l) then anthropic_scan lib st ls
      else (case CutPrefix (TrimSpace l) ''data: '' of
          None \<Rightarrow> anthropic_scan lib st ls
        | Some p \<Rightarrow> anthropic_event lib (st\<lparr>cu_lines := ls\<rparr>) p))"
  by (auto simp: Let_def anthropic_framing_def split: option.split)

lemma anthropic_scan_payload:
  assumes "payloads anthropic_framing ls = p # ps"
  shows "\<exists>rest. payloads anthropic_framing rest = ps \<and> length rest < length ls \<and>
     anthropic_scan lib st ls = anthropic_event lib (st\<lparr>cu_lines := rest\<rparr>) p"
  using assms
proof (induction ls)
  case (Cons l ls)
  show ?case
  proof (cases "anthropic_framing (TrimSpace l) \<or> CutPrefix (TrimSpace l) ''data: '' = None")
    case True
    then have "payloads anthropic_framing ls = p # ps" using Cons.prems by (auto split: if_splits)
    from Cons.IH[OF this] obtain rest where "payloads anthropic_framing rest = ps" "length rest < length ls"
      "anthropic_scan lib st ls = anthropic_event lib (st\<lparr>cu_lines := rest\<rparr>) p"
      by blast
    with True show ?thesis by (intro exI[of _ rest]) (auto simp: anthropic_scan_Cons simp del: anthropic_scan.simps)
  next
    case False
    then show ?thesis using Cons.prems by (intro exI[of _ ls]) (auto simp: anthropic_scan_Cons simp del: anthropic_scan.simps)
  qed
qed simp

lemma anthropic_scan_none:
  "payloads anthropic_framing ls = [] \<Longrightarrow>
   anthropic_scan lib st ls = (scan_end ''provider stream ended without message_stop'' st, st\<lparr>cu_lines := []\<rparr>)"
  by (induction ls) (auto simp: anthropic_scan_Cons simp del: anthropic_scan.simps(2) split: if_splits option.splits)

lemma event_usage_stop [simp]: "ev_Type ev = ''error'' \<or> ev_Type ev = ''message_stop'' \<Longrightarrow> event_usage ev u = u"
  by (auto simp: event_usage_def)

lemma anthropic_drain:
  assumes "payloads anthropic_framing (cu_lines st) = ps" "\<not> cu_closed st" "\<not> cu_finished st" "length (cu_lines st) + 1 < n"
  shows "drain (anthropic_Next lib None) n st =
    (let sent = takeWhile (\<lambda>p. \<not> ends_stream lib p) ps in
     case dropWhile (\<lambda>p. \<not> ends_stream lib p) ps of
       [] \<Rightarrow> (map data_chunk sent, Some (scan_end ''provider stream ended without message_stop'' st))
     | p # _ \<Rightarrow>
         if event_type lib p = ''message_stop''
         then (map data_chunk sent @ [\<lparr>chunk_Body = p, chunk_Usage = anthropic_usage_after lib (cu_usage st) sent, chunk_Final = True\<rparr>], Some EOF)
         else (map data_chunk sent, Some (Stop (event_error (projr (pv_event lib p))))))"
  using assms
proof (induction ps arbitrary: st n)
  case Nil
  obtain m where n: "n = Suc m" using Nil.prems(4) by (cases n) auto
  show ?case using Nil.prems(2,3) anthropic_scan_none[OF Nil.prems(1)]
    by (simp add: n anthropic_Next_def scan_end_def split: option.split)
next
  case (Cons p ps)
  obtain m where n: "n = Suc m" using Cons.prems(4) by (cases n) auto
  obtain rest where r: "payloads anthropic_framing rest = ps" "length rest < length (cu_lines st)"
    "anthropic_scan lib st (cu_lines st) = anthropic_event lib (st\<lparr>cu_lines := rest\<rparr>) p"
    using anthropic_scan_payload[OF Cons.prems(1)] by blast
  show ?case
  proof (cases "ends_stream lib p")
    case True
    obtain k where "m = Suc k" using Cons.prems(4) n r(2) by (cases m) auto
    with True show ?thesis using Cons.prems(2,3) r(3)
      by (auto simp: n anthropic_Next_def Let_def anthropic_usage_after_def anthropic_event_def ends_stream_def event_type_def
          split: sum.splits)
  next
    case False
    let ?st = "st\<lparr>cu_lines := rest, cu_usage := anthropic_usage_after lib (cu_usage st) [p]\<rparr>"
    have e: "anthropic_event lib (st\<lparr>cu_lines := rest\<rparr>) p = (Item (data_chunk p), ?st)"
      using False by (auto simp: anthropic_event_def ends_stream_def event_type_def anthropic_usage_after_def Let_def split: sum.splits)
    have "length (cu_lines ?st) + 1 < m" using Cons.prems(4) r(2) n by simp
    have sc: "scan_end m ?st = scan_end m st" for m by (simp add: scan_end_def)
    have open_st: "payloads anthropic_framing (cu_lines ?st) = ps" "\<not> cu_closed ?st" "\<not> cu_finished ?st"
      using r(1) Cons.prems(2,3) by simp_all
    have rec: "drain (anthropic_Next lib None) m ?st =
      (let sent = takeWhile (\<lambda>p. \<not> ends_stream lib p) ps in
       case dropWhile (\<lambda>p. \<not> ends_stream lib p) ps of
         [] \<Rightarrow> (map data_chunk sent, Some (scan_end ''provider stream ended without message_stop'' st))
       | p # _ \<Rightarrow>
           if event_type lib p = ''message_stop''
           then (map data_chunk sent @ [\<lparr>chunk_Body = p, chunk_Usage = anthropic_usage_after lib (cu_usage ?st) sent, chunk_Final = True\<rparr>], Some EOF)
           else (map data_chunk sent, Some (Stop (event_error (projr (pv_event lib p))))))"
      using Cons.IH[OF open_st \<open>length (cu_lines ?st) + 1 < m\<close>] unfolding sc by assumption
    have "anthropic_Next lib None st = (Item (data_chunk p), ?st)"
      using e r(3) Cons.prems(2,3) by (simp add: anthropic_Next_def)
    moreover have "anthropic_usage_after lib (anthropic_usage_after lib u [p]) qs = anthropic_usage_after lib u (p # qs)" for u qs
      by (simp add: anthropic_usage_after_def)
    ultimately show ?thesis using False
      by (cases "dropWhile (\<lambda>p. \<not> ends_stream lib p) ps") (simp_all add: n rec Let_def del: dropWhile_eq_Nil_conv)
  qed
qed

lemma echo_drain:
  assumes "\<not> ec_closed st" "ec_offset st \<le> length (ec_body st)" "length (ec_body st) - ec_offset st < n"
  shows "\<exists>xs. drain (echo_Next None) n st = (xs, Some EOF) \<and> concat (map chunk_Body xs) = drop (ec_offset st) (ec_body st) \<and>
     (xs \<noteq> [] \<longrightarrow> chunk_Final (List.last xs) \<and> chunk_Usage (List.last xs) = ec_usage st)"
  using assms
proof (induction n arbitrary: st)
  case (Suc n)
  show ?case
  proof (cases "length (ec_body st) \<le> ec_offset st")
    case True
    then show ?thesis using Suc.prems(1) by (simp add: echo_Next_def)
  next
    case False
    define stop where "stop = min (ec_offset st + ChunkSize) (length (ec_body st))"
    have stop: "ec_offset st < stop" "stop \<le> length (ec_body st)" using False by (auto simp: stop_def ChunkSize_def)
    let ?st = "st\<lparr>ec_offset := stop\<rparr>"
    have less: "length (ec_body st) - stop < n" using Suc.prems(3) stop by linarith
    obtain xs where xs: "drain (echo_Next None) n ?st = (xs, Some EOF)" "concat (map chunk_Body xs) = drop stop (ec_body st)"
      "xs \<noteq> [] \<longrightarrow> chunk_Final (List.last xs) \<and> chunk_Usage (List.last xs) = ec_usage st"
      using Suc.IH[of ?st] Suc.prems(1) stop less by auto
    let ?x = "\<lparr>chunk_Body = take (stop - ec_offset st) (drop (ec_offset st) (ec_body st)),
      chunk_Usage = (if length (ec_body st) \<le> stop then ec_usage st else no_usage), chunk_Final = (length (ec_body st) \<le> stop)\<rparr>"
    have s: "echo_Next None st = (Item ?x, ?st)"
      using Suc.prems(1) False by (simp add: echo_Next_def Let_def stop_def)
    have cat: "concat (map chunk_Body (?x # xs)) = drop (ec_offset st) (ec_body st)"
      using xs(2) stop append_take_drop_id[of "stop - ec_offset st" "drop (ec_offset st) (ec_body st)"] by simp
    have "stop < length (ec_body st)" if "xs \<noteq> []"
    proof -
      have "False" if "length (ec_body st) \<le> stop"
      proof -
        have "echo_Next None ?st = (EOF, ?st)" using that by (simp add: echo_Next_def)
        with xs(1) \<open>xs \<noteq> []\<close> show False by (cases n) auto
      qed
      then show ?thesis by force
    qed
    moreover have "length (ec_body st) \<le> stop" if "xs = []" using xs(2) that by simp
    ultimately show ?thesis using s xs(1,3) cat by (intro exI[of _ "?x # xs"]) auto
  qed
qed simp

section \<open>Properties\<close>


text \<open>Claim C26. An OpenAI-compatible stream is relayed whole or reported as cut: the caller of \<open>Next\<close> receives the payload of
  every data line before \<open>[DONE]\<close>, in order and unchanged; then, if \<open>[DONE]\<close> was sent, one final chunk with the last usage the
  provider reported and the end of the stream, and otherwise an error, never the end of the stream.\<close>

theorem openai_stream_complete_or_error:
  "case newStream resp of st \<Rightarrow>
   case payloads openai_framing (cu_lines st) of ps \<Rightarrow>
   case takeWhile (\<lambda>p. p \<noteq> ''[DONE]'') ps of sent \<Rightarrow>
     drain (openai_Next lib None) (length (cu_lines st) + 2) st =
       (if ''[DONE]'' \<in> set ps
        then (map data_chunk sent @ [\<lparr>chunk_Body = '''', chunk_Usage = openai_usage_after lib no_usage sent, chunk_Final = True\<rparr>], Some EOF)
        else (map data_chunk sent, Some (scan_end ''provider stream ended without a terminator'' st)))"
proof -
  have "\<not> cu_closed (newStream resp)" "\<not> cu_finished (newStream resp)" "cu_usage (newStream resp) = no_usage"
    by (simp_all add: newStream_def split: prod.split)
  note fresh = this
  show ?thesis
    by (rule openai_drain[OF refl fresh(1,2), of "length (cu_lines (newStream resp)) + 2" lib, unfolded fresh(3) Let_def]) simp
qed

text \<open>Claim C27. An Anthropic stream is relayed whole or reported as cut: every payload before the first \<open>error\<close> or
  \<open>message_stop\<close> event is relayed unchanged; only \<open>message_stop\<close> ends the stream cleanly, and the chunk that carries it has
  the usage accumulated over all the events before it.\<close>

theorem anthropic_stream_complete_or_error:
  "case newStream resp of st \<Rightarrow>
   case payloads anthropic_framing (cu_lines st) of ps \<Rightarrow>
   case takeWhile (\<lambda>p. \<not> ends_stream lib p) ps of sent \<Rightarrow>
     drain (anthropic_Next lib None) (length (cu_lines st) + 2) st =
       (case dropWhile (\<lambda>p. \<not> ends_stream lib p) ps of
          [] \<Rightarrow> (map data_chunk sent, Some (scan_end ''provider stream ended without message_stop'' st))
        | p # _ \<Rightarrow>
            if event_type lib p = ''message_stop''
            then (map data_chunk sent @ [\<lparr>chunk_Body = p, chunk_Usage = anthropic_usage_after lib no_usage sent, chunk_Final = True\<rparr>], Some EOF)
            else (map data_chunk sent, Some (Stop (event_error (projr (pv_event lib p))))))"
proof -
  have "\<not> cu_closed (newStream resp)" "\<not> cu_finished (newStream resp)" "cu_usage (newStream resp) = no_usage"
    by (simp_all add: newStream_def split: prod.split)
  note fresh = this
  show ?thesis
    by (rule anthropic_drain[OF refl fresh(1,2), of "length (cu_lines (newStream resp)) + 2" lib, unfolded fresh(3) Let_def]) simp
qed

text \<open>Claim C34. An adapter forwards a caller's body with every field it does not own: when the body is a JSON object, what is
  encoded and sent differs from it only in the model, the stream flag and the fields the wire format needs. The model is the
  one the deployment serves, its adapter where it has one; the Anthropic adapter sends the base model in any case. A body
  that is no object is refused, and the document \<open>null\<close> panics in both adapters.\<close>

theorem bodies_keep_every_other_field:
  "case pv_object lib (call_Body call) of
     Inl e \<Rightarrow> openai_body lib call stream = anthropic_body lib call stream \<and>
        openai_body lib call stream = Some (Inl (wrap_err CodeInvalidRequest ''the request body is not a JSON object'' e))
   | Inr None \<Rightarrow> (case pv_quote lib (BaseModel (dep_Key (call_Deployment call))) of
        Inl e \<Rightarrow> True | Inr _ \<Rightarrow> anthropic_body lib call stream = None)
   | Inr (Some m) \<Rightarrow>
       (case (pv_quote lib (if IsAdapter (dep_Key (call_Deployment call)) then AdapterID (dep_Key (call_Deployment call))
                 else BaseModel (dep_Key (call_Deployment call))), pv_quote lib (BaseModel (dep_Key (call_Deployment call)))) of
          (Inr served, Inr base) \<Rightarrow>
            (\<exists>m1 m2. openai_body lib call stream = Some (map_sum (wrap_err CodeInternal ''re-encoding the request body'') (\<lambda>x. x) (pv_encode lib m1)) \<and>
               anthropic_body lib call stream = Some (map_sum (wrap_err CodeInternal ''re-encoding the request body'') (\<lambda>x. x) (pv_encode lib m2)) \<and>
               map_of m1 = (\<lambda>k. if k = ''model'' then Some served else if k = ''stream'' then Some (if stream then ''true'' else ''false'')
                  else if k = ''stream_options'' \<and> stream then Some ''{\"include_usage\":true}'' else map_of m k) \<and>
               map_of m2 = (\<lambda>k. if k = ''model'' then Some base else if k = ''stream'' then Some (if stream then ''true'' else ''false'')
                  else if k = ''max_tokens'' \<and> map_of m k = None then Some (FormatInt defaultMaxTokens) else map_of m k))
        | _ \<Rightarrow> True)"
proof (cases "pv_object lib (call_Body call)")
  case (Inl e)
  then show ?thesis by (simp add: openai_body_def anthropic_body_def)
next
  case (Inr d)
  have enc: "(case pv_encode lib p of Inl e \<Rightarrow> Some (Inl (w e)) | Inr out \<Rightarrow> Some (Inr out)) = Some (map_sum w (\<lambda>x. x) (pv_encode lib p))"
    for p and w :: "go_error \<Rightarrow> go_error" by (cases "pv_encode lib p") simp_all
  show ?thesis
  proof (cases d)
    case None
    with Inr show ?thesis by (simp add: anthropic_body_def split: sum.split)
  next
    case (Some m)
    let ?k = "dep_Key (call_Deployment call)"
    show ?thesis
    proof (cases "pv_quote lib (if IsAdapter ?k then AdapterID ?k else BaseModel ?k)"; cases "pv_quote lib (BaseModel ?k)")
      fix served base
      assume q: "pv_quote lib (if IsAdapter ?k then AdapterID ?k else BaseModel ?k) = Inr served" "pv_quote lib (BaseModel ?k) = Inr base"
      let ?set = "\<lambda>v. AList.update ''stream'' ''false'' (AList.update ''model'' v m)"
      let ?m1 = "if stream then AList.update ''stream_options'' ''{\"include_usage\":true}'' (AList.update ''stream'' ''true'' (?set served)) else ?set served"
      let ?p2 = "if stream then AList.update ''stream'' ''true'' (?set base) else ?set base"
      let ?m2 = "if map_of ?p2 ''max_tokens'' = None then AList.update ''max_tokens'' (FormatInt defaultMaxTokens) ?p2 else ?p2"
      have o: "openai_body lib call stream = Some (map_sum (wrap_err CodeInternal ''re-encoding the request body'') (\<lambda>x. x) (pv_encode lib ?m1))"
        unfolding openai_body_def Let_def Inr Some sum.case option.case q enc ..
      have a: "anthropic_body lib call stream = Some (map_sum (wrap_err CodeInternal ''re-encoding the request body'') (\<lambda>x. x) (pv_encode lib ?m2))"
        unfolding anthropic_body_def Let_def Inr Some sum.case option.case q enc ..
      have "map_of ?m1 = (\<lambda>k. if k = ''model'' then Some served else if k = ''stream'' then Some (if stream then ''true'' else ''false'')
                  else if k = ''stream_options'' \<and> stream then Some ''{\"include_usage\":true}'' else map_of m k)"
        by (simp add: fun_eq_iff)
      moreover have "map_of ?m2 = (\<lambda>k. if k = ''model'' then Some base else if k = ''stream'' then Some (if stream then ''true'' else ''false'')
                  else if k = ''max_tokens'' \<and> map_of m k = None then Some (FormatInt defaultMaxTokens) else map_of m k)"
        by (simp add: fun_eq_iff)
      ultimately show ?thesis unfolding Inr Some sum.case option.case q prod.case using o a by blast
    qed (simp_all add: Inr Some)
  qed
qed


end
