(* ===== verification/Wasm.thy ===== *)
theory Wasm
  imports Guardrails "HOL-Library.Word"
begin

text \<open>
  Components that run inside the worker: the module store and the runtime of \<open>dataplane/internal/wasm\<close>, and the
  guardrail and registry of \<open>adapters/wasmguardrail\<close>. The WebAssembly engine is third-party code: a record of
  functions that compile bytes, start an instance, call an export and read or write linear memory. A failing call
  also says what the context reported at that moment. SHA-256, the file system and JSON are parameters.
\<close>

unbundle bit_operations_syntax

section \<open>The module store\<close>

definition is_hex :: "char \<Rightarrow> bool" where
  "is_hex c = (is_digit c \<or> (97 \<le> (of_char c :: nat) \<and> (of_char c :: nat) \<le> 102) \<or>
               (65 \<le> (of_char c :: nat) \<and> (of_char c :: nat) \<le> 70))"

definition parseDigest :: "string \<Rightarrow> go_error + string" where
  "parseDigest digest =
     (case Cut digest (CHR '':'') of (algorithm, hexDigest, found) \<Rightarrow>
       if \<not> found \<or> algorithm \<noteq> ''sha256'' \<or> length hexDigest \<noteq> 64
       then Inl (err_Newf CodeInvalidRequest ''module reference %q is not a sha256 digest'' [AStr digest])
       else if \<not> list_all is_hex hexDigest
       then Inl (err_Newf CodeInvalidRequest ''module reference %q is not hexadecimal'' [AStr digest])
       else Inr hexDigest)"

type_synonym file_reader = "string \<Rightarrow> go_error + string"

definition Load :: "(string \<Rightarrow> string) \<Rightarrow> file_reader \<Rightarrow> string \<Rightarrow> go_error + string" where
  \<comment> \<open>The second argument reads the file of a given name in the store's directory.\<close>
  "Load sha256 read digest =
     (case parseDigest digest of
        Inl e \<Rightarrow> Inl e
      | Inr expected \<Rightarrow>
          (case read (expected @ ''.wasm'') of
             Inl e \<Rightarrow> Inl (GwError CodeUnavailable (Msg ''reading module %s'' [AStr digest]) False (Some e))
           | Inr bytes \<Rightarrow>
               if hex_encode (sha256 bytes) \<noteq> expected
               then Inl (err_Newf CodeInvalidRequest ''module at %s hashes to sha256:%s, not the admitted %s''
                           [AStr (expected @ ''.wasm''), AStr (hex_encode (sha256 bytes)), AStr digest])
               else Inr bytes))"

section \<open>The runtime\<close>

record wasm_limits =
  wl_MemoryPages :: "32 word"
  wl_MaxOutputBytes :: "32 word"
  wl_CallTimeout :: duration

definition withDefaults :: "wasm_limits \<Rightarrow> wasm_limits" where
  "withDefaults l =
     \<lparr>wl_MemoryPages = (if wl_MemoryPages l = 0 then 1024 else wl_MemoryPages l),
      wl_MaxOutputBytes = (if wl_MaxOutputBytes l = 0 then 8388608 else wl_MaxOutputBytes l),
      wl_CallTimeout = (if wl_CallTimeout l \<le> 0 then 5 * second else wl_CallTimeout l)\<rparr>"

text \<open>The engine. Instances live for one call, so the time a call is allowed is given when one starts.\<close>

record 'i wasm_engine =
  we_compile :: "string \<Rightarrow> go_error + string list"
  we_instantiate :: "duration \<Rightarrow> string \<Rightarrow> string list \<Rightarrow> (go_error \<times> go_error option) + 'i"
  we_call :: "'i \<Rightarrow> string \<Rightarrow> 64 word list \<Rightarrow> (go_error \<times> go_error option) + 64 word list \<times> 'i"
  we_read :: "'i \<Rightarrow> 32 word \<Rightarrow> 32 word \<Rightarrow> string option"
  we_write :: "'i \<Rightarrow> 32 word \<Rightarrow> string \<Rightarrow> 'i option"

text \<open>A compiled module; \<open>wm_ref\<close> is its identity, since the source compares pointers to modules.\<close>

record wasm_module =
  wm_ref :: nat
  wm_name :: string
  wm_bytes :: string
  wm_needsWASI :: bool
  wm_limits :: wasm_limits

definition Compile :: "'i wasm_engine \<Rightarrow> wasm_limits \<Rightarrow> nat \<Rightarrow> string \<Rightarrow> string \<Rightarrow> go_error + wasm_module" where
  "Compile eng limits ref name wasm =
     (if name = '''' then Inl (err_New CodeInvalidRequest ''a module needs a name'')
      else if wasm = '''' then Inl (err_New CodeInvalidRequest ''a module needs bytes'')
      else (case we_compile eng wasm of
          Inl e \<Rightarrow> Inl (GwError CodeInvalidRequest (Msg ''compiling %s'' [AStr name]) False (Some e))
        | Inr exports \<Rightarrow>
            (let missing = filter (\<lambda>f. f \<notin> set exports) [''alloc'', ''handle'']
             in if missing \<noteq> []
                then Inl (err_Newf CodeInvalidRequest ''module %s does not export %s, so it cannot implement the component ABI''
                            (AStr name # map AStr missing))
                else Inr \<lparr>wm_ref = ref, wm_name = name, wm_bytes = wasm, wm_needsWASI = (''_initialize'' \<in> set exports),
                          wm_limits = limits\<rparr>)))"

definition startFunctions :: "bool \<Rightarrow> string list" where
  "startFunctions needsWASI = (if needsWASI then [''_initialize''] else [])"

definition wrapGuestError :: "go_error \<times> go_error option \<Rightarrow> string \<Rightarrow> string \<Rightarrow> go_error" where
  "wrapGuestError failure name doing =
     (case snd failure of
        Some ctxErr \<Rightarrow>
          GwError CodeUpstreamTimeout (Msg ''module %s exceeded its deadline while %s it'' [AStr name, AStr doing]) False (Some ctxErr)
      | None \<Rightarrow> GwError CodeUnavailable (Msg ''%s module %s'' [AStr doing, AStr name]) False (Some (fst failure)))"

definition writeInput :: "'i wasm_engine \<Rightarrow> wasm_module \<Rightarrow> 'i \<Rightarrow> string \<Rightarrow> go_error + 32 word \<times> 'i" where
  "writeInput eng m inst input =
     (if input = '''' then Inr (0, inst)
      else (case we_call eng inst ''alloc'' [word_of_nat (length input)] of
          Inl failure \<Rightarrow> Inl (wrapGuestError failure (wm_name m) ''allocating in'')
        | Inr (results, inst1) \<Rightarrow>
            (case results of
               [r] \<Rightarrow>
                 (let pointer = ucast r in
                  case we_write eng inst1 pointer input of
                    None \<Rightarrow> Inl (err_Newf CodeInvalidRequest ''module %s allocated %d bytes at an address outside its memory''
                                  [AStr (wm_name m), AInt (int (length input))])
                  | Some inst2 \<Rightarrow> Inr (pointer, inst2))
             | _ \<Rightarrow> Inl (err_Newf CodeInternal ''module %s returned %d values from %s, want one''
                          [AStr (wm_name m), AInt (int (length results)), AStr ''alloc'']))))"

definition readOutput :: "'i wasm_engine \<Rightarrow> wasm_module \<Rightarrow> 'i \<Rightarrow> 64 word \<Rightarrow> go_error + string" where
  "readOutput eng m inst packed =
     (let pointer = ucast (drop_bit 32 packed) :: 32 word;
          len = ucast (packed AND 0xFFFFFFFF) :: 32 word
      in if len > wl_MaxOutputBytes (wm_limits m)
         then Inl (err_Newf CodeInvalidRequest ''module %s returned %d bytes, over the %d-byte limit''
                     [AStr (wm_name m), AInt (uint len), AInt (uint (wl_MaxOutputBytes (wm_limits m)))])
         else (case we_read eng inst pointer len of
             None \<Rightarrow> Inl (err_Newf CodeInvalidRequest ''module %s returned a response outside its memory'' [AStr (wm_name m)])
           | Some output \<Rightarrow> Inr output))"

definition Call :: "'i wasm_engine \<Rightarrow> wasm_module \<Rightarrow> duration option \<Rightarrow> string \<Rightarrow> go_error + string" where
  \<comment> \<open>The third argument is the time the caller's context leaves, None without a deadline.\<close>
  "Call eng m left input =
     (let limits = wm_limits m; allowed_for = (case left of Some d \<Rightarrow> d | None \<Rightarrow> wl_CallTimeout limits) in
      case we_instantiate eng allowed_for (wm_bytes m) (startFunctions (wm_needsWASI m)) of
        Inl failure \<Rightarrow>
          Inl (GwError CodeUnavailable
                 (Msg ''the module failed to start; %d pages (%d MiB) may not be enough for it''
                    [AInt (uint (wl_MemoryPages limits)), AInt (uint (wl_MemoryPages limits div 16))])
                 False (Some (wrapGuestError failure (wm_name m) ''instantiating'')))
      | Inr inst \<Rightarrow>
          (case writeInput eng m inst input of
             Inl e \<Rightarrow> Inl e
           | Inr (pointer, inst1) \<Rightarrow>
               (case we_call eng inst1 ''handle'' [ucast pointer, word_of_nat (length input)] of
                  Inl failure \<Rightarrow> Inl (wrapGuestError failure (wm_name m) ''calling'')
                | Inr (results, inst2) \<Rightarrow>
                    (case results of
                       [packed] \<Rightarrow> readOutput eng m inst2 packed
                     | _ \<Rightarrow> Inl (err_Newf CodeInternal ''module %s returned %d values from %s, want one''
                                  [AStr (wm_name m), AInt (int (length results)), AStr ''handle''])))))"

section \<open>A module as a guardrail\<close>

record inspect_request =
  iq_Phase :: string
  iq_Payload :: string
  iq_Class :: string
  iq_Model :: string

record inspect_response =
  ir_Verdict :: string
  ir_Reason :: string
  ir_Payload :: "string option"

record inspect_lib =
  il_encode :: "inspect_request \<Rightarrow> go_error + string"
  il_decode :: "string \<Rightarrow> go_error + inspect_response"

definition phaseName :: "phase \<Rightarrow> string" where
  "phaseName p = (if p = PhaseResponse then ''response'' else ''request'')"

definition inspect_request_of :: "guardrail_input \<Rightarrow> inspect_request" where
  "inspect_request_of i = \<lparr>iq_Phase = phaseName (gi_Phase i), iq_Payload = gi_Payload i, iq_Class = gi_Class i, iq_Model = m_Model (gi_Meta i)\<rparr>"

definition verdict_named :: "string \<Rightarrow> verdict option" where
  "verdict_named v = (if v = ''allow'' then Some VerdictAllow else if v = ''deny'' then Some VerdictDeny
                      else if v = ''mutate'' then Some VerdictMutate else None)"

definition wasm_toResult :: "string \<Rightarrow> inspect_response \<Rightarrow> go_error + guardrail_result" where
  "wasm_toResult name r =
     (case verdict_named (ir_Verdict r) of
        None \<Rightarrow> Inl (err_Newf CodeUnavailable ''module %s returned unknown verdict %q'' [AStr name, AStr (ir_Verdict r)])
      | Some v \<Rightarrow>
          if v = VerdictMutate \<and> ir_Payload r = None
          then Inl (err_Newf CodeUnavailable ''module %s returned mutate with no payload'' [AStr name])
          else if v \<noteq> VerdictMutate \<and> ir_Payload r \<noteq> None
          then Inl (err_Newf CodeUnavailable ''module %s returned a payload with a %s verdict'' [AStr name, AStr (ir_Verdict r)])
          else Inr \<lparr>gr_Verdict = v, gr_Reason = ir_Reason r, gr_Payload = (if v = VerdictMutate then ir_Payload r else None)\<rparr>)"

record wasm_guardrail =
  wg_module :: wasm_module
  wg_name :: string

definition wasm_guardrail_New :: "string \<Rightarrow> wasm_module option \<Rightarrow> go_error + wasm_guardrail" where
  "wasm_guardrail_New name md =
     (if name = '''' then Inl (err_New CodeInvalidRequest ''a WASM guardrail needs a name'')
      else (case md of
          None \<Rightarrow> Inl (err_New CodeInvalidRequest ''a WASM guardrail needs a module'')
        | Some m \<Rightarrow> Inr \<lparr>wg_module = m, wg_name = name\<rparr>))"

definition wasm_Inspect :: "'i wasm_engine \<Rightarrow> inspect_lib \<Rightarrow> wasm_guardrail \<Rightarrow> duration option \<Rightarrow> guardrail_input \<Rightarrow> go_error + guardrail_result" where
  "wasm_Inspect eng lib g left i =
     (case il_encode lib (inspect_request_of i) of
        Inl e \<Rightarrow> Inl (GwError CodeInternal (Msg ''encoding the guardrail request'' []) False (Some e))
      | Inr request \<Rightarrow>
          (case Call eng (wg_module g) left request of
             Inl e \<Rightarrow> Inl e
           | Inr output \<Rightarrow>
               (case il_decode lib output of
                  Inl e \<Rightarrow> Inl (GwError CodeUnavailable (Msg ''decoding the response from module %s'' [AStr (wg_name g)]) False (Some e))
                | Inr decoded \<Rightarrow> wasm_toResult (wg_name g) decoded)))"

section \<open>The registry\<close>

record wasm_registry =
  wr_byDigest :: "(string, wasm_module) gomap"
  wr_byName :: "(string, wasm_guardrail) gomap"

definition NewRegistry :: wasm_registry where
  "NewRegistry = \<lparr>wr_byDigest = [], wr_byName = []\<rparr>"

definition registry_Guardrail :: "wasm_registry \<Rightarrow> string \<Rightarrow> wasm_guardrail option" where
  "registry_Guardrail r name = map_of (wr_byName r) name"

text \<open>
  \<open>ensure\<close> reads the maps in one critical section, loads and compiles outside any, and installs in another.
  \<open>ensure_load\<close> is everything before the second section: Inr None when there is nothing to do.
\<close>

definition ensure_load ::
  "'i wasm_engine \<Rightarrow> wasm_limits \<Rightarrow> (string \<Rightarrow> string) \<Rightarrow> file_reader \<Rightarrow> nat \<Rightarrow> guardrail_binding \<Rightarrow> wasm_registry \<Rightarrow> go_error + wasm_module option" where
  "ensure_load eng limits sha256 read ref b r =
     (case map_of (wr_byDigest r) (g_Module b) of
        Some m \<Rightarrow>
          if map_option (\<lambda>g. wm_ref (wg_module g)) (map_of (wr_byName r) (g_Component b)) = Some (wm_ref m) then Inr None
          else (case wasm_guardrail_New (g_Component b) (Some m) of Inl e \<Rightarrow> Inl e | Inr _ \<Rightarrow> Inr (Some m))
      | None \<Rightarrow>
          (case Load sha256 read (g_Module b) of
             Inl e \<Rightarrow> Inl e
           | Inr wasmBytes \<Rightarrow>
               (case Compile eng limits ref (g_Component b) wasmBytes of
                  Inl e \<Rightarrow> Inl e
                | Inr m \<Rightarrow> (case wasm_guardrail_New (g_Component b) (Some m) of Inl e \<Rightarrow> Inl e | Inr _ \<Rightarrow> Inr (Some m)))))"

definition ensure_commit :: "guardrail_binding \<Rightarrow> wasm_module \<Rightarrow> wasm_registry \<Rightarrow> wasm_registry" where
  \<comment> \<open>The second critical section: a module compiled meanwhile for the same digest is kept.\<close>
  "ensure_commit b m r =
     (let kept = (case map_of (wr_byDigest r) (g_Module b) of Some k \<Rightarrow> k | None \<Rightarrow> m)
      in \<lparr>wr_byDigest = (if map_of (wr_byDigest r) (g_Module b) = None then AList.update (g_Module b) m (wr_byDigest r) else wr_byDigest r),
          wr_byName = AList.update (g_Component b) \<lparr>wg_module = kept, wg_name = g_Component b\<rparr> (wr_byName r)\<rparr>)"

definition ensure ::
  "'i wasm_engine \<Rightarrow> wasm_limits \<Rightarrow> (string \<Rightarrow> string) \<Rightarrow> file_reader \<Rightarrow> nat \<Rightarrow> guardrail_binding \<Rightarrow> wasm_registry \<Rightarrow> go_error option \<times> wasm_registry" where
  "ensure eng limits sha256 read ref b r =
     (case ensure_load eng limits sha256 read ref b r of
        Inl e \<Rightarrow> (Some e, r)
      | Inr None \<Rightarrow> (None, r)
      | Inr (Some m) \<Rightarrow> (None, ensure_commit b m r))"

fun Sync ::
  "'i wasm_engine \<Rightarrow> wasm_limits \<Rightarrow> (string \<Rightarrow> string) \<Rightarrow> file_reader \<Rightarrow> nat \<Rightarrow> guardrail_binding list \<Rightarrow> wasm_registry \<Rightarrow> wasm_registry" where
  "Sync eng limits sha256 read ref [] r = r"
| "Sync eng limits sha256 read ref (b # bs) r =
     Sync eng limits sha256 read (Suc ref) bs
       (if g_Execution b \<noteq> ''in_process'' then r else snd (ensure eng limits sha256 read ref b r))"

definition registry_Close :: "wasm_registry \<Rightarrow> wasm_registry" where
  "registry_Close r = NewRegistry"

section \<open>Laws\<close>

definition pack :: "32 word \<Rightarrow> 32 word \<Rightarrow> 64 word" where
  \<comment> \<open>How a guest answers: \<open>ptr<<32|len\<close>.\<close>
  "pack pointer len = push_bit 32 (ucast pointer) OR ucast len"

lemma pack_halves:
  "ucast (drop_bit 32 (pack p n)) = p" "ucast (pack p n AND 0xFFFFFFFF) = n"
proof -
  have m: "(0xFFFFFFFF :: 64 word) = mask 32" by (simp add: mask_eq_exp_minus_1)
  show "ucast (drop_bit 32 (pack p n)) = p"
    by (rule bit_word_eqI) (auto simp: pack_def bit_simps dest: bit_imp_le_length)
  show "ucast (pack p n AND 0xFFFFFFFF) = n"
    unfolding m by (rule bit_word_eqI) (auto simp: pack_def bit_simps)
qed

lemma unpack: "\<exists>p n. packed = pack p n"
proof -
  have "packed = pack (ucast (drop_bit 32 packed)) (ucast packed)"
    by (rule bit_word_eqI) (auto simp: pack_def bit_simps)
  then show ?thesis by blast
qed

lemma readOutput_pack:
  "readOutput eng m inst (pack p n) =
     (if n > wl_MaxOutputBytes (wm_limits m)
      then Inl (err_Newf CodeInvalidRequest ''module %s returned %d bytes, over the %d-byte limit''
                  [AStr (wm_name m), AInt (uint n), AInt (uint (wl_MaxOutputBytes (wm_limits m)))])
      else (case we_read eng inst p n of
          None \<Rightarrow> Inl (err_Newf CodeInvalidRequest ''module %s returned a response outside its memory'' [AStr (wm_name m)])
        | Some output \<Rightarrow> Inr output))"
  by (simp add: readOutput_def Let_def pack_halves)

lemma Call_Inr:
  assumes "Call eng m left input = Inr out"
  shows "\<exists>inst p n. n \<le> wl_MaxOutputBytes (wm_limits m) \<and> we_read eng inst p n = Some out"
proof -
  obtain inst packed where r: "readOutput eng m inst packed = Inr out"
    using assms by (auto simp: Call_def Let_def split: sum.splits prod.splits list.splits)
  obtain p n where "packed = pack p n" using unpack by blast
  with r show ?thesis by (auto simp: readOutput_pack not_less split: if_splits option.splits)
qed

lemma Load_Inr:
  assumes "Load sha256 read digest = Inr bytes"
  shows "digest = ''sha256:'' @ hex_encode (sha256 bytes)"
proof -
  obtain h where h: "Cut digest (CHR '':'') = (''sha256'', h, True)" "hex_encode (sha256 bytes) = h"
    using assms by (auto simp: Load_def parseDigest_def split: sum.splits if_splits prod.splits)
  from Cut_found[OF h(1)] h(2) show ?thesis by simp
qed

definition verified :: "(string \<Rightarrow> string) \<Rightarrow> string \<Rightarrow> wasm_module \<Rightarrow> bool" where
  "verified sha256 digest m = (digest = ''sha256:'' @ hex_encode (sha256 (wm_bytes m)))"

lemma Compile_bytes: "Compile eng limits ref name bytes = Inr m \<Longrightarrow> wm_bytes m = bytes \<and> wm_limits m = limits"
  by (auto simp: Compile_def Let_def split: if_splits sum.splits)

definition reg_inv :: "(string \<Rightarrow> string) \<Rightarrow> guardrail_binding list \<Rightarrow> wasm_registry \<Rightarrow> bool" where
  \<comment> \<open>The second argument holds the bindings some \<open>Sync\<close> was given.\<close>
  "reg_inv sha256 bound r =
     (list_all (\<lambda>(d, m). verified sha256 d m) (wr_byDigest r) \<and>
      list_all (\<lambda>(n, g). wg_name g = n \<and> list_ex (\<lambda>b. g_Component b = n \<and> verified sha256 (g_Module b) (wg_module g)) bound) (wr_byName r))"

lemma ensure_load_verified:
  assumes "reg_inv sha256 bound r" "ensure_load eng limits sha256 read ref b r = Inr (Some m)"
  shows "verified sha256 (g_Module b) m"
proof (cases "map_of (wr_byDigest r) (g_Module b)")
  case None
  with assms(2) obtain bytes where l: "Load sha256 read (g_Module b) = Inr bytes" "Compile eng limits ref (g_Component b) bytes = Inr m"
    by (auto simp: ensure_load_def split: sum.splits)
  with Load_Inr[OF l(1)] Compile_bytes[OF l(2)] show ?thesis by (simp add: verified_def)
next
  case (Some k)
  then have "k = m" using assms(2) by (auto simp: ensure_load_def split: if_splits sum.splits)
  with assms(1) map_of_in_set[OF Some] show ?thesis by (auto simp: reg_inv_def list_all_iff)
qed

lemma set_update_subset: "set (AList.update k v m) \<subseteq> insert (k, v) (set m)"
  by (induction m) auto

lemma in_set_update: "(k, v) \<in> set (AList.update k v m)"
  by (induction m) auto

lemma set_update_absent: "map_of m k = None \<Longrightarrow> set (AList.update k v m) = insert (k, v) (set m)"
  by (induction m) (auto split: if_splits)

lemma ensure_commit_inv:
  assumes "reg_inv sha256 bound r" "verified sha256 (g_Module b) m" "b \<in> set bound"
  shows "reg_inv sha256 bound (ensure_commit b m r)"
proof -
  let ?kept = "case map_of (wr_byDigest r) (g_Module b) of Some k \<Rightarrow> k | None \<Rightarrow> m"
  have kept: "verified sha256 (g_Module b) ?kept"
    using assms(1,2) by (auto simp: reg_inv_def list_all_iff split: option.split dest: map_of_in_set)
  have "list_all (\<lambda>(d, m). verified sha256 d m) (wr_byDigest (ensure_commit b m r))"
    using assms(1,2) set_update_subset[of "g_Module b" m "wr_byDigest r"]
    by (auto simp: reg_inv_def ensure_commit_def Let_def list_all_iff)
  moreover have "wg_name g = n \<and> (\<exists>b \<in> set bound. g_Component b = n \<and> verified sha256 (g_Module b) (wg_module g))"
    if "(n, g) \<in> set (wr_byName (ensure_commit b m r))" for n g
  proof -
    have "(n, g) = (g_Component b, \<lparr>wg_module = ?kept, wg_name = g_Component b\<rparr>) \<or> (n, g) \<in> set (wr_byName r)"
      using that set_update_subset[of "g_Component b" "\<lparr>wg_module = ?kept, wg_name = g_Component b\<rparr>" "wr_byName r"]
      by (auto simp: ensure_commit_def Let_def)
    with kept assms(1,3) show ?thesis by (auto simp: reg_inv_def list_all_iff list_ex_iff)
  qed
  ultimately show ?thesis by (auto simp: reg_inv_def list_all_iff list_ex_iff)
qed

lemma reg_inv_mono: "reg_inv sha256 bound r \<Longrightarrow> reg_inv sha256 (b # bound) r"
  by (auto simp: reg_inv_def list_all_iff list_ex_iff)

text \<open>
  Concurrent \<open>Sync\<close> calls: the state is the registry, the installations in flight and the bindings loaded so far.
  Each load sees the registry and the files of its moment.
\<close>

inductive reg_reach ::
  "'i wasm_engine \<Rightarrow> wasm_limits \<Rightarrow> (string \<Rightarrow> string) \<Rightarrow> wasm_registry \<Rightarrow> (guardrail_binding \<times> wasm_module) list \<Rightarrow> guardrail_binding list \<Rightarrow> bool"
  for eng limits sha256 where
  reg_new: "reg_reach eng limits sha256 NewRegistry [] []"
| reg_load: "reg_reach eng limits sha256 r ps bound \<Longrightarrow> ensure_load eng limits sha256 read ref b r = Inr (Some m) \<Longrightarrow>
    reg_reach eng limits sha256 r ((b, m) # ps) (b # bound)"
| reg_commit: "reg_reach eng limits sha256 r ps bound \<Longrightarrow> (b, m) \<in> set ps \<Longrightarrow>
    reg_reach eng limits sha256 (ensure_commit b m r) (remove1 (b, m) ps) bound"
| reg_close: "reg_reach eng limits sha256 r ps bound \<Longrightarrow> reg_reach eng limits sha256 (registry_Close r) ps bound"

lemma reg_reach_inv:
  "reg_reach eng limits sha256 r ps bound \<Longrightarrow>
   reg_inv sha256 bound r \<and> (\<forall>(b, m) \<in> set ps. b \<in> set bound \<and> verified sha256 (g_Module b) m)"
proof (induction rule: reg_reach.induct)
  case reg_new
  then show ?case by (simp add: NewRegistry_def reg_inv_def)
next
  case (reg_load r ps bound read ref b m)
  then show ?case using ensure_load_verified reg_inv_mono by fastforce
next
  case (reg_commit r ps bound b m)
  then show ?case using ensure_commit_inv by (fastforce dest: notin_set_remove1)
next
  case (reg_close r ps bound)
  then show ?case by (simp add: registry_Close_def NewRegistry_def reg_inv_def)
qed

lemma ensure_reach:
  assumes "reg_reach eng limits sha256 r [] bound"
  shows "\<exists>bound'. reg_reach eng limits sha256 (snd (ensure eng limits sha256 read ref b r)) [] bound' \<and> set bound' \<subseteq> insert b (set bound)"
proof (cases "ensure_load eng limits sha256 read ref b r")
  case (Inr x)
  show ?thesis
  proof (cases x)
    case None
    with assms Inr show ?thesis by (auto simp: ensure_def)
  next
    case (Some m)
    from reg_commit[OF reg_load[OF assms Inr[unfolded Some]], of b m] Inr Some show ?thesis
      by (intro exI[of _ "b # bound"]) (simp add: ensure_def)
  qed
qed (use assms in \<open>auto simp: ensure_def\<close>)

lemma Sync_reach:
  "reg_reach eng limits sha256 r [] bound \<Longrightarrow>
   \<exists>bound'. reg_reach eng limits sha256 (Sync eng limits sha256 read ref bs r) [] bound' \<and> set bound' \<subseteq> set bs \<union> set bound"
proof (induction bs arbitrary: ref r bound)
  case (Cons b bs)
  obtain bound1 where b1: "reg_reach eng limits sha256 (if g_Execution b \<noteq> ''in_process'' then r else snd (ensure eng limits sha256 read ref b r)) [] bound1"
    "set bound1 \<subseteq> insert b (set bound)"
    using Cons.prems ensure_reach[OF Cons.prems, of read ref b] by (cases "g_Execution b = ''in_process''") auto
  from Cons.IH[OF b1(1), of "Suc ref"] b1(2) show ?case by fastforce
qed auto

section \<open>Properties\<close>

text \<open>Claim C9. The worker runs admitted modules only: however concurrent \<open>Sync\<close> calls interleave and whatever the module
  directory holds at each moment, a component the registry serves runs bytes whose SHA-256 is the digest some binding of
  that very component named; it answers under the name it was bound by.\<close>

theorem registry_serves_admitted_modules:
  assumes "reg_reach eng limits sha256 r ps bound" "registry_Guardrail r name = Some g"
  shows "wg_name g = name \<and> (\<exists>b. b \<in> set bound \<and> g_Component b = name \<and>
           g_Module b = ''sha256:'' @ hex_encode (sha256 (wm_bytes (wg_module g))))"
proof -
  have "(name, g) \<in> set (wr_byName r)" using assms(2) by (simp add: registry_Guardrail_def map_of_in_set)
  with reg_reach_inv[OF assms(1)] show ?thesis
    by (fastforce simp: reg_inv_def list_all_iff list_ex_iff verified_def)
qed

text \<open>A module cannot make the worker read more than the limit: when the engine's bounded read returns as many
  bytes as it was asked for, what a call returns is at most \<open>MaxOutputBytes\<close> long, whatever 64-bit value the guest answers.\<close>

lemma Call_output_bounded:
  assumes "\<And>inst p n out. we_read eng inst p n = Some out \<Longrightarrow> length out = unat n"
  shows "case Call eng m left input of Inl e \<Rightarrow> True | Inr out \<Rightarrow> length out \<le> unat (wl_MaxOutputBytes (wm_limits m))"
proof (cases "Call eng m left input")
  case (Inr out)
  from Call_Inr[OF this] assms Inr show ?thesis by (auto simp: word_le_nat_alt)
qed simp

section \<open>At an instance\<close>

definition ex_engine :: "string wasm_engine" where
  \<comment> \<open>A guest whose memory is a fixed text, part of which it answers with.\<close>
  "ex_engine =
     \<lparr>we_compile = (\<lambda>_. Inr [''alloc'', ''handle'']), we_instantiate = (\<lambda>_ _ _. Inr ''hello world''),
      we_call = (\<lambda>i f args. Inr (if f = ''alloc'' then [0] else [pack 6 5], i)),
      we_read = (\<lambda>i p n. if unat p + unat n \<le> length i then Some (take (unat n) (drop (unat p) i)) else None),
      we_write = (\<lambda>i p s. if unat p + length s \<le> length i then Some (take (unat p) i @ s @ drop (unat p + length s) i) else None)\<rparr>"

definition ex_limits :: wasm_limits where
  "ex_limits = withDefaults \<lparr>wl_MemoryPages = 0, wl_MaxOutputBytes = 8, wl_CallTimeout = 0\<rparr>"

definition ex_module :: wasm_module where
  "ex_module = \<lparr>wm_ref = 0, wm_name = ''acme'', wm_bytes = ''code'', wm_needsWASI = False, wm_limits = ex_limits\<rparr>"

definition ex_sha :: "string \<Rightarrow> string" where
  "ex_sha s = replicate 32 (CHR 0x00)"

definition ex_wasm_binding :: guardrail_binding where
  "ex_wasm_binding =
     \<lparr>g_Component = ''acme'', g_Version = ''1'', g_ConfigRef = '''', g_Execution = ''in_process'', g_Module = ''sha256:'' @ replicate 64 (CHR ''0''),
      g_Budget = \<lparr>gb_Timeout = 0, gb_Mode = FailClosed, gb_Blocking = True, gb_Phases = []\<rparr>\<rparr>"

definition ex_synced :: wasm_registry where
  "ex_synced = Sync ex_engine ex_limits ex_sha (\<lambda>_. Inr ''code'') 0 [ex_wasm_binding] NewRegistry"

theorem registry_serves_admitted_modules_witness:
  "registry_Guardrail ex_synced ''acme'' = Some \<lparr>wg_module = ex_module, wg_name = ''acme''\<rparr> \<and>
   (\<exists>b :: guardrail_binding. g_Component b = ''acme'' \<and> g_Module b = ''sha256:'' @ hex_encode (ex_sha ''code''))"
proof -
  obtain bound where r: "reg_reach ex_engine ex_limits ex_sha ex_synced [] bound"
    using Sync_reach[OF reg_new] unfolding ex_synced_def by blast
  have g: "registry_Guardrail ex_synced ''acme'' = Some \<lparr>wg_module = ex_module, wg_name = ''acme''\<rparr>" by code_simp
  from registry_serves_admitted_modules[OF r g] g show ?thesis by (auto simp: ex_module_def)
qed


end
