(* ===== verification/Sidecars.thy ===== *)
theory Sidecars
  imports PII_Detect Providers Wasm
begin

text \<open>
  What inspects a payload outside the gateway's own detectors: the secret scanner (\<open>adapters/secretscan\<close>), the guardrail
  sidecar (\<open>adapters/guardrailsidecar\<close>) and the entity recogniser (\<open>adapters/nersidecar\<close>). A sidecar is reached by
  one HTTP round trip over its socket, the argument \<open>exchange\<close>; what it answers is not trusted.
\<close>

section \<open>The secret scanner\<close>

abbreviation re_str :: "string \<Rightarrow> re" where "re_str s \<equiv> re_seq (map re_lit s)"
abbreviation re_in :: "(char \<Rightarrow> bool) \<Rightarrow> re" where "re_in p \<equiv> RChar p"

definition is_alnum :: "char \<Rightarrow> bool" where "is_alnum c = (is_alpha c \<or> is_digit c)"
definition is_url64 :: "char \<Rightarrow> bool" where "is_url64 c = (is_alnum c \<or> c = CHR ''_'' \<or> c = CHR ''-'')"

definition gateway_key_re :: re where
  "gateway_key_re =
     re_seq [RBoundary, re_str ''gw_'', RRep (re_in is_alnum) 1 None, re_lit (CHR ''_''), RRep (re_in is_url64) 20 None, RBoundary]"

definition secret_patterns :: "(string \<times> re) list" where
  "secret_patterns =
     [(''aws-access-key'',
       re_seq [RBoundary, RAlt (re_str ''AKIA'') (re_str ''ASIA''), RRep (re_in (\<lambda>c. is_digit c \<or> is_upper c)) 16 (Some 16), RBoundary]),
      (''github-token'',
       re_seq [RBoundary, re_str ''gh'', re_in (\<lambda>c. c \<in> set ''pousr''), re_lit (CHR ''_''), RRep (re_in is_alnum) 36 None, RBoundary]),
      (''slack-token'',
       re_seq [RBoundary, re_str ''xox'', re_in (\<lambda>c. c \<in> set ''baprs''), re_lit (CHR ''-''),
               RRep (re_in (\<lambda>c. is_alnum c \<or> c = CHR ''-'')) 10 None, RBoundary]),
      (''google-api-key'', re_seq [RBoundary, re_str ''AIza'', RRep (re_in is_url64) 35 (Some 35), RBoundary]),
      (''private-key'',
       re_seq [re_str ''-----BEGIN '', ROpt (RAlt (re_str ''RSA '') (RAlt (re_str ''EC '') (RAlt (re_str ''OPENSSH '') (re_str ''PGP '')))),
               re_str ''PRIVATE KEY-----'']),
      (''jwt'',
       re_seq [RBoundary, re_str ''eyJ'', RRep (re_in is_url64) 10 None, re_str ''.eyJ'', RRep (re_in is_url64) 10 None, re_lit (CHR ''.''),
               RRep (re_in is_url64) 10 None, RBoundary]),
      (''gateway-key'', gateway_key_re)]"

definition re_Match :: "re \<Rightarrow> string \<Rightarrow> bool" where
  "re_Match r s = list_ex (\<lambda>i. re_ends r s i \<noteq> []) [0..<Suc (length s)]"

definition maxScanBytes :: nat where "maxScanBytes = 262144"

definition secret_Inspect :: "go_error option \<Rightarrow> guardrail_input \<Rightarrow> go_error + guardrail_result" where
  \<comment> \<open>The first argument is the context's error.\<close>
  "secret_Inspect ctxErr i =
     (case ctxErr of
        Some e \<Rightarrow> Inl e
      | None \<Rightarrow>
          (let payload = take maxScanBytes (gi_Payload i) in
           case find (\<lambda>(name, r). re_Match r payload) secret_patterns of
             Some (name, _) \<Rightarrow>
               Inr \<lparr>gr_Verdict = VerdictDeny, gr_Reason = ''payload contains a credential ('' @ name @ '')'', gr_Payload = None\<rparr>
           | None \<Rightarrow> Inr \<lparr>gr_Verdict = VerdictAllow, gr_Reason = '''', gr_Payload = None\<rparr>))"

section \<open>The guardrail sidecar\<close>

definition MaxResponseBytes :: nat where "MaxResponseBytes = 8388608"

definition sidecar_toResult :: "inspect_response \<Rightarrow> go_error + guardrail_result" where
  "sidecar_toResult r =
     (case verdict_named (ir_Verdict r) of
        None \<Rightarrow> Inl (err_Newf CodeUnavailable ''unknown verdict %q'' [AStr (ir_Verdict r)])
      | Some v \<Rightarrow>
          if v = VerdictMutate \<and> ir_Payload r = None
          then Inl (err_New CodeUnavailable ''the guardrail returned mutate with no payload'')
          else if v \<noteq> VerdictMutate \<and> ir_Payload r \<noteq> None
          then Inl (err_Newf CodeUnavailable ''the guardrail returned a payload with a %s verdict'' [AStr (ir_Verdict r)])
          else Inr \<lparr>gr_Verdict = v, gr_Reason = ir_Reason r, gr_Payload = (if v = VerdictMutate then ir_Payload r else None)\<rparr>)"

definition sidecar_Inspect :: "inspect_lib \<Rightarrow> exchange \<Rightarrow> guardrail_input \<Rightarrow> go_error + guardrail_result" where
  "sidecar_Inspect lib exchange i =
     (case il_encode lib (inspect_request_of i) of
        Inl e \<Rightarrow> Inl (wrap_err CodeInternal ''encoding the guardrail request'' e)
      | Inr body \<Rightarrow>
          (case exchange \<lparr>hq_Method = ''POST'', hq_URL = ''http://guardrail/v1/inspect'',
                          hq_Headers = [(''Content-Type'', ''application/json'')], hq_Body = body\<rparr> of
             Inl f \<Rightarrow> Inl (wrap_err CodeUnavailable ''calling the guardrail sidecar'' (failure_error f))
           | Inr resp \<Rightarrow>
               if hs_StatusCode resp \<noteq> 200
               then Inl (err_Newf CodeUnavailable ''the guardrail sidecar reported %d'' [AInt (hs_StatusCode resp)])
               else (case il_decode lib (take MaxResponseBytes (hs_Body resp)) of
                   Inl e \<Rightarrow> Inl (wrap_err CodeUnavailable ''decoding the guardrail response'' e)
                 | Inr decoded \<Rightarrow> sidecar_toResult decoded)))"

definition ping_status :: "string \<Rightarrow> string \<Rightarrow> string \<Rightarrow> exchange \<Rightarrow> go_error option" where
  "ping_status url failed reported exchange =
     (case exchange \<lparr>hq_Method = ''GET'', hq_URL = url, hq_Headers = [], hq_Body = ''''\<rparr> of
        Inl f \<Rightarrow> Some (wrap_err CodeUnavailable failed (failure_error f))
      | Inr resp \<Rightarrow> if hs_StatusCode resp \<noteq> 200 then Some (err_Newf CodeUnavailable reported [AInt (hs_StatusCode resp)]) else None)"

definition sidecar_Ping :: "exchange \<Rightarrow> go_error option" where
  "sidecar_Ping = ping_status ''http://guardrail/healthz'' ''the guardrail sidecar is not answering'' ''the guardrail sidecar reported %d''"

section \<open>The entity recogniser\<close>

record detected_entity =
  de_Kind :: string
  de_Start :: int
  de_End :: int
  de_Value :: string

definition toMatches :: "string \<Rightarrow> detected_entity list \<Rightarrow> pii_match list" where
  "toMatches payload entities =
     concat (map (\<lambda>e.
       if de_Start e < 0 \<or> de_End e > int (length payload) \<or> de_Start e \<ge> de_End e then []
       else if take (nat (de_End e - de_Start e)) (drop (nat (de_Start e)) payload) \<noteq> de_Value e then []
       else [\<lparr>mt_Kind = de_Kind e, mt_Start = nat (de_Start e), mt_End = nat (de_End e), mt_Value = de_Value e\<rparr>]) entities)"

record ner_lib =
  nl_encode :: "string \<Rightarrow> go_error + string"
  nl_decode :: "string \<Rightarrow> go_error + detected_entity list"

definition ner_Detect :: "ner_lib \<Rightarrow> exchange \<Rightarrow> string \<Rightarrow> go_error + pii_match list" where
  "ner_Detect lib exchange payload =
     (case nl_encode lib payload of
        Inl e \<Rightarrow> Inl (wrap_err CodeInternal ''encoding the detection request'' e)
      | Inr body \<Rightarrow>
          (case exchange \<lparr>hq_Method = ''POST'', hq_URL = ''http://pii-ner/v1/detect'',
                          hq_Headers = [(''Content-Type'', ''application/json'')], hq_Body = body\<rparr> of
             Inl f \<Rightarrow> Inl (wrap_err CodeUnavailable ''calling the NER sidecar'' (failure_error f))
           | Inr resp \<Rightarrow>
               if hs_StatusCode resp \<noteq> 200
               then Inl (err_Newf CodeUnavailable ''NER sidecar returned %d'' [AInt (hs_StatusCode resp)])
               else (case nl_decode lib (hs_Body resp) of
                   Inl e \<Rightarrow> Inl (wrap_err CodeUnavailable ''decoding the detection response'' e)
                 | Inr entities \<Rightarrow> Inr (toMatches payload entities))))"

definition ner_Ping :: "exchange \<Rightarrow> go_error option" where
  "ner_Ping = ping_status ''http://pii-ner/healthz'' ''reaching the NER sidecar'' ''NER sidecar health returned %d''"

section \<open>Laws\<close>

lemma rep_ends_run:
  assumes "list_all p (take n (drop i s))" "i + n \<le> length s" "m \<le> n" "n \<le> k"
  shows "i + n \<in> set (rep_ends (re_ends (RChar p) s) m k i)"
  using assms
proof (induction n arbitrary: i m k)
  case 0
  then show ?case by (cases k) auto
next
  case (Suc n)
  obtain k' where k: "k = Suc k'" using Suc.prems(4) by (cases k) auto
  have d: "drop i s = s ! i # drop (Suc i) s" using Suc.prems(2) by (simp add: Cons_nth_drop_Suc)
  have "p (s ! i)" "list_all p (take n (drop (Suc i) s))" using Suc.prems(1) by (simp_all add: d)
  then show ?case using Suc.IH[of "Suc i" "m - 1" k'] Suc.prems(2-4) by (simp add: k)
qed

lemma re_str_ends: "HasPrefix (drop i s) w \<Longrightarrow> w \<noteq> [] \<Longrightarrow> i + length w \<in> set (re_ends (re_str w) s i)"
proof (induction w arbitrary: i)
  case (Cons c w)
  have i: "i < length s" using Cons.prems(1) by (cases "i < length s") auto
  then have d: "drop i s = s ! i # drop (Suc i) s" by (simp add: Cons_nth_drop_Suc)
  have c: "s ! i = c" "HasPrefix (drop (Suc i) s) w" using Cons.prems(1) by (simp_all add: d)
  show ?case
  proof (cases w)
    case Nil
    then show ?thesis using i c by simp
  next
    case (Cons b w')
    then show ?thesis using Cons.IH[of "Suc i"] i c by simp
  qed
qed simp

lemma re_seq_step:
  "j \<in> set (re_ends r s i) \<Longrightarrow> k \<in> set (re_ends (re_seq (r' # rs)) s j) \<Longrightarrow> k \<in> set (re_ends (re_seq (r # r' # rs)) s i)"
  by auto

text \<open>A gateway key that stands alone in the part of a payload that is scanned is always found.\<close>

lemma gateway_keys_are_found:
  assumes s: "s = pre @ ''gw_'' @ p @ ''_'' @ secret @ suf"
    and p: "p \<noteq> []" "list_all is_alnum p"
    and secret: "20 \<le> length secret" "list_all is_url64 secret" "is_word (List.last secret)"
    and pre: "pre = [] \<or> \<not> is_word (List.last pre)"
    and suf: "suf = [] \<or> \<not> is_word (List.hd suf)"
  shows "re_Match (gateway_key_re) s"
proof -
  let ?i = "length pre" let ?a = "?i + 3" let ?b = "?a + length p" let ?c = "?b + 1" let ?d = "?c + length secret"
  have len: "length s = ?d + length suf" using s by simp
  have w1: "is_word (s ! ?i)" using s by (simp add: nth_append is_word_def)
  have b1: "at_boundary s ?i"
    using pre w1 len by (cases "pre = []") (auto simp: at_boundary_def s nth_append last_conv_nth)
  obtain body c where sec: "secret = body @ [c]" using secret(1) by (cases secret rule: rev_cases) auto
  have "s ! (?d - 1) = List.last secret"
    by (simp add: s sec nth_append)
  moreover have "?d < length s \<Longrightarrow> s ! ?d = List.hd suf" using len by (simp add: s nth_append hd_conv_nth)
  ultimately have b2: "at_boundary s ?d"
    using suf secret(1,3) len by (auto simp: at_boundary_def)
  have e2: "?a \<in> set (re_ends (re_str ''gw_'') s ?i)"
    using re_str_ends[of ?i s "''gw_''"] by (simp add: s)
  have t3: "take (length p) (drop ?a s) = p" "1 \<le> length p" using p(1) by (simp_all add: s Suc_le_eq)
  have "?a + length p \<in> set (rep_ends (re_ends (RChar is_alnum) s) 1 (max 1 (length s)) ?a)"
    by (rule rep_ends_run) (use t3 p(2) len in simp_all)
  then have e3: "?b \<in> set (re_ends (RRep (re_in is_alnum) 1 None) s ?a)" by (simp only: re_ends.simps option.case)
  have "s ! ?b = CHR ''_''" by (simp add: s nth_append)
  then have e4: "?c \<in> set (re_ends (re_lit (CHR ''_'')) s ?b)" using len by simp
  define front where "front = pre @ ''gw_'' @ p @ ''_''"
  have "s = front @ secret @ suf" "length front = ?c" by (simp_all add: s front_def)
  then have t5: "take (length secret) (drop ?c s) = secret" by (metis append_eq_conv_conj)
  have "?c + length secret \<in> set (rep_ends (re_ends (RChar is_url64) s) 20 (max 20 (length s)) ?c)"
    by (rule rep_ends_run) (use t5 secret(1,2) len in simp_all)
  then have e5: "?d \<in> set (re_ends (RRep (re_in is_url64) 20 None) s ?c)" by (simp only: re_ends.simps option.case)
  have "?d \<in> set (re_ends (re_seq [RBoundary]) s ?d)" using b2 by simp
  from re_seq_step[OF e5 this] have "?d \<in> set (re_ends (re_seq [RRep (re_in is_url64) 20 None, RBoundary]) s ?c)" .
  note c1 = re_seq_step[OF e3 re_seq_step[OF e4 this]]
  have "?i \<in> set (re_ends RBoundary s ?i)" using b1 by simp
  from re_seq_step[OF this re_seq_step[OF e2 c1]]
  have "?d \<in> set (re_ends (gateway_key_re) s ?i)" unfolding gateway_key_re_def .
  then have "re_ends (gateway_key_re) s ?i \<noteq> []" by (metis empty_iff empty_set)
  moreover have "?i < Suc (length s)" using len by simp
  ultimately show ?thesis unfolding re_Match_def list_ex_iff by fastforce
qed

lemma secret_Inspect_finds:
  assumes "re_Match gateway_key_re (take maxScanBytes (gi_Payload i))"
  shows "\<exists>r. secret_Inspect None i = Inr r \<and> gr_Verdict r = VerdictDeny"
proof -
  have "(''gateway-key'', gateway_key_re) \<in> set secret_patterns" by (simp add: secret_patterns_def)
  with assms have "find (\<lambda>(name, r). re_Match r (take maxScanBytes (gi_Payload i))) secret_patterns \<noteq> None"
    by (auto simp: find_None_iff)
  then show ?thesis by (auto simp: secret_Inspect_def Let_def)
qed

lemma secret_Inspect_reason:
  "secret_Inspect ctxErr i = Inr r \<Longrightarrow> gr_Verdict r = VerdictDeny \<Longrightarrow>
   \<exists>name \<in> set (map fst secret_patterns). gr_Reason r = ''payload contains a credential ('' @ name @ '')''"
proof -
  assume r: "secret_Inspect ctxErr i = Inr r" "gr_Verdict r = VerdictDeny"
  obtain name p where f: "find (\<lambda>(name, r). re_Match r (take maxScanBytes (gi_Payload i))) secret_patterns = Some (name, p)"
    "gr_Reason r = ''payload contains a credential ('' @ name @ '')''"
    using r by (auto simp: secret_Inspect_def Let_def split: option.splits)
  have "(name, p) \<in> set secret_patterns" using f(1) by (auto simp: find_Some_iff) (metis nth_mem)
  then show ?thesis using f(2) by force
qed

lemma to_result_wf:
  "sidecar_toResult d = Inr r \<Longrightarrow> (gr_Payload r \<noteq> None) = (gr_Verdict r = VerdictMutate)"
  "wasm_toResult name d = Inr r \<Longrightarrow> (gr_Payload r \<noteq> None) = (gr_Verdict r = VerdictMutate)"
  by (auto simp: sidecar_toResult_def wasm_toResult_def split: option.splits if_splits)

lemma toMatches_span_ok: "m \<in> set (toMatches payload es) \<Longrightarrow> span_ok payload m \<and> mt_Start m < mt_End m"
  by (fastforce simp: toMatches_def span_ok_def nat_diff_distrib split: if_splits)

section \<open>Properties\<close>

text \<open>Claim C32. Whatever an untrusted component answers, the gateway receives well-formed data or an error: a guardrail behind a
  socket or inside the worker yields a payload exactly with a mutation, so a chain never forwards an original believing it was
  rewritten, and every match taken from the entity recogniser is a non-empty span of the payload that holds the very text
  it reports.\<close>

theorem untrusted_answers_are_wellformed:
  "(case sidecar_Inspect lib exchange i of Inl e \<Rightarrow> True | Inr r \<Rightarrow> (gr_Payload r \<noteq> None) = (gr_Verdict r = VerdictMutate)) \<and>
   (case wasm_Inspect eng lib g left i of Inl e \<Rightarrow> True | Inr r \<Rightarrow> (gr_Payload r \<noteq> None) = (gr_Verdict r = VerdictMutate)) \<and>
   (case ner_Detect nlib exchange payload of Inl e \<Rightarrow> True
    | Inr ms \<Rightarrow> list_all (\<lambda>m. span_ok payload m \<and> mt_Start m < mt_End m) ms)"
proof (intro conjI)
  show "case sidecar_Inspect lib exchange i of Inl e \<Rightarrow> True | Inr r \<Rightarrow> (gr_Payload r \<noteq> None) = (gr_Verdict r = VerdictMutate)"
    using to_result_wf(1) unfolding sidecar_Inspect_def by (simp split: sum.split)
  show "case wasm_Inspect eng lib g left i of Inl e \<Rightarrow> True | Inr r \<Rightarrow> (gr_Payload r \<noteq> None) = (gr_Verdict r = VerdictMutate)"
    using to_result_wf(2) unfolding wasm_Inspect_def by (simp split: sum.split)
  show "case ner_Detect nlib exchange payload of Inl e \<Rightarrow> True | Inr ms \<Rightarrow> list_all (\<lambda>m. span_ok payload m \<and> mt_Start m < mt_End m) ms"
    using toMatches_span_ok unfolding ner_Detect_def by (simp add: list_all_iff split: sum.split)
qed


end
