(* ===== verification/Admission.thy ===== *)
theory Admission
  imports Sidecars
begin

text \<open>
  Admitting a component: the recorder and the guardrail suite of \<open>dataplane/internal/contracts\<close> and the runner of
  \<open>dataplane/internal/admission\<close>. The component under test is foreign code that may answer differently each time, so its
  answer depends on the number of the call; an answer says what was returned, what became of the caller's buffer, how long
  it took and whether the call panicked. Starting a sandbox and preparing its directory are outcomes given in the
  environment of a run; durations of cases are left out of the report.
\<close>

section \<open>Reports\<close>

record contract_case =
  cc_Name :: string
  cc_Failures :: "message list"
  cc_Logs :: "message list"

definition case_Passed :: "contract_case \<Rightarrow> bool" where
  "case_Passed c = (cc_Failures c = [])"

type_synonym report = "contract_case list"

definition report_Passed :: "report \<Rightarrow> bool" where
  "report_Passed r = (if r = [] then False else list_all case_Passed r)"

definition Summary :: "report \<Rightarrow> message" where
  "Summary r = (let failed = length (filter (\<lambda>c. \<not> case_Passed c) r)
                in Msg ''%d/%d cases passed'' [AInt (int (length r) - int failed), AInt (int (length r))])"

section \<open>The component under test\<close>

datatype call_context = Live | Cancelled | Deadline duration

record answer =
  an_result :: "go_error + guardrail_result option"
  an_buffer :: string
  an_elapsed :: duration
  an_panic :: "string option"

text \<open>\<open>cp_Name\<close> is the name of the n-th instance the factory builds.\<close>

record component =
  cp_Name :: "nat \<Rightarrow> string"
  cp_Inspect :: "nat \<Rightarrow> call_context \<Rightarrow> guardrail_input \<Rightarrow> answer"

record guardrail_target =
  tg_component :: component
  tg_Trigger :: "string option"
  tg_Benign :: string

definition suite_input :: "string \<Rightarrow> guardrail_input" where
  "suite_input payload =
     \<lparr>gi_Phase = PhaseRequest,
      gi_Meta = \<lparr>RequestID = ''contract-1'', m_Model = ''contract-model'', m_Endpoint = '''', m_Stream = False, m_PayloadBytes = 0,
        m_SourceIP = AddrNone, m_Region = '''', m_Priority = PriorityInteractive, m_IdempotencyKey = '''', m_ReceivedAt = 0, m_Deadline = 0\<rparr>,
      gi_Class = DataClassInternal, gi_Tier = TrustExternal, gi_Payload = payload\<rparr>"

text \<open>
  The body of a case gives what it records: failures and log lines. \<open>Fatal\<close> ends a case, so a body stops at its
  first failure; a panic inside a case is recovered and recorded.
\<close>

definition panicked :: "string \<Rightarrow> message" where
  "panicked v = Msg ''panicked: %v'' [AStr v]"

definition suite_inspect :: "component \<Rightarrow> nat \<Rightarrow> guardrail_input \<Rightarrow> message + guardrail_result" where
  "suite_inspect c n i =
     (let a = cp_Inspect c n Live i in
      case an_panic a of
        Some v \<Rightarrow> Inl (panicked v)
      | None \<Rightarrow>
          (case an_result a of
             Inl e \<Rightarrow> Inl (Msg ''Inspect: %v'' [])
           | Inr None \<Rightarrow> Inl (Msg ''returned no result and no error'' [])
           | Inr (Some r) \<Rightarrow> Inr r))"

definition checks :: "message + guardrail_result \<Rightarrow> (guardrail_result \<Rightarrow> message list) \<Rightarrow> message list" where
  "checks got f = (case got of Inl m \<Rightarrow> [m] | Inr r \<Rightarrow> f r)"

definition require :: "bool \<Rightarrow> string \<Rightarrow> message list" where
  "require ok m = (if ok then [] else [Msg m []])"

definition name_case :: "component \<Rightarrow> message list" where
  "name_case c =
     (if cp_Name c 0 = '''' then [Msg ''a guardrail with no name cannot be bound'' []]
      else require (cp_Name c 0 = cp_Name c 1) ''name is not stable: %q then %q'')"

definition benign_case :: "guardrail_target \<Rightarrow> nat \<Rightarrow> message list" where
  "benign_case t n =
     checks (suite_inspect (tg_component t) n (suite_input (tg_Benign t)))
       (\<lambda>r. require (gr_Verdict r = VerdictAllow) ''verdict = %v on a benign payload (%q), want allow'')"

definition allow_case :: "guardrail_target \<Rightarrow> nat \<Rightarrow> message list" where
  "allow_case t n =
     checks (suite_inspect (tg_component t) n (suite_input (tg_Benign t)))
       (\<lambda>r. require (\<not> (gr_Verdict r = VerdictAllow \<and> gr_Payload r \<noteq> None)) ''allow returned a payload of %d bytes; only mutate may'')"

definition deterministic_case :: "guardrail_target \<Rightarrow> nat \<Rightarrow> message list" where
  "deterministic_case t n =
     checks (suite_inspect (tg_component t) n (suite_input (tg_Benign t)))
       (\<lambda>first. checks (suite_inspect (tg_component t) (n + 1) (suite_input (tg_Benign t)))
          (\<lambda>second. require (gr_Verdict first = gr_Verdict second) ''same input gave %v then %v''))"

definition unmodified_case :: "guardrail_target \<Rightarrow> nat \<Rightarrow> message list" where
  "unmodified_case t n =
     checks (suite_inspect (tg_component t) n (suite_input (tg_Benign t)))
       (\<lambda>_. require (an_buffer (cp_Inspect (tg_component t) n Live (suite_input (tg_Benign t))) = tg_Benign t)
          ''the input buffer was modified in place: %q became %q'')"

definition trigger_case :: "guardrail_target \<Rightarrow> string \<Rightarrow> nat \<Rightarrow> message list" where
  "trigger_case t trigger n =
     checks (suite_inspect (tg_component t) n (suite_input trigger))
       (\<lambda>r. case gr_Verdict r of
          VerdictDeny \<Rightarrow> require (TrimSpace (gr_Reason r) \<noteq> '''') ''denied without a reason''
        | VerdictMutate \<Rightarrow>
            (case gr_Payload r of
               None \<Rightarrow> [Msg ''mutate returned no payload, so the chain would forward the original'' []]
             | Some p \<Rightarrow> require (p \<noteq> trigger) ''mutate returned the input unchanged'')
        | VerdictAllow \<Rightarrow> [Msg ''allowed the payload it declared it acts on: %q'' []])"

definition ctx_canceled :: go_error where
  "ctx_canceled = Foreign ''context canceled'' None"

definition cancelled_case :: "guardrail_target \<Rightarrow> nat \<Rightarrow> message list" where
  "cancelled_case t n =
     (let a = cp_Inspect (tg_component t) n Cancelled (suite_input (tg_Benign t)) in
      case an_panic a of
        Some v \<Rightarrow> [panicked v]
      | None \<Rightarrow>
          (case an_result a of
             Inr _ \<Rightarrow> []
           | Inl e \<Rightarrow> require (errors_Is e ctx_canceled \<or> CodeOf (Some e) = CodeUnavailable) ''err = %v (code %s), want a cancellation''))"

definition deadline_case :: "guardrail_target \<Rightarrow> nat \<Rightarrow> message list option" where
  \<comment> \<open>The call runs in a goroutine of its own, where a panic is not recovered: None is the end of the process.\<close>
  "deadline_case t n =
     (let a = cp_Inspect (tg_component t) n (Deadline (2 * second)) (suite_input (tg_Benign t)) in
      if an_panic a \<noteq> None \<and> an_elapsed a \<le> 5 * second then None
      else Some (require (an_elapsed a \<le> 5 * second) ''did not return within 5s on a 2s deadline''))"

definition empty_case :: "guardrail_target \<Rightarrow> nat \<Rightarrow> message list" where
  "empty_case t n =
     (let a = cp_Inspect (tg_component t) n Live (suite_input '''') in
      case an_panic a of
        Some v \<Rightarrow> [panicked v]
      | None \<Rightarrow>
          (case an_result a of
             Inl e \<Rightarrow> [Msg ''Inspect on an empty payload: %v'' []]
           | Inr r \<Rightarrow> require (r \<noteq> None) ''returned no result and no error''))"

definition RunGuardrailSuite :: "guardrail_target \<Rightarrow> report option" where
  "RunGuardrailSuite t =
     (let entry = (\<lambda>name failures. \<lparr>cc_Name = name, cc_Failures = failures, cc_Logs = []\<rparr>);
          acts = ''acts on a payload it is meant to act on'';
          acting = (case tg_Trigger t of
            None \<Rightarrow> (entry acts [])\<lparr>cc_Logs := [Msg ''no trigger payload supplied; this guardrail claims only to allow'' []]\<rparr>
          | Some trigger \<Rightarrow> entry acts (trigger_case t trigger 5));
          n = (if tg_Trigger t = None then 5 else 6)
      in case deadline_case t (n + 1) of
           None \<Rightarrow> None
         | Some deadline \<Rightarrow>
             Some [entry ''reports a stable non-empty name'' (name_case (tg_component t)),
                   entry ''allows a benign payload unchanged'' (benign_case t 0),
                   entry ''an allow verdict carries no payload'' (allow_case t 1),
                   entry ''is deterministic on the same input'' (deterministic_case t 2),
                   entry ''does not modify the payload it was given'' (unmodified_case t 4),
                   acting,
                   entry ''respects a cancelled context'' (cancelled_case t n),
                   entry ''returns within a short deadline'' deadline,
                   entry ''handles an empty payload without failing'' (empty_case t (n + 2))])"

section \<open>The runner\<close>

record manifest =
  mf_Name :: string
  mf_Port :: string
  mf_Digest :: string
  mf_Image :: string
  mf_Module :: string
  mf_Execution :: string

record admission_verdict =
  av_Suite :: string
  av_SuiteVersion :: string
  av_ManifestDigest :: string
  av_Passed :: bool
  av_Runner :: string
  av_Report :: "report + message"

record fixtures =
  fx_Trigger :: "string option"
  fx_Benign :: string

text \<open>A runner may have a sandbox, a module store, or both; a store is what \<open>Load\<close> needs.\<close>

record runner =
  rn_name :: string
  rn_sandbox :: bool
  rn_modules :: "file_reader option"

text \<open>What a run meets outside the package: the directory, the sandbox, the socket and the components behind it.\<close>

record 'i run_env =
  en_mkdir :: "go_error option"
  en_chmod :: "go_error option"
  en_start :: "string \<Rightarrow> go_error + string"
  en_ping :: "string \<Rightarrow> go_error option"
  en_sidecar :: "string \<Rightarrow> string \<Rightarrow> component"
  en_sha256 :: "string \<Rightarrow> string"
  en_runtime :: "go_error option"
  en_engine :: "'i wasm_engine"
  en_inprocess :: "wasm_guardrail \<Rightarrow> component"

definition NewRunner :: "string \<Rightarrow> bool \<Rightarrow> file_reader option \<Rightarrow> go_error + runner" where
  "NewRunner name sandbox modules =
     (if name = '''' then Inl (err_New CodeInvalidRequest ''a runner must be named, so an admission says what produced it'')
      else if \<not> sandbox \<and> modules = None
      then Inl (err_New CodeInvalidRequest ''a runner needs a sandbox, a module store, or both; with neither it can admit nothing'')
      else Inr \<lparr>rn_name = name, rn_sandbox = sandbox, rn_modules = modules\<rparr>)"

definition verdictFor :: "runner \<Rightarrow> manifest \<Rightarrow> bool \<Rightarrow> report + message \<Rightarrow> admission_verdict" where
  "verdictFor r m passed note =
     \<lparr>av_Suite = mf_Port m, av_SuiteVersion = ''1'', av_ManifestDigest = mf_Digest m, av_Passed = passed, av_Runner = rn_name r, av_Report = note\<rparr>"

definition verdictFrom :: "runner \<Rightarrow> manifest \<Rightarrow> report \<Rightarrow> admission_verdict" where
  "verdictFrom r m rep = verdictFor r m (report_Passed rep) (Inl rep)"

definition run_suite :: "runner \<Rightarrow> manifest \<Rightarrow> fixtures \<Rightarrow> component \<Rightarrow> (go_error + admission_verdict) option" where
  "run_suite r m fx c =
     map_option (\<lambda>rep. Inr (verdictFrom r m rep))
       (RunGuardrailSuite \<lparr>tg_component = c, tg_Trigger = fx_Trigger fx, tg_Benign = fx_Benign fx\<rparr>)"

definition runInProcess :: "'i run_env \<Rightarrow> runner \<Rightarrow> manifest \<Rightarrow> fixtures \<Rightarrow> (go_error + admission_verdict) option" where
  "runInProcess env r m fx =
     (case rn_modules r of
        None \<Rightarrow> Some (Inl (err_New CodeInvalidRequest ''this runner has no module store, so it cannot admit an in-process component''))
      | Some read \<Rightarrow>
          (case Load (en_sha256 env) read (mf_Module m) of
             Inl e \<Rightarrow> Some (Inl e)
           | Inr wasmBytes \<Rightarrow>
               (case en_runtime env of
                  Some e \<Rightarrow> Some (Inl e)
                | None \<Rightarrow>
                    (case Compile (en_engine env) (withDefaults \<lparr>wl_MemoryPages = 0, wl_MaxOutputBytes = 0, wl_CallTimeout = 0\<rparr>) 0
                            (mf_Name m) wasmBytes of
                       Inl e \<Rightarrow> Some (Inr (verdictFor r m False (Inr (Msg ''the module does not compile or does not implement the ABI: %v'' []))))
                     | Inr md \<Rightarrow>
                         (case wasm_guardrail_New (mf_Name m) (Some md) of
                            Inl e \<Rightarrow> Some (Inl e)
                          | Inr g \<Rightarrow> run_suite r m fx (en_inprocess env g))))))"

definition run_sidecar :: "'i run_env \<Rightarrow> runner \<Rightarrow> manifest \<Rightarrow> fixtures \<Rightarrow> (go_error + admission_verdict) option" where
  \<comment> \<open>\<open>Run\<close> from the creation of the socket directory on.\<close>
  "run_sidecar env r m fx =
     (case en_mkdir env of
        Some e \<Rightarrow> Some (Inl (wrap_err CodeInternal ''creating the socket directory'' e))
      | None \<Rightarrow>
          (case en_chmod env of
             Some e \<Rightarrow> Some (Inl (wrap_err CodeInternal ''preparing the socket directory'' e))
           | None \<Rightarrow>
               (case en_start env (mf_Image m) of
                  Inl e \<Rightarrow> Some (Inl e)
                | Inr socketPath \<Rightarrow>
                    if mf_Name m = '''' then Some (Inl (err_New CodeInvalidRequest ''a guardrail sidecar needs a name''))
                    else if socketPath = '''' then Some (Inl (err_New CodeInvalidRequest ''a guardrail sidecar needs a socket path''))
                    else (case en_ping env socketPath of
                        Some e \<Rightarrow>
                          Some (Inl (GwError CodeUnavailable (Msg ''the component bound %s but does not answer on it'' [AStr socketPath]) False (Some e)))
                      | None \<Rightarrow> run_suite r m fx (en_sidecar env (mf_Name m) socketPath)))))"

definition admission_Run :: "'i run_env \<Rightarrow> runner \<Rightarrow> manifest \<Rightarrow> fixtures \<Rightarrow> (go_error + admission_verdict) option" where
  "admission_Run env r m fx =
     (if mf_Digest m = ''''
      then Some (Inl (err_New CodeInvalidRequest ''a manifest digest is required; a verdict must say which bytes it examined''))
      else if mf_Port m \<noteq> ''guardrail''
      then Some (Inl (err_Newf CodeInvalidRequest ''no sandboxed suite for the %s port yet'' [AStr (mf_Port m)]))
      else if fx_Benign fx = ''''
      then Some (Inl (err_New CodeInvalidRequest ''a benign fixture is required; without it a guardrail that denies everything passes every assertion about denying''))
      else if mf_Execution m = ''in_process'' then runInProcess env r m fx
      else if mf_Execution m = ''sidecar'' \<or> mf_Execution m = ''''
      then (if \<not> rn_sandbox r
            then Some (Inl (err_New CodeInvalidRequest ''this runner has no sandbox, so it cannot admit a sidecar component''))
            else run_sidecar env r m fx)
      else Some (Inl (err_Newf CodeInvalidRequest ''this runner cannot execute a %s component'' [AStr (mf_Execution m)])))"

section \<open>Reporting to the control plane\<close>

definition codeFor :: "int \<Rightarrow> code" where
  "codeFor status = (if status < 500 then CodeInvalidRequest else CodeUnavailable)"

definition client_do :: "exchange \<Rightarrow> string \<Rightarrow> http_request \<Rightarrow> bool \<Rightarrow> (string \<Rightarrow> go_error + 'a) \<Rightarrow> go_error + 'a option" where
  \<comment> \<open>The token, the request as built so far, whether the caller wants the answer, and its decoder.\<close>
  "client_do exchange token req wanted decode =
     (let req1 = (if hq_Body req = '''' then req else req\<lparr>hq_Headers := hq_Headers req @ [(''Content-Type'', ''application/json'')]\<rparr>);
          req2 = (if token = '''' then req1 else req1\<lparr>hq_Headers := hq_Headers req1 @ [(''Authorization'', ''Bearer '' @ token)]\<rparr>)
      in case exchange req2 of
           Inl f \<Rightarrow> Inl (wrap_err CodeUnavailable ''calling the control plane'' (failure_error f))
         | Inr resp \<Rightarrow>
             if hs_StatusCode resp \<ge> 400
             then Inl (err_Newf (codeFor (hs_StatusCode resp)) ''the control plane reported %d: %s''
                         [AInt (hs_StatusCode resp), AStr (TrimSpace (take 4096 (hs_Body resp)))])
             else if \<not> wanted then Inr None
             else (case decode (take 1048576 (hs_Body resp)) of
                 Inl e \<Rightarrow> Inl (wrap_err CodeUnavailable ''decoding the control-plane response'' e)
               | Inr v \<Rightarrow> Inr (Some v)))"

section \<open>What a pass means\<close>

definition earned :: "component \<Rightarrow> fixtures \<Rightarrow> bool" where
  "earned c fx =
     (cp_Name c 0 \<noteq> '''' \<and> cp_Name c 1 = cp_Name c 0 \<and>
      (\<exists>r. suite_inspect c 0 (suite_input (fx_Benign fx)) = Inr r \<and> gr_Verdict r = VerdictAllow) \<and>
      an_buffer (cp_Inspect c 4 Live (suite_input (fx_Benign fx))) = fx_Benign fx \<and>
      (case fx_Trigger fx of
         None \<Rightarrow> True
       | Some trigger \<Rightarrow>
           (\<exists>r. suite_inspect c 5 (suite_input trigger) = Inr r \<and>
              (gr_Verdict r = VerdictDeny \<and> TrimSpace (gr_Reason r) \<noteq> '''' \<or>
               gr_Verdict r = VerdictMutate \<and> (\<exists>p. gr_Payload r = Some p \<and> p \<noteq> trigger)))) \<and>
      (\<exists>n. an_elapsed (cp_Inspect c n (Deadline (2 * second)) (suite_input (fx_Benign fx))) \<le> 5 * second) \<and>
      (\<exists>n r. an_result (cp_Inspect c n Live (suite_input '''')) = Inr (Some r)))"

lemma require_Nil [simp]: "require ok m = [] \<longleftrightarrow> ok"
  by (simp add: require_def)

lemma checks_Nil [simp]: "checks got f = [] \<longleftrightarrow> (\<exists>r. got = Inr r \<and> f r = [])"
  by (cases got) (simp_all add: checks_def)

lemma RunGuardrailSuite_passed:
  assumes "RunGuardrailSuite \<lparr>tg_component = c, tg_Trigger = fx_Trigger fx, tg_Benign = fx_Benign fx\<rparr> = Some rep" "report_Passed rep"
  shows "earned c fx"
proof -
  let ?t = "\<lparr>tg_component = c, tg_Trigger = fx_Trigger fx, tg_Benign = fx_Benign fx\<rparr>"
  let ?n = "if fx_Trigger fx = None then 5 else 6 :: nat"
  obtain deadline where d: "deadline_case ?t (?n + 1) = Some deadline"
    using assms(1) by (auto simp: RunGuardrailSuite_def Let_def split: option.splits)
  have parts: "name_case c = []" "benign_case ?t 0 = []" "unmodified_case ?t 4 = []" "deadline = []" "empty_case ?t (?n + 2) = []"
    "\<And>trigger. fx_Trigger fx = Some trigger \<Longrightarrow> trigger_case ?t trigger 5 = []"
    using assms d by (auto simp: RunGuardrailSuite_def Let_def report_Passed_def case_Passed_def split: option.splits if_splits)
  have name: "cp_Name c 0 \<noteq> '''' \<and> cp_Name c 1 = cp_Name c 0"
    using parts(1) by (auto simp: name_case_def split: if_splits)
  have benign: "\<exists>r. suite_inspect c 0 (suite_input (fx_Benign fx)) = Inr r \<and> gr_Verdict r = VerdictAllow"
    using parts(2) by (simp add: benign_case_def)
  have buffer: "an_buffer (cp_Inspect c 4 Live (suite_input (fx_Benign fx))) = fx_Benign fx"
    using parts(3) by (simp add: unmodified_case_def)
  have elapsed: "an_elapsed (cp_Inspect c (?n + 1) (Deadline (2 * second)) (suite_input (fx_Benign fx))) \<le> 5 * second"
    using d parts(4) by (auto simp: deadline_case_def Let_def split: if_splits)
  have empty: "\<exists>r. an_result (cp_Inspect c (?n + 2) Live (suite_input '''')) = Inr (Some r)"
    using parts(5) by (auto simp: empty_case_def Let_def split: option.splits sum.splits)
  have trigger: "\<exists>r. suite_inspect c 5 (suite_input trigger) = Inr r \<and>
              (gr_Verdict r = VerdictDeny \<and> TrimSpace (gr_Reason r) \<noteq> '''' \<or>
               gr_Verdict r = VerdictMutate \<and> (\<exists>p. gr_Payload r = Some p \<and> p \<noteq> trigger))" if "fx_Trigger fx = Some trigger" for trigger
  proof -
    note given = that
    obtain r where r: "suite_inspect c 5 (suite_input trigger) = Inr r"
      "(case gr_Verdict r of
          VerdictDeny \<Rightarrow> require (TrimSpace (gr_Reason r) \<noteq> '''') ''denied without a reason''
        | VerdictMutate \<Rightarrow>
            (case gr_Payload r of
               None \<Rightarrow> [Msg ''mutate returned no payload, so the chain would forward the original'' []]
             | Some p \<Rightarrow> require (p \<noteq> trigger) ''mutate returned the input unchanged'')
        | VerdictAllow \<Rightarrow> [Msg ''allowed the payload it declared it acts on: %q'' []]) = []"
      using parts(6)[OF given] by (auto simp: trigger_case_def)
    then show ?thesis by (intro exI[of _ r]) (simp split: verdict.splits option.splits)
  qed
  have "case fx_Trigger fx of
         None \<Rightarrow> True
       | Some trigger \<Rightarrow>
           (\<exists>r. suite_inspect c 5 (suite_input trigger) = Inr r \<and>
              (gr_Verdict r = VerdictDeny \<and> TrimSpace (gr_Reason r) \<noteq> '''' \<or>
               gr_Verdict r = VerdictMutate \<and> (\<exists>p. gr_Payload r = Some p \<and> p \<noteq> trigger)))"
    using trigger by (cases "fx_Trigger fx") simp_all
  with name benign buffer elapsed empty show ?thesis unfolding earned_def by blast
qed

lemma run_suite_passed:
  assumes "run_suite r m fx c = Some (Inr v)" "av_Passed v"
  shows "earned c fx \<and> av_ManifestDigest v = mf_Digest m \<and> av_Runner v = rn_name r"
  using assms RunGuardrailSuite_passed[of c fx] by (auto simp: run_suite_def verdictFrom_def verdictFor_def)

lemma admission_passed:
  assumes "admission_Run env r m fx = Some (Inr v)" "av_Passed v"
  shows "av_ManifestDigest v = mf_Digest m \<and> av_Runner v = rn_name r \<and> mf_Port m = ''guardrail'' \<and> fx_Benign fx \<noteq> '''' \<and>
    (\<exists>c. earned c fx \<and>
       ((\<exists>path. en_start env (mf_Image m) = Inr path \<and> en_ping env path = None \<and> c = en_sidecar env (mf_Name m) path) \<or>
        (mf_Execution m = ''in_process'' \<and>
         (\<exists>g. c = en_inprocess env g \<and> wg_name g = mf_Name m \<and>
            mf_Module m = ''sha256:'' @ hex_encode (en_sha256 env (wm_bytes (wg_module g)))))))"
proof -
  have guards: "mf_Port m = ''guardrail''" "fx_Benign fx \<noteq> ''''"
    using assms(1) by (auto simp: admission_Run_def split: if_splits)
  have ran: "runInProcess env r m fx = Some (Inr v) \<and> mf_Execution m = ''in_process'' \<or> run_sidecar env r m fx = Some (Inr v)"
    using assms(1) unfolding admission_Run_def by (simp split: if_splits)
  have inside: ?thesis if p: "runInProcess env r m fx = Some (Inr v)" "mf_Execution m = ''in_process''"
  proof -
    obtain read bytes md g where l: "Load (en_sha256 env) read (mf_Module m) = Inr bytes"
      "Compile (en_engine env) (withDefaults \<lparr>wl_MemoryPages = 0, wl_MaxOutputBytes = 0, wl_CallTimeout = 0\<rparr>) 0 (mf_Name m) bytes = Inr md"
      "wasm_guardrail_New (mf_Name m) (Some md) = Inr g" "run_suite r m fx (en_inprocess env g) = Some (Inr v)"
      using p(1) assms(2) unfolding runInProcess_def by (auto simp: verdictFor_def split: option.splits sum.splits)
    have "wg_name g = mf_Name m" "wg_module g = md" using l(3) by (auto simp: wasm_guardrail_New_def split: if_splits)
    with run_suite_passed[OF l(4) assms(2)] Load_Inr[OF l(1)] Compile_bytes[OF l(2)] guards p(2) show ?thesis by blast
  qed
  have outside: ?thesis if p: "run_sidecar env r m fx = Some (Inr v)"
  proof -
    obtain path where s: "en_start env (mf_Image m) = Inr path" "en_ping env path = None"
      "run_suite r m fx (en_sidecar env (mf_Name m) path) = Some (Inr v)"
      using p unfolding run_sidecar_def by (auto split: option.splits sum.splits if_splits)
    with run_suite_passed[OF s(3) assms(2)] guards show ?thesis by blast
  qed
  from ran inside outside show ?thesis by blast
qed

section \<open>Properties\<close>


definition ex_component :: component where
  \<comment> \<open>A guardrail that rewrites one word.\<close>
  "ex_component =
     \<lparr>cp_Name = (\<lambda>_. ''word-filter''),
      cp_Inspect = (\<lambda>n ctx i.
        \<lparr>an_result = (if ctx = Cancelled then Inl ctx_canceled
           else Inr (Some (if gi_Payload i = ''bad'' then \<lparr>gr_Verdict = VerdictMutate, gr_Reason = '''', gr_Payload = Some ''***''\<rparr>
                           else \<lparr>gr_Verdict = VerdictAllow, gr_Reason = '''', gr_Payload = None\<rparr>))),
         an_buffer = gi_Payload i, an_elapsed = 1, an_panic = None\<rparr>)\<rparr>"

definition ex_run_env :: "string run_env" where
  "ex_run_env =
     \<lparr>en_mkdir = None, en_chmod = None, en_start = (\<lambda>_. Inr ''/tmp/c.sock''), en_ping = (\<lambda>_. None), en_sidecar = (\<lambda>_ _. ex_component),
      en_sha256 = ex_sha, en_runtime = None, en_engine = ex_engine, en_inprocess = (\<lambda>_. ex_component)\<rparr>"

definition ex_manifest :: manifest where
  "ex_manifest = \<lparr>mf_Name = ''scan'', mf_Port = ''guardrail'', mf_Digest = ''d1'', mf_Image = ''img'', mf_Module = '''', mf_Execution = ''sidecar''\<rparr>"

definition ex_fixtures :: fixtures where
  "ex_fixtures = \<lparr>fx_Trigger = Some ''bad'', fx_Benign = ''hello''\<rparr>"

definition ex_runner :: runner where
  "ex_runner = \<lparr>rn_name = ''r1'', rn_sandbox = True, rn_modules = None\<rparr>"

lemma ex_admission:
  "case admission_Run ex_run_env ex_runner ex_manifest ex_fixtures of Some (Inr v) \<Rightarrow> av_Passed v | _ \<Rightarrow> False"
  by code_simp



end
