(* ===== verification/Config.thy ===== *)
theory Config
  imports Http_Text
begin

text \<open>
  \<open>dataplane/internal/config\<close>: the worker's settings, read from an environment lookup and validated once. Parsing a
  float and a duration are parameters. A parsed float is a number or not one; an infinity is out of range like any other
  number too large or too small.
\<close>

datatype float64 = NaN | Num real

definition float_le :: "float64 \<Rightarrow> real \<Rightarrow> bool" where
  "float_le f x = (case f of NaN \<Rightarrow> False | Num r \<Rightarrow> r \<le> x)"

definition float_gt :: "float64 \<Rightarrow> real \<Rightarrow> bool" where
  "float_gt f x = (case f of NaN \<Rightarrow> False | Num r \<Rightarrow> r > x)"

record config =
  cf_ListenAddr :: string
  cf_SnapshotFile :: string
  cf_ControlPlaneURL :: string
  cf_ControlPlaneToken :: string
  cf_SnapshotInterval :: duration
  cf_OTLPEndpoint :: string
  cf_OTLPInsecure :: bool
  cf_TraceSampleRatio :: float64
  cf_Region :: string
  cf_RedisURL :: string
  cf_KeyPepper :: string
  cf_NERSocket :: string
  cf_WASMDir :: string
  cf_CORSOrigins :: "string list"
  cf_ReadTimeout :: duration
  cf_WriteTimeout :: duration
  cf_IdleTimeout :: duration
  cf_ShutdownGrace :: duration

fun firstNonEmpty :: "string list \<Rightarrow> string" where
  "firstNonEmpty [] = ''''"
| "firstNonEmpty (v # vs) = (if v \<noteq> '''' then v else firstNonEmpty vs)"

fun split_at :: "char \<Rightarrow> string \<Rightarrow> string list" where
  \<comment> \<open>\<open>strings.Split\<close> at a one-byte separator.\<close>
  "split_at c [] = [[]]"
| "split_at c (x # xs) = (if x = c then [] # split_at c xs else (case split_at c xs of p # ps \<Rightarrow> (x # p) # ps | [] \<Rightarrow> [[x]]))"

definition splitList :: "string \<Rightarrow> string list" where
  "splitList raw =
     (if raw = '''' then [] else filter (\<lambda>part. part \<noteq> '''') (map TrimSpace (split_at (CHR '','') raw)))"

definition minPepperBytes :: nat where "minPepperBytes = 32"

definition config_base :: "(string \<Rightarrow> string) \<Rightarrow> config" where
  "config_base getenv =
     \<lparr>cf_ListenAddr = firstNonEmpty [getenv ''GATEWAY_LISTEN_ADDR'', '':8080''],
      cf_SnapshotFile = getenv ''GATEWAY_SNAPSHOT_FILE'', cf_ControlPlaneURL = getenv ''GATEWAY_CONTROL_PLANE_URL'',
      cf_ControlPlaneToken = getenv ''GATEWAY_CONTROL_PLANE_TOKEN'', cf_SnapshotInterval = 15 * second,
      cf_OTLPEndpoint = getenv ''GATEWAY_OTLP_ENDPOINT'', cf_OTLPInsecure = (getenv ''GATEWAY_OTLP_INSECURE'' = ''true''),
      cf_TraceSampleRatio = Num (1 / 10), cf_Region = getenv ''GATEWAY_REGION'', cf_RedisURL = getenv ''GATEWAY_REDIS_URL'',
      cf_KeyPepper = getenv ''GATEWAY_KEY_PEPPER'', cf_NERSocket = getenv ''GATEWAY_NER_SOCKET'', cf_WASMDir = getenv ''GATEWAY_WASM_DIR'',
      cf_CORSOrigins = splitList (getenv ''GATEWAY_CORS_ORIGINS''), cf_ReadTimeout = 30 * second, cf_WriteTimeout = 5 * minute,
      cf_IdleTimeout = 120 * second, cf_ShutdownGrace = 30 * second\<rparr>"

definition load_ratio :: "(string \<Rightarrow> go_error + float64) \<Rightarrow> string \<Rightarrow> config \<Rightarrow> go_error + config" where
  "load_ratio parseFloat raw cfg =
     (if raw = '''' then Inr cfg
      else (case parseFloat raw of
          Inl e \<Rightarrow> Inl (GwError CodeInvalidRequest (Msg ''GATEWAY_TRACE_SAMPLE_RATIO is not a number'' []) False (Some e))
        | Inr parsed \<Rightarrow>
            if float_le parsed 0 \<or> float_gt parsed 1
            then Inl (err_Newf CodeInvalidRequest ''GATEWAY_TRACE_SAMPLE_RATIO must be in (0, 1], got %v'' [AStr raw])
            else Inr (cfg\<lparr>cf_TraceSampleRatio := parsed\<rparr>)))"

definition load_interval :: "(string \<Rightarrow> go_error + duration) \<Rightarrow> string \<Rightarrow> config \<Rightarrow> go_error + config" where
  "load_interval parseDuration raw cfg =
     (if raw = '''' then Inr cfg
      else (case parseDuration raw of
          Inl e \<Rightarrow> Inl (GwError CodeInvalidRequest (Msg ''GATEWAY_SNAPSHOT_INTERVAL is not a duration'' []) False (Some e))
        | Inr parsed \<Rightarrow>
            if parsed \<le> 0 then Inl (err_New CodeInvalidRequest ''GATEWAY_SNAPSHOT_INTERVAL must be positive'')
            else Inr (cfg\<lparr>cf_SnapshotInterval := parsed\<rparr>)))"

definition config_Load :: "(string \<Rightarrow> go_error + float64) \<Rightarrow> (string \<Rightarrow> go_error + duration) \<Rightarrow> (string \<Rightarrow> string) \<Rightarrow> go_error + config" where
  "config_Load parseFloat parseDuration getenv =
     (case load_ratio parseFloat (getenv ''GATEWAY_TRACE_SAMPLE_RATIO'') (config_base getenv) of
        Inl e \<Rightarrow> Inl e
      | Inr cfg1 \<Rightarrow>
          (case load_interval parseDuration (getenv ''GATEWAY_SNAPSHOT_INTERVAL'') cfg1 of
             Inl e \<Rightarrow> Inl e
           | Inr cfg \<Rightarrow>
               if cf_SnapshotFile cfg = '''' \<and> cf_ControlPlaneURL cfg = ''''
               then Inl (err_New CodeInvalidRequest ''one of GATEWAY_SNAPSHOT_FILE or GATEWAY_CONTROL_PLANE_URL is required'')
               else if length (cf_KeyPepper cfg) < minPepperBytes
               then Inl (err_Newf CodeInvalidRequest ''GATEWAY_KEY_PEPPER must be at least %d bytes, got %d''
                           [AInt (int minPepperBytes), AInt (int (length (cf_KeyPepper cfg)))])
               else Inr cfg))"

datatype config_arg = CStr string | CDur duration | CFloat float64 | CBool bool | CInt int

definition config_String :: "config \<Rightarrow> config_arg list" where
  \<comment> \<open>The arguments of the format, in order.\<close>
  "config_String c =
     [CStr (cf_ListenAddr c), CStr (cf_SnapshotFile c), CStr (cf_ControlPlaneURL c), CDur (cf_SnapshotInterval c), CStr (cf_OTLPEndpoint c),
      CFloat (cf_TraceSampleRatio c), CBool (cf_RedisURL c \<noteq> ''''), CStr (cf_NERSocket c), CStr (cf_WASMDir c),
      CInt (int (length (cf_KeyPepper c))), CInt (int (length (cf_ControlPlaneToken c)))]"

section \<open>Laws\<close>

definition config_ok :: "config \<Rightarrow> bool" where
  "config_ok c =
     (cf_ListenAddr c \<noteq> '''' \<and> (cf_SnapshotFile c \<noteq> '''' \<or> cf_ControlPlaneURL c \<noteq> '''') \<and> 32 \<le> length (cf_KeyPepper c) \<and>
      0 < cf_SnapshotInterval c \<and> '''' \<notin> set (cf_CORSOrigins c))"

definition ratio_ok :: "float64 \<Rightarrow> bool" where
  "ratio_ok f = (case f of NaN \<Rightarrow> False | Num r \<Rightarrow> 0 < r \<and> r \<le> 1)"

lemma config_base_ok:
  "cf_ListenAddr (config_base g) \<noteq> ''''" "ratio_ok (cf_TraceSampleRatio (config_base g))"
  "0 < cf_SnapshotInterval (config_base g)" "'''' \<notin> set (cf_CORSOrigins (config_base g))"
  by (simp_all add: config_base_def splitList_def ratio_ok_def)

text \<open>
  A configuration that loads needs no further check, whatever the environment holds, except that a sampling ratio
  which is not a number is neither too small nor too large and is accepted.
\<close>

lemma config_Load_ok:
  "config_Load pf pd getenv = Inr cfg \<Longrightarrow> config_ok cfg \<and> (ratio_ok (cf_TraceSampleRatio cfg) \<or> cf_TraceSampleRatio cfg = NaN)"
  using config_base_ok[of getenv]
  by (auto simp: config_Load_def load_ratio_def load_interval_def config_ok_def ratio_ok_def float_le_def float_gt_def minPepperBytes_def
      split: if_splits sum.splits float64.splits)

lemma load_ratio_accepts_NaN: "raw \<noteq> '''' \<Longrightarrow> pf raw = Inr NaN \<Longrightarrow> load_ratio pf raw cfg = Inr (cfg\<lparr>cf_TraceSampleRatio := NaN\<rparr>)"
  by (simp add: load_ratio_def float_le_def float_gt_def)

text \<open>A dump of the configuration depends on the two secrets only by their lengths.\<close>

lemma config_String_redacts:
  "length p = length (cf_KeyPepper c) \<Longrightarrow> length t = length (cf_ControlPlaneToken c) \<Longrightarrow>
   config_String (c\<lparr>cf_KeyPepper := p, cf_ControlPlaneToken := t\<rparr>) = config_String c"
  by (simp add: config_String_def)

end
