(* ===== verification/Redis_Store.thy ===== *)
theory Redis_Store
  imports Rate_Limits
begin

text \<open>
  The Redis implementation of the store port, \<open>dataplane/internal/adapters/rediskv\<close>. The server and its client library
  are parameters: the commands as functions on the state of the server, whose clock counts milliseconds, and the connection,
  which may run a command whose reply is lost and try again. \<open>redis_documented\<close> says what the documentation promises of
  them. The script \<open>incrWithTTL\<close> is in the repository and is translated. The store is shown to keep the contract of the
  port, so what is proved of the limiter over that contract holds of a fleet that shares one Redis.
\<close>

section \<open>The server and the client\<close>

text \<open>
  \<open>rd_link\<close> is what becomes of one call: how many executions lose their reply, and then either an error or one more
  execution, which is answered. A reply \<open>redis.Nil\<close> is None.
\<close>

record 'd redis =
  rd_link :: "'d \<Rightarrow> duration \<Rightarrow> (nat \<times> go_error option) \<times> 'd"
  rd_GET :: "'d \<Rightarrow> int \<Rightarrow> string \<Rightarrow> go_error + string option"
  rd_SET :: "'d \<Rightarrow> int \<Rightarrow> string \<Rightarrow> string \<Rightarrow> duration \<Rightarrow> (go_error + unit) \<times> 'd"
  rd_DEL :: "'d \<Rightarrow> string \<Rightarrow> (go_error + unit) \<times> 'd"
  rd_INCRBY :: "'d \<Rightarrow> int \<Rightarrow> string \<Rightarrow> int \<Rightarrow> (go_error + int) \<times> 'd"
  rd_PTTL :: "'d \<Rightarrow> int \<Rightarrow> string \<Rightarrow> int"
  rd_PEXPIRE :: "'d \<Rightarrow> int \<Rightarrow> string \<Rightarrow> int \<Rightarrow> 'd"
  rd_Close :: "'d \<Rightarrow> go_error option"

definition server_ms :: "gotime \<Rightarrow> int" where
  "server_ms now = now div millisecond"

definition redis_call :: "'d redis \<Rightarrow> duration \<Rightarrow> 'd \<Rightarrow> ('d \<Rightarrow> (go_error + 'a) \<times> 'd) \<Rightarrow> (go_error + 'a) \<times> 'd" where
  "redis_call rd timeout d cmd =
     (case rd_link rd d timeout of ((lost, err), d1) \<Rightarrow>
        (let d2 = ((\<lambda>x. snd (cmd x)) ^^ lost) d1
         in case err of Some e \<Rightarrow> (Inl e, d2) | None \<Rightarrow> cmd d2))"

section \<open>The store\<close>

definition redis_DefaultTimeout :: duration where
  "redis_DefaultTimeout = 250 * millisecond"

text \<open>The script runs atomically on the server.\<close>

definition incrWithTTL :: "'d redis \<Rightarrow> int \<Rightarrow> string \<Rightarrow> int \<Rightarrow> int \<Rightarrow> 'd \<Rightarrow> (go_error + int) \<times> 'd" where
  "incrWithTTL rd t key delta ms d =
     (case rd_INCRBY rd d t key delta of
        (Inl e, d1) \<Rightarrow> (Inl e, d1)
      | (Inr tot, d1) \<Rightarrow> (Inr tot, if rd_PTTL rd d1 t key < 0 then rd_PEXPIRE rd d1 t key ms else d1))"

record 'd redis_store =
  rk_client :: "'d redis"
  rk_timeout :: duration

definition redis_WithTimeout :: "duration \<Rightarrow> 'd redis_store \<Rightarrow> 'd redis_store" where
  "redis_WithTimeout d s = (if d > 0 then s\<lparr>rk_timeout := d\<rparr> else s)"

definition redis_New :: "'d redis option \<Rightarrow> duration list \<Rightarrow> go_error + 'd redis_store" where
  \<comment> \<open>The options are the arguments of \<open>WithTimeout\<close>.\<close>
  "redis_New client opts =
     (case client of
        None \<Rightarrow> Inl (err_New CodeInternal ''a redis store needs a client'')
      | Some c \<Rightarrow> Inr (fold redis_WithTimeout opts \<lparr>rk_client = c, rk_timeout = redis_DefaultTimeout\<rparr>))"

definition redis_Open :: "(string \<Rightarrow> go_error + 'd redis) \<Rightarrow> string \<Rightarrow> duration list \<Rightarrow> go_error + 'd redis_store" where
  "redis_Open parseURL url opts =
     (case parseURL url of
        Inl e \<Rightarrow> Inl (GwError CodeInvalidRequest (Msg ''parsing the redis URL'' []) False (Some e))
      | Inr client \<Rightarrow> redis_New (Some client) opts)"

definition redis_Close :: "'d redis_store \<Rightarrow> 'd \<Rightarrow> go_error option" where
  "redis_Close s d = err_Wrap CodeUnavailable (rd_Close (rk_client s) d) ''closing the redis client''"

definition redis_unavailable :: "string \<Rightarrow> go_error + 'a \<Rightarrow> go_error + 'a" where
  "redis_unavailable m r =
     (case r of Inl e \<Rightarrow> Inl (GwError CodeUnavailable (Msg m []) False (Some e)) | Inr x \<Rightarrow> Inr x)"

definition only_error :: "go_error + unit \<Rightarrow> go_error option" where
  "only_error r = (case r of Inl e \<Rightarrow> Some e | Inr _ \<Rightarrow> None)"

definition redis_Get :: "'d redis_store \<Rightarrow> 'd \<Rightarrow> gotime \<Rightarrow> string \<Rightarrow> go_error + string option" where
  "redis_Get s d now key =
     redis_unavailable ''reading from redis''
       (fst (redis_call (rk_client s) (rk_timeout s) d (\<lambda>x. (rd_GET (rk_client s) x (server_ms now) key, x))))"

definition redis_Set :: "'d redis_store \<Rightarrow> 'd \<Rightarrow> gotime \<Rightarrow> string \<Rightarrow> string \<Rightarrow> duration \<Rightarrow> go_error option \<times> 'd" where
  "redis_Set s d now key val ttl =
     (case redis_call (rk_client s) (rk_timeout s) d (\<lambda>x. rd_SET (rk_client s) x (server_ms now) key val ttl) of
        (r, d') \<Rightarrow> (only_error (redis_unavailable ''writing to redis'' r), d'))"

definition redis_Incr :: "'d redis_store \<Rightarrow> 'd \<Rightarrow> gotime \<Rightarrow> string \<Rightarrow> int \<Rightarrow> duration \<Rightarrow> (go_error + int) \<times> 'd" where
  "redis_Incr s d now key delta ttl =
     (case redis_call (rk_client s) (rk_timeout s) d (incrWithTTL (rk_client s) (server_ms now) key delta (Milliseconds ttl)) of
        (r, d') \<Rightarrow> (redis_unavailable ''incrementing in redis'' r, d'))"

definition redis_Delete :: "'d redis_store \<Rightarrow> 'd \<Rightarrow> string \<Rightarrow> go_error option \<times> 'd" where
  "redis_Delete s d key =
     (case redis_call (rk_client s) (rk_timeout s) d (\<lambda>x. rd_DEL (rk_client s) x key) of
        (r, d') \<Rightarrow> (only_error (redis_unavailable ''deleting from redis'' r), d'))"

definition redis_Ping :: "'d redis_store \<Rightarrow> 'd \<Rightarrow> go_error option" where
  "redis_Ping s d =
     only_error (redis_unavailable ''pinging redis'' (fst (redis_call (rk_client s) (rk_timeout s) d (\<lambda>x. (Inr (), x)))))"

definition redis_ops :: "'d redis_store \<Rightarrow> 'd kv_ops" where
  "redis_ops s = \<lparr>kv_Get = redis_Get s, kv_Set = redis_Set s, kv_Incr = redis_Incr s, kv_Delete = redis_Delete s\<rparr>"

section \<open>What Redis documents\<close>

text \<open>The keys of a server: a value, and the last millisecond it can be read in unless it is kept for ever.\<close>

type_synonym redis_keys = "string \<Rightarrow> (string \<times> int option) option"

definition redis_live :: "int \<Rightarrow> (string \<times> int option) option \<Rightarrow> (string \<times> int option) option" where
  "redis_live t c = (case c of Some (v, Some e) \<Rightarrow> if t > e then None else c | _ \<Rightarrow> c)"

definition incrby_documented :: "int \<Rightarrow> string \<Rightarrow> int \<Rightarrow> redis_keys \<Rightarrow> int \<Rightarrow> redis_keys \<Rightarrow> bool" where
  \<comment> \<open>The numbers are those of 64-bit integers; an overflow is an error.\<close>
  "incrby_documented t k n ks tot ks' =
     (- (2 ^ 63) \<le> tot \<and> tot < 2 ^ 63 \<and>
      (case redis_live t (ks k) of
         None \<Rightarrow> tot = n \<and> ks' = ks(k \<mapsto> (FormatInt tot, None))
       | Some (v, e) \<Rightarrow> (\<exists>cur. ParseInt v = Some cur \<and> tot = cur + n) \<and> ks' = ks(k \<mapsto> (FormatInt tot, e))))"

definition pttl_documented :: "int \<Rightarrow> (string \<times> int option) option \<Rightarrow> int" where
  "pttl_documented t c = (case redis_live t c of None \<Rightarrow> -2 | Some (_, None) \<Rightarrow> -1 | Some (_, Some e) \<Rightarrow> e - t)"

definition pexpire_documented :: "int \<Rightarrow> string \<Rightarrow> int \<Rightarrow> redis_keys \<Rightarrow> redis_keys" where
  "pexpire_documented t k ms ks = (case redis_live t (ks k) of None \<Rightarrow> ks | Some (v, _) \<Rightarrow> ks(k \<mapsto> (v, Some (t + ms))))"

text \<open>
  A lifetime the client sends is promised for whole milliseconds only, and of \<open>PEXPIRE\<close> a positive one. One call executes
  its command at most \<open>tries\<close> times.
\<close>

definition redis_documented :: "'d redis \<Rightarrow> ('d \<Rightarrow> redis_keys) \<Rightarrow> nat \<Rightarrow> bool" where
  "redis_documented rd keys tries =
     ((\<forall>d timeout. case rd_link rd d timeout of ((lost, err), d1) \<Rightarrow>
         keys d1 = keys d \<and> lost + (if err = None then 1 else 0) \<le> tries) \<and>
      (\<forall>d t k. case rd_GET rd d t k of Inl _ \<Rightarrow> True | Inr r \<Rightarrow> r = map_option fst (redis_live t (keys d k))) \<and>
      (\<forall>d t k v ttl. ttl_ok ttl \<longrightarrow> (case rd_SET rd d t k v ttl of
           (Inl _, d1) \<Rightarrow> keys d1 = keys d
         | (Inr _, d1) \<Rightarrow> keys d1 = (keys d)(k \<mapsto> (v, Some (t + ttl div millisecond))))) \<and>
      (\<forall>d k. case rd_DEL rd d k of (Inl _, d1) \<Rightarrow> keys d1 = keys d | (Inr _, d1) \<Rightarrow> keys d1 = (keys d)(k := None)) \<and>
      (\<forall>d t k n. case rd_INCRBY rd d t k n of
           (Inl _, d1) \<Rightarrow> keys d1 = keys d
         | (Inr tot, d1) \<Rightarrow> incrby_documented t k n (keys d) tot (keys d1)) \<and>
      (\<forall>d t k. rd_PTTL rd d t k = pttl_documented t (keys d k)) \<and>
      (\<forall>d t k ms. 0 < ms \<longrightarrow> keys (rd_PEXPIRE rd d t k ms) = pexpire_documented t k ms (keys d)))"

text \<open>The content the port speaks of: a value can be read to the end of its last millisecond.\<close>

definition redis_content :: "('d \<Rightarrow> redis_keys) \<Rightarrow> 'd \<Rightarrow> kv_content" where
  "redis_content keys d k =
     map_option (\<lambda>(v, e). (v, case e of None \<Rightarrow> 0 | Some e \<Rightarrow> (e + 1) * millisecond - 1)) (keys d k)"

section \<open>The store keeps the contract of the port\<close>

lemma redis_documentedD:
  assumes "redis_documented rd keys tries"
  shows "rd_link rd d timeout = ((lost, err), d1) \<Longrightarrow> keys d1 = keys d \<and> lost + (if err = None then 1 else 0) \<le> tries"
    and "rd_GET rd d t k = Inr r \<Longrightarrow> r = map_option fst (redis_live t (keys d k))"
    and "rd_SET rd d t k v ttl = (Inl e, d1) \<Longrightarrow> ttl_ok ttl \<Longrightarrow> keys d1 = keys d"
    and "rd_SET rd d t k v ttl = (Inr u, d1) \<Longrightarrow> ttl_ok ttl \<Longrightarrow> keys d1 = (keys d)(k \<mapsto> (v, Some (t + ttl div millisecond)))"
    and "rd_DEL rd d k = (Inl e, d1) \<Longrightarrow> keys d1 = keys d"
    and "rd_DEL rd d k = (Inr u, d1) \<Longrightarrow> keys d1 = (keys d)(k := None)"
    and "rd_INCRBY rd d t k n = (Inl e, d1) \<Longrightarrow> keys d1 = keys d"
    and "rd_INCRBY rd d t k n = (Inr tot, d1) \<Longrightarrow> incrby_documented t k n (keys d) tot (keys d1)"
    and "rd_PTTL rd d t k = pttl_documented t (keys d k)"
    and "0 < ms \<Longrightarrow> keys (rd_PEXPIRE rd d t k ms) = pexpire_documented t k ms (keys d)"
proof -
  note doc = assms[unfolded redis_documented_def]
  show "rd_link rd d timeout = ((lost, err), d1) \<Longrightarrow> keys d1 = keys d \<and> lost + (if err = None then 1 else 0) \<le> tries"
    using doc[THEN conjunct1, rule_format, where d = d and timeout = timeout] by simp
  note doc = doc[THEN conjunct2]
  show "rd_GET rd d t k = Inr r \<Longrightarrow> r = map_option fst (redis_live t (keys d k))"
    using doc[THEN conjunct1, rule_format, where d = d and t = t and k = k] by simp
  note doc = doc[THEN conjunct2]
  show "rd_SET rd d t k v ttl = (Inl e, d1) \<Longrightarrow> ttl_ok ttl \<Longrightarrow> keys d1 = keys d"
    "rd_SET rd d t k v ttl = (Inr u, d1) \<Longrightarrow> ttl_ok ttl \<Longrightarrow> keys d1 = (keys d)(k \<mapsto> (v, Some (t + ttl div millisecond)))"
    using doc[THEN conjunct1, rule_format, where d = d and t = t and k = k and v = v and ttl = ttl] by simp_all
  note doc = doc[THEN conjunct2]
  show "rd_DEL rd d k = (Inl e, d1) \<Longrightarrow> keys d1 = keys d" "rd_DEL rd d k = (Inr u, d1) \<Longrightarrow> keys d1 = (keys d)(k := None)"
    using doc[THEN conjunct1, rule_format, where d = d and k = k] by simp_all
  note doc = doc[THEN conjunct2]
  show "rd_INCRBY rd d t k n = (Inl e, d1) \<Longrightarrow> keys d1 = keys d"
    "rd_INCRBY rd d t k n = (Inr tot, d1) \<Longrightarrow> incrby_documented t k n (keys d) tot (keys d1)"
    using doc[THEN conjunct1, rule_format, where d = d and t = t and k = k and n = n] by simp_all
  note doc = doc[THEN conjunct2]
  show "rd_PTTL rd d t k = pttl_documented t (keys d k)" using doc by simp
  show "0 < ms \<Longrightarrow> keys (rd_PEXPIRE rd d t k ms) = pexpire_documented t k ms (keys d)" using doc by simp
qed

lemma last_ms: "(e + 1) * millisecond - 1 < now \<longleftrightarrow> e < now div millisecond" for e now :: int
proof -
  have "now = now div millisecond * millisecond + now mod millisecond" "0 \<le> now mod millisecond" "now mod millisecond < millisecond"
    by simp_all
  then show ?thesis by (simp only: distrib_right) linarith
qed

lemma last_ms_nonzero: "(e + 1) * millisecond - 1 \<noteq> (0 :: int)"
proof
  assume "(e + 1) * millisecond - 1 = 0"
  then have "(e + 1) * millisecond = 1" by simp
  then have "millisecond dvd (1 :: int)" by (metis dvd_triv_right)
  then show False by simp
qed

lemma redis_content_upd:
  "keys d' = (keys d)(k \<mapsto> (v, Some e)) \<Longrightarrow> redis_content keys d' = (redis_content keys d)(k \<mapsto> (v, (e + 1) * millisecond - 1))"
  "keys d' = (keys d)(k \<mapsto> (v, None)) \<Longrightarrow> redis_content keys d' = (redis_content keys d)(k \<mapsto> (v, 0))"
  "keys d' = (keys d)(k := None) \<Longrightarrow> redis_content keys d' = (redis_content keys d)(k := None)"
  by (auto simp: redis_content_def fun_eq_iff)

lemma redis_content_cong: "keys d' = keys d \<Longrightarrow> redis_content keys d' = redis_content keys d"
  by (simp add: redis_content_def fun_eq_iff)

lemma live_redis_content:
  "live now (redis_content keys d k) =
     map_option (\<lambda>(v, e). (v, case e of None \<Rightarrow> 0 | Some e \<Rightarrow> (e + 1) * millisecond - 1)) (redis_live (server_ms now) (keys d k))"
  using last_ms last_ms_nonzero
  by (auto simp: live_def redis_content_def redis_live_def server_ms_def split: option.splits)

lemma expires_in_server:
  assumes "ttl_ok ttl"
  shows "expires_in now ttl ((server_ms now + ttl div millisecond + 1) * millisecond - 1)"
proof -
  have "ttl = ttl div millisecond * millisecond"
    using assms div_mult_mod_eq[of ttl millisecond] unfolding ttl_ok_def by linarith
  moreover have "now = now div millisecond * millisecond + now mod millisecond"
    "0 \<le> now mod millisecond" "now mod millisecond < millisecond"
    by simp_all
  ultimately show ?thesis unfolding expires_in_def server_ms_def by (simp only: distrib_right) linarith
qed

lemma incrWithTTL_effect:
  assumes doc: "redis_documented rd keys tries" and ok: "ttl_ok ttl"
    and run: "incrWithTTL rd (server_ms now) k n (Milliseconds ttl) d = (Inr tot, d')"
  shows "incr_effect 1 now k n ttl (redis_content keys d) tot (redis_content keys d')"
proof -
  define t where "t = server_ms now"
  have ms: "Milliseconds ttl = ttl div millisecond" "0 < Milliseconds ttl"
    using ok by (auto simp: Milliseconds_def go_div_nonneg ttl_ok_def)
  from run obtain d1 where d1: "rd_INCRBY rd d t k n = (Inr tot, d1)"
    and d': "d' = (if rd_PTTL rd d1 t k < 0 then rd_PEXPIRE rd d1 t k (Milliseconds ttl) else d1)"
    by (auto simp: incrWithTTL_def t_def split: prod.splits sum.splits)
  note pttl = redis_documentedD(9)[OF doc, of d1 t k] and pexpire = redis_documentedD(10)[OF doc ms(2), of d1 t k, unfolded ms(1)]
  have doc1: "incrby_documented t k n (keys d) tot (keys d1)" by (rule redis_documentedD(8)[OF doc d1])
  then have i: "i64 tot = tot" by (auto simp: incrby_documented_def intro: i64_id)
  have lv: "live now (redis_content keys d k) =
     map_option (\<lambda>(v, e). (v, case e of None \<Rightarrow> 0 | Some e \<Rightarrow> (e + 1) * millisecond - 1)) (redis_live t (keys d k))"
    unfolding t_def by (rule live_redis_content)
  have set: "redis_content keys d' = (redis_content keys d)(k \<mapsto> (FormatInt tot, (t + ttl div millisecond + 1) * millisecond - 1))"
    if "keys d1 = (keys d)(k \<mapsto> (FormatInt tot, None))"
  proof -
    from that have "keys d' = (keys d)(k \<mapsto> (FormatInt tot, Some (t + ttl div millisecond)))"
      by (simp add: d' pttl pexpire ms pttl_documented_def pexpire_documented_def redis_live_def)
    from redis_content_upd(1)[of keys, OF this] show ?thesis by simp
  qed
  have keep: "redis_content keys d' = (redis_content keys d)(k \<mapsto> (FormatInt tot, (e + 1) * millisecond - 1))"
    if "keys d1 = (keys d)(k \<mapsto> (FormatInt tot, Some e))" "t \<le> e" for e
  proof -
    from that have "d' = d1" by (simp add: d' pttl pttl_documented_def redis_live_def)
    with that redis_content_upd(1)[of keys] show ?thesis by simp
  qed
  have ex: "expires_in now ttl ((t + ttl div millisecond + 1) * millisecond - 1)"
    unfolding t_def by (rule expires_in_server[OF ok])
  show ?thesis
  proof (cases "redis_live t (keys d k)")
    case None
    with doc1 have "tot = n" "keys d1 = (keys d)(k \<mapsto> (FormatInt tot, None))"
      by (auto simp: incrby_documented_def)
    with set ex i None lv show ?thesis by (auto simp: incr_effect_def)
  next
    case (Some ve)
    obtain v e where ve: "ve = (v, e)" by fastforce
    with doc1 Some obtain cur where cur: "ParseInt v = Some cur" "tot = cur + n"
      "keys d1 = (keys d)(k \<mapsto> (FormatInt tot, e))" by (auto simp: incrby_documented_def)
    show ?thesis
    proof (cases e)
      case None
      with set ex i Some ve lv cur show ?thesis by (auto simp: incr_effect_def)
    next
      case (Some e1)
      with \<open>redis_live t (keys d k) = Some ve\<close> ve have "t \<le> e1"
        by (auto simp: redis_live_def split: option.splits if_splits)
      with keep Some \<open>redis_live t (keys d k) = Some ve\<close> ve i lv cur show ?thesis by (auto simp: incr_effect_def)
    qed
  qed
qed

lemma incrWithTTL_error:
  assumes "redis_documented rd keys tries" "incrWithTTL rd t k n ms d = (Inl e, d')"
  shows "redis_content keys d' = redis_content keys d"
  using assms(2) redis_documentedD(7)[OF assms(1)]
  by (intro redis_content_cong) (auto simp: incrWithTTL_def split: prod.splits sum.splits)

text \<open>Executions whose reply is lost leave the content alone or have the effect of some increments.\<close>

lemma lost_increments:
  fixes now :: gotime and k :: string and n :: int
  assumes doc: "redis_documented rd keys tries" and ok: "ttl_ok ttl"
  defines "cmd \<equiv> incrWithTTL rd (server_ms now) k n (Milliseconds ttl)"
  shows "redis_content keys (((\<lambda>x. snd (cmd x)) ^^ lost) d) = redis_content keys d \<or>
    (\<exists>m r. 1 \<le> m \<and> m \<le> lost \<and> incr_effect m now k n ttl (redis_content keys d) r
        (redis_content keys (((\<lambda>x. snd (cmd x)) ^^ lost) d)))"
proof (induction lost)
  case (Suc lost)
  let ?c = "redis_content keys" and ?d = "((\<lambda>x. snd (cmd x)) ^^ lost) d"
  have pos: "0 < ttl" using ok by (simp add: ttl_ok_def)
  obtain r d' where r: "cmd ?d = (r, d')" by fastforce
  show ?case
  proof (cases r)
    case (Inl e)
    with r have "?c d' = ?c ?d" unfolding cmd_def by (intro incrWithTTL_error[OF doc]) simp
    with Suc.IH r show ?thesis by (auto intro: le_SucI)
  next
    case (Inr tot)
    with r have step: "incr_effect 1 now k n ttl (?c ?d) tot (?c d')"
      unfolding cmd_def by (intro incrWithTTL_effect[OF doc ok]) simp
    from Suc.IH show ?thesis
    proof
      assume "?c ?d = ?c d"
      with step r have "incr_effect 1 now k n ttl (?c d) tot (?c (((\<lambda>x. snd (cmd x)) ^^ Suc lost) d))" by simp
      then show ?thesis by (intro disjI2 exI[of _ 1] exI[of _ tot]) simp
    next
      assume "\<exists>m r. 1 \<le> m \<and> m \<le> lost \<and> incr_effect m now k n ttl (?c d) r (?c ?d)"
      then obtain m v where "1 \<le> m" "m \<le> lost" "incr_effect m now k n ttl (?c d) v (?c ?d)" by blast
      with incr_effect_trans[OF this(3) step pos] r show ?thesis by (intro disjI2 exI[of _ "Suc m"] exI[of _ tot]) simp
    qed
  qed
qed simp

lemma redis_Incr_effect:
  assumes doc: "redis_documented (rk_client s) keys tries" and ok: "ttl_ok ttl"
    and run: "redis_Incr s d now k n ttl = (r, d')"
  shows "case r of
      Inl _ \<Rightarrow> redis_content keys d' = redis_content keys d \<or>
        (\<exists>m v. 1 \<le> m \<and> m \<le> tries \<and> incr_effect m now k n ttl (redis_content keys d) v (redis_content keys d'))
    | Inr v \<Rightarrow> \<exists>m. 1 \<le> m \<and> m \<le> tries \<and> incr_effect m now k n ttl (redis_content keys d) v (redis_content keys d')"
proof -
  let ?c = "redis_content keys"
  define cmd where "cmd = incrWithTTL (rk_client s) (server_ms now) k n (Milliseconds ttl)"
  obtain lost err d1 where l: "rd_link (rk_client s) d (rk_timeout s) = ((lost, err), d1)" by (metis prod.exhaust)
  define d2 where "d2 = ((\<lambda>x. snd (cmd x)) ^^ lost) d1"
  from redis_documentedD(1)[OF doc l] have c1: "?c d1 = ?c d" and tries: "lost + (if err = None then 1 else 0) \<le> tries"
    by (auto intro: redis_content_cong)
  have pos: "0 < ttl" using ok by (simp add: ttl_ok_def)
  have before: "?c d2 = ?c d \<or> (\<exists>m v. 1 \<le> m \<and> m \<le> lost \<and> incr_effect m now k n ttl (?c d) v (?c d2))"
    using lost_increments[OF doc ok, of lost now k n d1] by (simp add: c1 d2_def cmd_def)
  have run': "(r, d') = (case err of Some e \<Rightarrow> (redis_unavailable ''incrementing in redis'' (Inl e), d2)
      | None \<Rightarrow> (redis_unavailable ''incrementing in redis'' (fst (cmd d2)), snd (cmd d2)))"
    using run by (simp add: redis_Incr_def redis_call_def l Let_def cmd_def[symmetric] d2_def split: option.splits prod.splits)
  show ?thesis
  proof (cases err)
    case (Some e)
    with run' before tries show ?thesis by (auto simp: redis_unavailable_def intro: le_trans)
  next
    case None
    obtain q d3 where q: "cmd d2 = (q, d3)" by fastforce
    show ?thesis
    proof (cases q)
      case (Inl e)
      with q have "?c d3 = ?c d2" unfolding cmd_def by (intro incrWithTTL_error[OF doc]) simp
      with None run' q Inl before tries show ?thesis by (auto simp: redis_unavailable_def intro: le_trans)
    next
      case (Inr v)
      with q have step: "incr_effect 1 now k n ttl (?c d2) v (?c d3)"
        unfolding cmd_def by (intro incrWithTTL_effect[OF doc ok]) simp
      have "\<exists>m. 1 \<le> m \<and> m \<le> Suc lost \<and> incr_effect m now k n ttl (?c d) v (?c d3)"
        using before incr_effect_trans[OF _ step pos] step by (metis One_nat_def Suc_le_mono le_SucI order_refl zero_le)
      with None run' q Inr tries show ?thesis by (auto simp: redis_unavailable_def intro: le_trans)
    qed
  qed
qed

lemma redis_call_cases:
  assumes "redis_documented rd keys tries" "redis_call rd timeout d cmd = (r, d')"
    and err: "\<And>x e y. cmd x = (Inl e, y) \<Longrightarrow> keys y = keys x"
    and ok: "\<And>x u y. cmd x = (Inr u, y) \<Longrightarrow> keys y = f (keys x)"
    and idem: "\<And>ks. f (f ks) = f ks"
  shows "case r of Inl _ \<Rightarrow> keys d' = keys d \<or> keys d' = f (keys d)
    | Inr u \<Rightarrow> (\<exists>x. cmd x = (Inr u, d') \<and> keys d' = f (keys d) \<and> (keys x = keys d \<or> keys x = f (keys d)))"
proof -
  obtain lost er d1 where l: "rd_link rd d timeout = ((lost, er), d1)" by (metis prod.exhaust)
  define d2 where "d2 = ((\<lambda>x. snd (cmd x)) ^^ lost) d1"
  have one: "keys (snd (cmd x)) = keys x \<or> keys (snd (cmd x)) = f (keys x)" for x
    using err[of x] ok[of x] by (cases "cmd x"; cases "fst (cmd x)") auto
  have c1: "keys d1 = keys d" using redis_documentedD(1)[OF assms(1) l] by simp
  have "keys (((\<lambda>x. snd (cmd x)) ^^ m) d1) = keys d \<or> keys (((\<lambda>x. snd (cmd x)) ^^ m) d1) = f (keys d)" for m
    by (induction m) (use c1 one idem in \<open>auto, metis+\<close>)
  then have c2: "keys d2 = keys d \<or> keys d2 = f (keys d)" by (simp add: d2_def)
  show ?thesis
  proof (cases er)
    case (Some e)
    with assms(2) c2 show ?thesis by (auto simp: redis_call_def l d2_def Let_def)
  next
    case None
    with assms(2) have "cmd d2 = (r, d')" by (simp add: redis_call_def l d2_def Let_def)
    with c2 err[of d2] ok[of d2] idem show ?thesis by (cases r) auto
  qed
qed

lemma redis_call_write:
  assumes "redis_documented rd keys tries" "redis_call rd timeout d cmd = (Inr u, d')"
    and "\<And>x e y. cmd x = (Inl e, y) \<Longrightarrow> keys y = keys x" "\<And>x u y. cmd x = (Inr u, y) \<Longrightarrow> keys y = f (keys x)"
    and "\<And>ks. f (f ks) = f ks"
  shows "keys d' = f (keys d)"
proof -
  have "case Inr u of Inl (_ :: go_error) \<Rightarrow> keys d' = keys d \<or> keys d' = f (keys d)
    | Inr u \<Rightarrow> (\<exists>x. cmd x = (Inr u, d') \<and> keys d' = f (keys d) \<and> (keys x = keys d \<or> keys x = f (keys d)))"
    by (rule redis_call_cases[OF assms(1,2)]) (fact assms(3-5))+
  then show ?thesis by auto
qed

lemma redis_call_read:
  assumes "redis_documented rd keys tries" "fst (redis_call rd timeout d (\<lambda>x. (g x, x))) = Inr r"
  shows "\<exists>x. g x = Inr r \<and> keys x = keys d"
proof -
  obtain d' where d': "redis_call rd timeout d (\<lambda>x. (g x, x)) = (Inr r, d')"
    using assms(2) by (cases "redis_call rd timeout d (\<lambda>x. (g x, x))") simp
  have "case Inr r of Inl (_ :: go_error) \<Rightarrow> keys d' = keys d \<or> keys d' = keys d
    | Inr u \<Rightarrow> (\<exists>x. (g x, x) = (Inr u, d') \<and> keys d' = keys d \<and> (keys x = keys d \<or> keys x = keys d))"
    by (rule redis_call_cases[OF assms(1) d', where f = "\<lambda>ks. ks"]) simp_all
  then show ?thesis by auto
qed

lemma redis_unavailable_Inr [simp]: "redis_unavailable m r = Inr x \<longleftrightarrow> r = Inr x"
  by (auto simp: redis_unavailable_def split: sum.splits)

lemma only_error_None [simp]: "only_error (redis_unavailable m r) = None \<longleftrightarrow> (\<exists>u. r = Inr u)"
  by (auto simp: only_error_def redis_unavailable_def split: sum.splits)

lemma redis_kv_store:
  assumes doc: "redis_documented (rk_client s) keys tries"
  shows "kv_store (redis_ops s) (redis_content keys) tries"
proof
  fix d now k r
  assume "kv_Get (redis_ops s) d now k = Inr r"
  then have g: "fst (redis_call (rk_client s) (rk_timeout s) d (\<lambda>x. (rd_GET (rk_client s) x (server_ms now) k, x))) = Inr r"
    by (simp add: redis_ops_def redis_Get_def)
  from redis_call_read[OF doc g] obtain x where "rd_GET (rk_client s) x (server_ms now) k = Inr r" "keys x = keys d"
    by blast
  with redis_documentedD(2)[OF doc this(1)] show "r = map_option fst (live now (redis_content keys d k))"
    by (auto simp: live_redis_content option.map_comp comp_def case_prod_unfold)
next
  fix d now k v ttl d'
  assume "kv_Set (redis_ops s) d now k v ttl = (None, d')" and ok: "ttl_ok ttl"
  then obtain u where u: "redis_call (rk_client s) (rk_timeout s) d (\<lambda>x. rd_SET (rk_client s) x (server_ms now) k v ttl) = (Inr u, d')"
    by (auto simp: redis_ops_def redis_Set_def split: prod.splits)
  have "keys d' = (keys d)(k \<mapsto> (v, Some (server_ms now + ttl div millisecond)))"
    by (rule redis_call_write[OF doc u, where f = "\<lambda>ks. ks(k \<mapsto> (v, Some (server_ms now + ttl div millisecond)))"])
      (erule redis_documentedD(3,4)[OF doc _ ok] | simp)+
  from redis_content_upd(1)[of keys, OF this] expires_in_server[OF ok]
  show "\<exists>e. expires_in now ttl e \<and> redis_content keys d' = (redis_content keys d)(k \<mapsto> (v, e))" by blast
next
  fix d now k n ttl r d'
  assume "kv_Incr (redis_ops s) d now k n ttl = (Inr r, d')" and ok: "ttl_ok ttl"
  then show "\<exists>m. 1 \<le> m \<and> m \<le> tries \<and> incr_effect m now k n ttl (redis_content keys d) r (redis_content keys d')"
    using redis_Incr_effect[OF doc ok, of d now k n "Inr r" d'] by (simp add: redis_ops_def)
next
  fix d now k n ttl e d'
  assume "kv_Incr (redis_ops s) d now k n ttl = (Inl e, d')" and ok: "ttl_ok ttl"
  then show "redis_content keys d' = redis_content keys d \<or>
    (\<exists>m r. 1 \<le> m \<and> m \<le> tries \<and> incr_effect m now k n ttl (redis_content keys d) r (redis_content keys d'))"
    using redis_Incr_effect[OF doc ok, of d now k n "Inl e" d'] by (simp add: redis_ops_def)
next
  fix d k d'
  assume "kv_Delete (redis_ops s) d k = (None, d')"
  then obtain u where u: "redis_call (rk_client s) (rk_timeout s) d (\<lambda>x. rd_DEL (rk_client s) x k) = (Inr u, d')"
    by (auto simp: redis_ops_def redis_Delete_def split: prod.splits)
  have "keys d' = (keys d)(k := None)"
    by (rule redis_call_write[OF doc u, where f = "\<lambda>ks. ks(k := None)"]) (erule redis_documentedD(5,6)[OF doc] | simp)+
  then show "redis_content keys d' = (redis_content keys d)(k := None)" by (rule redis_content_upd)
qed

section \<open>A server for the examples\<close>

type_synonym ex_redis = "(string, string \<times> int option) gomap"

definition ex_live :: "ex_redis \<Rightarrow> int \<Rightarrow> string \<Rightarrow> (string \<times> int option) option" where
  "ex_live d t k = redis_live t (map_of d k)"

definition ex_INCRBY :: "ex_redis \<Rightarrow> int \<Rightarrow> string \<Rightarrow> int \<Rightarrow> (go_error + int) \<times> ex_redis" where
  "ex_INCRBY d t k n =
     (case (case ex_live d t k of None \<Rightarrow> Some (n, None) | Some (v, e) \<Rightarrow> map_option (\<lambda>cur. (cur + n, e)) (ParseInt v)) of
        None \<Rightarrow> (Inl (Foreign ''ERR value is not an integer or out of range'' None), d)
      | Some (v, e) \<Rightarrow>
          if - (2 ^ 63) \<le> v \<and> v < 2 ^ 63 then (Inr v, AList.update k (FormatInt v, e) d)
          else (Inl (Foreign ''ERR increment or decrement would overflow'' None), d))"

definition ex_client :: "ex_redis redis" where
  "ex_client =
     \<lparr>rd_link = (\<lambda>d _. ((0, None), d)),
      rd_GET = (\<lambda>d t k. Inr (map_option fst (ex_live d t k))),
      rd_SET = (\<lambda>d t k v ttl. (Inr (), AList.update k (v, if ttl \<le> 0 then None else Some (t + ttl div millisecond)) d)),
      rd_DEL = (\<lambda>d k. (Inr (), AList.delete k d)),
      rd_INCRBY = ex_INCRBY,
      rd_PTTL = (\<lambda>d t k. pttl_documented t (map_of d k)),
      rd_PEXPIRE = (\<lambda>d t k ms. case ex_live d t k of None \<Rightarrow> d | Some (v, _) \<Rightarrow> AList.update k (v, Some (t + ms)) d),
      rd_Close = (\<lambda>_. None)\<rparr>"

definition ex_store :: "ex_redis redis_store" where
  "ex_store = \<lparr>rk_client = ex_client, rk_timeout = redis_DefaultTimeout\<rparr>"

lemma ex_client_documented: "redis_documented ex_client map_of 1"
  unfolding redis_documented_def
  by (auto simp: ex_client_def ex_live_def ex_INCRBY_def incrby_documented_def pexpire_documented_def ttl_ok_def
      update_conv' delete_conv' split: option.splits)

lemma ex_store_client [simp]: "rk_client ex_store = ex_client"
  by (simp add: ex_store_def)

section \<open>Properties\<close>

text \<open>Claim C15. The Redis store implements the port: over a server and a client that do what is documented of them, reading,
  writing, incrementing and deleting keep the contract the rest of the gateway is proved against, with expiries a counter gets
  when it is created and never later, and increments that a lost reply makes the client repeat counted as the server applied them.\<close>

theorem redis_store_keeps_the_contract:
  assumes "redis_documented (rk_client s) keys tries" "ttl_ok ttl"
  shows "(case redis_Get s d now k of Inl _ \<Rightarrow> True | Inr r \<Rightarrow> r = map_option fst (live now (redis_content keys d k))) \<and>
     (case redis_Set s d now k v ttl of
        (Some _, _) \<Rightarrow> True
      | (None, d') \<Rightarrow> \<exists>e. expires_in now ttl e \<and> redis_content keys d' = (redis_content keys d)(k \<mapsto> (v, e))) \<and>
     (case redis_Incr s d now k delta ttl of
        (Inr n, d') \<Rightarrow> \<exists>m. 1 \<le> m \<and> m \<le> tries \<and> incr_effect m now k delta ttl (redis_content keys d) n (redis_content keys d')
      | (Inl _, d') \<Rightarrow> redis_content keys d' = redis_content keys d \<or>
          (\<exists>m n. 1 \<le> m \<and> m \<le> tries \<and> incr_effect m now k delta ttl (redis_content keys d) n (redis_content keys d'))) \<and>
     (case redis_Delete s d k of
        (Some _, _) \<Rightarrow> True
      | (None, d') \<Rightarrow> redis_content keys d' = (redis_content keys d)(k := None))"
proof -
  note kv = redis_kv_store[OF assms(1)]
  have ops: "kv_Get (redis_ops s) = redis_Get s" "kv_Set (redis_ops s) = redis_Set s" "kv_Incr (redis_ops s) = redis_Incr s"
    "kv_Delete (redis_ops s) = redis_Delete s"
    by (simp_all add: redis_ops_def)
  note laws = kv_store.get_law[OF kv, unfolded ops] kv_store.set_law[OF kv _ assms(2), unfolded ops] kv_store.delete_law[OF kv, unfolded ops]
    kv_store.incr_law[OF kv _ assms(2), unfolded ops] kv_store.incr_error_law[OF kv _ assms(2), unfolded ops]
  show ?thesis
  proof (intro conjI)
    show "case redis_Get s d now k of Inl _ \<Rightarrow> True | Inr r \<Rightarrow> r = map_option fst (live now (redis_content keys d k))"
      by (simp add: laws(1) split: sum.split)
    show "case redis_Set s d now k v ttl of (Some _, _) \<Rightarrow> True
      | (None, d') \<Rightarrow> \<exists>e. expires_in now ttl e \<and> redis_content keys d' = (redis_content keys d)(k \<mapsto> (v, e))"
      using laws(2)[of d now k v] by (simp split: prod.split option.split)
    show "case redis_Delete s d k of (Some _, _) \<Rightarrow> True | (None, d') \<Rightarrow> redis_content keys d' = (redis_content keys d)(k := None)"
      using laws(3)[of d k] by (simp split: prod.split option.split)
    show "case redis_Incr s d now k delta ttl of
        (Inr n, d') \<Rightarrow> \<exists>m. 1 \<le> m \<and> m \<le> tries \<and> incr_effect m now k delta ttl (redis_content keys d) n (redis_content keys d')
      | (Inl _, d') \<Rightarrow> redis_content keys d' = redis_content keys d \<or>
          (\<exists>m n. 1 \<le> m \<and> m \<le> tries \<and> incr_effect m now k delta ttl (redis_content keys d) n (redis_content keys d'))"
      using laws(4,5)[of d now k delta] by (cases "redis_Incr s d now k delta ttl"; cases "fst (redis_Incr s d now k delta ttl)") auto
  qed
qed

theorem redis_store_keeps_the_contract_witness:
  "ttl_ok minute \<and> redis_documented (rk_client ex_store) map_of 1 \<and>
   (case redis_Incr ex_store [] 0 ''k'' 3 minute of
      (Inl _, _) \<Rightarrow> False
    | (Inr n, d') \<Rightarrow> n = 3 \<and> (\<exists>m. 1 \<le> m \<and> m \<le> 1 \<and> incr_effect m 0 ''k'' 3 minute (redis_content map_of []) n (redis_content map_of d')))"
proof -
  have t: "ttl_ok minute" and r: "redis_documented (rk_client ex_store) map_of 1" using ex_client_documented by (simp_all add: ttl_ok_def)
  have "case redis_Incr ex_store [] 0 ''k'' 3 minute of (Inl _, _) \<Rightarrow> False | (Inr n, _) \<Rightarrow> n = 3" by code_simp
  with redis_store_keeps_the_contract[OF r t, where d = "[]" and now = 0 and k = "''k''" and v = "''''" and delta = 3] t r
  show ?thesis by (simp split: prod.splits sum.splits)
qed

text \<open>Claim C5. A limit shared by a fleet through Redis is never exceeded: however the workers' takes, refills, leases and
  grants interleave within a window, and whatever replies are lost and commands repeated, the requests admitted are at most the
  limit, and one lease more for each call to the store that failed, which the limiter lets pass on purpose.\<close>

theorem redis_fleet_stays_within_the_limit:
  assumes "redis_documented (rk_client s) keys tries" "keys d key = None"
    "fleet_run (redis_ops s) lease limit key T n (fleet_start d m) f"
    "0 < lease" "0 \<le> limit" "int n * (int tries * lease) < 2 ^ 63"
  shows "f_admitted f \<le> limit + lease * f_failed f"
  using kv_store.fleet_from_fresh_key[OF redis_kv_store[OF assms(1)] _ assms(3-6)] assms(2)
  by (simp add: redis_content_def)

lemma ex_redis_take: "case limiter_take (redis_ops ex_store) (limiter_New (Some 5)) [] 0 ''k'' 10 of (ok, l, s) \<Rightarrow> ok"
  by code_simp

theorem redis_fleet_stays_within_the_limit_witness:
  "\<exists>f :: ex_redis fleet. f_admitted f = 1 \<and> f_admitted f \<le> 10 + 5 * f_failed f"
proof -
  obtain l s where t: "limiter_take (redis_ops ex_store) (limiter_New (Some 5)) (f_store (fleet_start [] 1)) 0 ''k'' 10 = (True, l, s)"
    using ex_redis_take by (auto simp: fleet_start_def split: prod.splits)
  have w: "0 < length (f_buckets (fleet_start [] 1 :: ex_redis fleet))"
    "f_buckets (fleet_start [] 1 :: ex_redis fleet) ! 0 = get_bucket (limiter_New (Some 5)) ''k''"
    by (simp_all add: fleet_start_def get_bucket_def limiter_New_def)
  obtain n g where g: "n \<le> 5" "fleet_run (redis_ops ex_store) 5 10 ''k'' 0 n (fleet_start [] 1) g" "f_admitted g = 1"
    using limiter_take_refines[OF t w, of 0] by (auto simp: Window_def limiter_New_def fleet_start_def)
  from redis_fleet_stays_within_the_limit[of ex_store map_of 1 "[]" "''k''" 5 10 0 n 1 g] g ex_client_documented
  show ?thesis by (intro exI[of _ g]) simp
qed

end
