(* ===== verification/KV_Suite.thy ===== *)
theory KV_Suite
  imports Redis_Store Admission
begin

text \<open>
  The battery every store has to pass, \<open>RunKVStoreSuite\<close> of \<open>dataplane/internal/contracts/kvstore.go\<close>, over any
  implementation of the port. The clock of a target stands still within a case except where the case advances it. It is shown
  that the battery accepts every store that keeps the contract and answers, in particular the in-process store and Redis, which
  the limiter must not be able to tell apart.
\<close>

section \<open>The cases\<close>

text \<open>
  \<open>kt_GetCancelled\<close> is a read under a context that is already cancelled, which the operations of the port do not model
  otherwise.
\<close>

record 's kv_target =
  kt_Store :: 's
  kt_Prefix :: string
  kt_Now :: gotime
  kt_GetCancelled :: "string \<Rightarrow> go_error + string option"

definition missing_case :: "'s kv_ops \<Rightarrow> 's kv_target \<Rightarrow> message list" where
  "missing_case ops t =
     (case kv_Get ops (kt_Store t) (kt_Now t) (kt_Prefix t @ ''missing'') of
        Inl e \<Rightarrow> [Msg ''Get: %v'' []]
      | Inr r \<Rightarrow> require (r = None) ''got (%q, %v), want absent'')"

definition set_case :: "'s kv_ops \<Rightarrow> 's kv_target \<Rightarrow> message list" where
  "set_case ops t =
     (let key = kt_Prefix t @ ''set'' in
      case kv_Set ops (kt_Store t) (kt_Now t) key ''value'' minute of
        (Some e, s) \<Rightarrow> [Msg ''Set: %v'' []]
      | (None, s) \<Rightarrow>
          (case kv_Get ops s (kt_Now t) key of
             Inr (Some v) \<Rightarrow> require (v = ''value'') ''value = %q''
           | _ \<Rightarrow> [Msg ''Get = (%q, %v, %v)'' []]))"

fun accumulate :: "'s kv_ops \<Rightarrow> gotime \<Rightarrow> string \<Rightarrow> int list \<Rightarrow> 's \<Rightarrow> message list" where
  "accumulate ops now key [] s = []"
| "accumulate ops now key (i # is) s =
     (case kv_Incr ops s now key 5 minute of
        (Inl e, s') \<Rightarrow> [Msg ''Incr: %v'' []]
      | (Inr n, s') \<Rightarrow>
          if n \<noteq> i * 5 then [Msg ''Incr returned %d, want the running total %d'' [AInt n, AInt (i * 5)]]
          else accumulate ops now key is s')"

definition incr_case :: "'s kv_ops \<Rightarrow> 's kv_target \<Rightarrow> message list" where
  "incr_case ops t = accumulate ops (kt_Now t) (kt_Prefix t @ ''incr'') [1, 2, 3] (kt_Store t)"

text \<open>The counter read back as decimal text; the last two arguments are what a failure says.\<close>

definition read_counter :: "'s kv_ops \<Rightarrow> gotime \<Rightarrow> string \<Rightarrow> 's \<Rightarrow> int \<Rightarrow> string \<Rightarrow> string \<Rightarrow> message list" where
  "read_counter ops now key s want unreadable wrong =
     (case kv_Get ops s now key of
        Inr (Some raw) \<Rightarrow>
          (case ParseInt raw of
             None \<Rightarrow> [Msg unreadable []]
           | Some n \<Rightarrow> require (n = want) wrong)
      | _ \<Rightarrow> [Msg ''Get = (%q, %v, %v)'' []])"

definition text_case :: "'s kv_ops \<Rightarrow> 's kv_target \<Rightarrow> message list" where
  "text_case ops t =
     (let key = kt_Prefix t @ ''text'' in
      case kv_Incr ops (kt_Store t) (kt_Now t) key 42 minute of
        (Inl e, s) \<Rightarrow> [Msg ''Incr: %v'' []]
      | (Inr _, s) \<Rightarrow>
          read_counter ops (kt_Now t) key s 42 ''a counter must be readable as decimal text, got %q'' ''parsed %d, want 42'')"

definition advance :: "gotime \<Rightarrow> duration \<Rightarrow> gotime" where
  "advance now d = now + d"

definition ttl_case :: "'s kv_ops \<Rightarrow> 's kv_target \<Rightarrow> message list" where
  "ttl_case ops t =
     (let key = kt_Prefix t @ ''ttl''; life = 2 * second in
      case kv_Incr ops (kt_Store t) (kt_Now t) key 1 life of
        (Inl e, s) \<Rightarrow> [Msg ''Incr: %v'' []]
      | (Inr _, s) \<Rightarrow>
          (case kv_Incr ops s (kt_Now t) key 1 (60 * minute) of
             (Inl e, s') \<Rightarrow> [Msg ''Incr: %v'' []]
           | (Inr _, s') \<Rightarrow>
               (case kv_Get ops s' (advance (kt_Now t) (life + second)) key of
                  Inl e \<Rightarrow> [Msg ''Get: %v'' []]
                | Inr r \<Rightarrow> require (r = None) ''the key outlived its original TTL, so a busy window would never roll'')))"

definition delete_case :: "'s kv_ops \<Rightarrow> 's kv_target \<Rightarrow> message list" where
  "delete_case ops t =
     (let key = kt_Prefix t @ ''delete'' in
      case kv_Set ops (kt_Store t) (kt_Now t) key ''v'' minute of
        (Some e, s) \<Rightarrow> [Msg ''Set: %v'' []]
      | (None, s) \<Rightarrow>
          (case kv_Delete ops s key of
             (Some e, s1) \<Rightarrow> [Msg ''Delete: %v'' []]
           | (None, s1) \<Rightarrow>
               if (case kv_Get ops s1 (kt_Now t) key of Inr (Some _) \<Rightarrow> True | _ \<Rightarrow> False)
               then [Msg ''the key survived deletion'' []]
               else (case kv_Delete ops s1 key of
                   (Some e, _) \<Rightarrow> [Msg ''second Delete: %v'' []]
                 | (None, _) \<Rightarrow> [])))"

text \<open>
  The goroutines all make the same call, so an interleaving of theirs is a sequence of as many calls; an error is recorded
  and the sequence goes on.
\<close>

fun increments :: "'s kv_ops \<Rightarrow> gotime \<Rightarrow> string \<Rightarrow> nat \<Rightarrow> 's \<Rightarrow> message list \<times> 's" where
  "increments ops now key 0 s = ([], s)"
| "increments ops now key (Suc n) s =
     (case kv_Incr ops s now key 1 minute of
        (Inl e, s') \<Rightarrow> (case increments ops now key n s' of (ms, s'') \<Rightarrow> (Msg ''%v'' [] # ms, s''))
      | (Inr _, s') \<Rightarrow> increments ops now key n s')"

definition atomic_case :: "'s kv_ops \<Rightarrow> 's kv_target \<Rightarrow> message list" where
  "atomic_case ops t =
     (let key = kt_Prefix t @ ''atomic''; goroutines = 16; each = 50 in
      case increments ops (kt_Now t) key (goroutines * each) (kt_Store t) of
        (ms, s) \<Rightarrow> ms @ read_counter ops (kt_Now t) key s (int (goroutines * each)) ''parsing the counter: %v''
                         ''counter = %d, want %d; increments were lost'')"

definition kv_cancelled_case :: "'s kv_target \<Rightarrow> message list" where
  "kv_cancelled_case t =
     (case kt_GetCancelled t (kt_Prefix t @ ''cancelled'') of
        Inr _ \<Rightarrow> []
      | Inl e \<Rightarrow> require (\<not> (\<not> errors_Is e ctx_canceled \<and> CodeOf (Some e) = CodeNone)) ''Get returned an unclassified error: %v'')"

definition RunKVStoreSuite :: "'s kv_ops \<Rightarrow> (nat \<Rightarrow> 's kv_target) \<Rightarrow> report" where
  \<comment> \<open>The factory builds a target for each case.\<close>
  "RunKVStoreSuite ops newStore =
     (let entry = (\<lambda>name failures. \<lparr>cc_Name = name, cc_Failures = failures, cc_Logs = []\<rparr>)
      in [entry ''a missing key is absent, not an error'' (missing_case ops (newStore 0)),
          entry ''set then get'' (set_case ops (newStore 1)),
          entry ''incr creates and accumulates'' (incr_case ops (newStore 2)),
          entry ''a counter reads back as its decimal text'' (text_case ops (newStore 3)),
          entry ''incr does not extend an existing expiry'' (ttl_case ops (newStore 4)),
          entry ''delete removes'' (delete_case ops (newStore 5)),
          entry ''incr is atomic under concurrency'' (atomic_case ops (newStore 6)),
          entry ''a cancelled context is honoured'' (kv_cancelled_case (newStore 7))])"

section \<open>Stores that answer\<close>

text \<open>The only errors are those of an increment that has no result: of something that is not a number, or past 64 bits.\<close>

definition int64 :: "int \<Rightarrow> bool" where
  "int64 n = (- (2 ^ 63) \<le> n \<and> n < 2 ^ 63)"

definition no_sum :: "int \<Rightarrow> (string \<times> 'e) option \<Rightarrow> bool" where
  "no_sum d c = (case c of None \<Rightarrow> False | Some (v, _) \<Rightarrow> (case ParseInt v of None \<Rightarrow> True | Some n \<Rightarrow> \<not> int64 (n + d)))"

definition answering :: "'s kv_ops \<Rightarrow> ('s \<Rightarrow> kv_content) \<Rightarrow> bool" where
  "answering ops content =
     ((\<forall>s now k. \<exists>r. kv_Get ops s now k = Inr r) \<and>
      (\<forall>s now k v ttl. fst (kv_Set ops s now k v ttl) = None) \<and>
      (\<forall>s k. fst (kv_Delete ops s k) = None) \<and>
      (\<forall>s now k d ttl. int64 d \<longrightarrow>
         (case fst (kv_Incr ops s now k d ttl) of Inr _ \<Rightarrow> True | Inl _ \<Rightarrow> no_sum d (live now (content s k)))))"

definition fresh_target :: "('s \<Rightarrow> kv_content) \<Rightarrow> 's kv_target \<Rightarrow> bool" where
  \<comment> \<open>Nothing under the prefix, a clock past its zero, and errors that carry a code.\<close>
  "fresh_target content t =
     ((\<forall>x. content (kt_Store t) (kt_Prefix t @ x) = None) \<and> 0 \<le> kt_Now t \<and>
      (\<forall>k. case kt_GetCancelled t k of Inr _ \<Rightarrow> True | Inl e \<Rightarrow> errors_Is e ctx_canceled \<or> CodeOf (Some e) \<noteq> CodeNone))"

section \<open>Every store that keeps the contract and answers passes\<close>

lemma answeringD:
  assumes "answering ops content"
  shows "\<exists>r. kv_Get ops s now k = Inr r" "\<exists>s'. kv_Set ops s now k v ttl = (None, s')" "\<exists>s'. kv_Delete ops s k = (None, s')"
    and "kv_Incr ops s now k d ttl = (Inl x, s') \<Longrightarrow> int64 d \<Longrightarrow> no_sum d (live now (content s k))"
proof -
  note a = assms[unfolded answering_def]
  show "\<exists>r. kv_Get ops s now k = Inr r" using a by simp
  show "\<exists>s'. kv_Set ops s now k v ttl = (None, s')" using a by (metis prod.collapse)
  show "\<exists>s'. kv_Delete ops s k = (None, s')" using a by (metis prod.collapse)
  show "kv_Incr ops s now k d ttl = (Inl x, s') \<Longrightarrow> int64 d \<Longrightarrow> no_sum d (live now (content s k))"
    using a[THEN conjunct2, THEN conjunct2, THEN conjunct2, rule_format, where s = s and now = now and k = k and d = d and ttl = ttl]
    by simp
qed

lemma ttl_ok_suite [simp]: "ttl_ok minute" "ttl_ok (60 * minute)" "ttl_ok (2 * second)"
  by (simp_all add: ttl_ok_def)

context kv_store
begin

lemma get_found:
  assumes "answering ops content" "content s k = Some (v, e)" "now \<le> e"
  shows "kv_Get ops s now k = Inr (Some v)"
  using answeringD(1)[OF assms(1), of s now k] get_law[of s now k] assms(2,3) by (auto simp: live_def)

lemma get_gone:
  assumes "answering ops content" "case content s k of None \<Rightarrow> True | Some (_, e) \<Rightarrow> e \<noteq> 0 \<and> e < now"
  shows "kv_Get ops s now k = Inr None"
  using answeringD(1)[OF assms(1), of s now k] get_law[of s now k] assms(2) by (auto simp: live_def split: option.splits)

lemma incr_fresh:
  assumes "answering ops content" "tries = 1" "content s k = None" "0 \<le> d" "d < 2 ^ 63" "ttl_ok ttl"
  obtains s' e where "kv_Incr ops s now k d ttl = (Inr d, s')" "expires_in now ttl e"
    "content s' = (content s)(k \<mapsto> (FormatInt d, e))"
proof -
  obtain r s' where i: "kv_Incr ops s now k d ttl = (r, s')" by fastforce
  with answeringD(4)[OF assms(1), of s now k d ttl _ s'] assms(3-5) obtain n where n: "r = Inr n"
    by (cases r) (auto simp: live_def no_sum_def int64_def)
  from incr_law[OF i[unfolded n] assms(6)] assms(2) have "incr_effect 1 now k d ttl (content s) n (content s')"
    by (metis le_antisym)
  with assms(3-5) that i n show ?thesis by (auto simp: incr_effect_def live_def i64_id_nonneg)
qed

lemma incr_more:
  assumes "answering ops content" "tries = 1" "content s k = Some (FormatInt n, e)" "now \<le> e" "e \<noteq> 0"
    "0 \<le> n" "0 \<le> d" "n + d < 2 ^ 63" "ttl_ok ttl"
  obtains s' where "kv_Incr ops s now k d ttl = (Inr (n + d), s')"
    "content s' = (content s)(k \<mapsto> (FormatInt (n + d), e))"
proof -
  have p: "ParseInt (FormatInt n) = Some n" using assms(6-8) by (intro ParseInt_FormatInt) auto
  obtain r s' where i: "kv_Incr ops s now k d ttl = (r, s')" by fastforce
  with answeringD(4)[OF assms(1), of s now k d ttl _ s'] assms(3-8) p obtain v where v: "r = Inr v"
    by (cases r) (auto simp: live_def no_sum_def int64_def)
  from incr_law[OF i[unfolded v] assms(9)] assms(2) have "incr_effect 1 now k d ttl (content s) v (content s')"
    by (metis le_antisym)
  with assms(3-8) p that i v show ?thesis by (auto simp: incr_effect_def live_def i64_id_nonneg)
qed

lemma set_stored:
  assumes "answering ops content" "ttl_ok ttl"
  obtains s' e where "kv_Set ops s now k v ttl = (None, s')" "expires_in now ttl e" "content s' = (content s)(k \<mapsto> (v, e))"
  using answeringD(2)[OF assms(1), of s now k v ttl] set_law[OF _ assms(2)] by metis

lemma incr_again:
  assumes "answering ops content" "tries = 1" "content s k = Some (FormatInt n, e)" "now \<le> e" "e \<noteq> 0" "0 \<le> n" "n + int m < 2 ^ 63"
  shows "\<exists>s'. increments ops now k m s = ([], s') \<and> content s' k = Some (FormatInt (n + int m), e)"
  using assms(3,6,7)
proof (induction m arbitrary: s n)
  case (Suc m)
  obtain s' where s': "kv_Incr ops s now k 1 minute = (Inr (n + 1), s')" "content s' = (content s)(k \<mapsto> (FormatInt (n + 1), e))"
    using incr_more[OF assms(1,2) Suc.prems(1) assms(4,5) Suc.prems(2), of 1 minute] Suc.prems(3) by auto
  with Suc.IH[of s' "n + 1"] Suc.prems show ?case by (auto simp: algebra_simps)
qed simp

lemma missing_passes:
  assumes "answering ops content" "fresh_target content t"
  shows "missing_case ops t = []"
  using get_gone[OF assms(1), where s = "kt_Store t" and k = "kt_Prefix t @ ''missing''" and now = "kt_Now t"] assms(2)
  by (simp add: missing_case_def require_def fresh_target_def)

lemma set_passes:
  assumes "answering ops content"
  shows "set_case ops t = []"
proof -
  obtain s e where "kv_Set ops (kt_Store t) (kt_Now t) (kt_Prefix t @ ''set'') ''value'' minute = (None, s)"
    "expires_in (kt_Now t) minute e" "content s = (content (kt_Store t))(kt_Prefix t @ ''set'' \<mapsto> (''value'', e))"
    by (rule set_stored[OF assms ttl_ok_suite(1)])
  with get_found[OF assms, of s "kt_Prefix t @ ''set''" "''value''" e "kt_Now t"] show ?thesis
    by (simp add: set_case_def require_def expires_in_def)
qed

lemma expiry_bounds:
  assumes "expires_in now ttl e" "0 < ttl" "0 \<le> now"
  shows "now \<le> e" "e \<noteq> 0"
  using assms by (auto simp: expires_in_def)

lemma incr_passes:
  assumes "answering ops content" "tries = 1" "fresh_target content t"
  shows "incr_case ops t = []"
proof -
  let ?k = "kt_Prefix t @ ''incr''" and ?now = "kt_Now t"
  have now: "0 \<le> ?now" and absent: "content (kt_Store t) ?k = None" using assms(3) by (auto simp: fresh_target_def)
  obtain s1 e where 1: "kv_Incr ops (kt_Store t) ?now ?k 5 minute = (Inr 5, s1)" "expires_in ?now minute e"
    "content s1 = (content (kt_Store t))(?k \<mapsto> (FormatInt 5, e))"
    by (rule incr_fresh[OF assms(1,2) absent _ _ ttl_ok_suite(1), of 5]) simp_all
  have e: "?now \<le> e" "e \<noteq> 0" by (rule expiry_bounds[OF 1(2) _ now]; simp)+
  obtain s2 where 2: "kv_Incr ops s1 ?now ?k 5 minute = (Inr 10, s2)" "content s2 = (content s1)(?k \<mapsto> (FormatInt 10, e))"
    by (rule incr_more[OF assms(1,2) _ e _ _ _ ttl_ok_suite(1), of s1 ?k 5 5]) (simp_all add: 1(3))
  obtain s3 where "kv_Incr ops s2 ?now ?k 5 minute = (Inr 15, s3)"
    by (rule incr_more[OF assms(1,2) _ e _ _ _ ttl_ok_suite(1), of s2 ?k 10 5]) (simp_all add: 2(2))
  with 1 2 show ?thesis by (simp add: incr_case_def)
qed

lemma text_passes:
  assumes "answering ops content" "tries = 1" "fresh_target content t"
  shows "text_case ops t = []"
proof -
  let ?k = "kt_Prefix t @ ''text''" and ?now = "kt_Now t"
  have absent: "content (kt_Store t) ?k = None" using assms(3) by (auto simp: fresh_target_def)
  obtain s e where 1: "kv_Incr ops (kt_Store t) ?now ?k 42 minute = (Inr 42, s)" "expires_in ?now minute e"
    "content s = (content (kt_Store t))(?k \<mapsto> (FormatInt 42, e))"
    by (rule incr_fresh[OF assms(1,2) absent _ _ ttl_ok_suite(1), of 42]) simp_all
  moreover have "ParseInt (FormatInt 42) = Some 42" by (rule ParseInt_FormatInt) simp_all
  ultimately show ?thesis using get_found[OF assms(1), of s ?k "FormatInt 42" e ?now]
    by (simp add: text_case_def read_counter_def require_def expires_in_def)
qed

lemma ttl_passes:
  assumes "answering ops content" "tries = 1" "fresh_target content t"
  shows "ttl_case ops t = []"
proof -
  let ?k = "kt_Prefix t @ ''ttl''" and ?now = "kt_Now t"
  have now: "0 \<le> ?now" and absent: "content (kt_Store t) ?k = None" using assms(3) by (auto simp: fresh_target_def)
  obtain s1 e where 1: "kv_Incr ops (kt_Store t) ?now ?k 1 (2 * second) = (Inr 1, s1)" "expires_in ?now (2 * second) e"
    "content s1 = (content (kt_Store t))(?k \<mapsto> (FormatInt 1, e))"
    by (rule incr_fresh[OF assms(1,2) absent _ _ ttl_ok_suite(3), of 1]) simp_all
  have e: "?now \<le> e" "e \<noteq> 0" by (rule expiry_bounds[OF 1(2) _ now]; simp)+
  obtain s2 where 2: "kv_Incr ops s1 ?now ?k 1 (60 * minute) = (Inr 2, s2)" "content s2 = (content s1)(?k \<mapsto> (FormatInt 2, e))"
    by (rule incr_more[OF assms(1,2) _ e _ _ _ ttl_ok_suite(2), of s1 ?k 1 1]) (simp_all add: 1(3))
  have "e < advance ?now (2 * second + second)" using 1(2) by (simp add: expires_in_def advance_def)
  with 2(2) e(2) get_gone[OF assms(1), where s = s2 and k = ?k and now = "advance ?now (2 * second + second)"]
  have "kv_Get ops s2 (advance ?now (2 * second + second)) ?k = Inr None" by simp
  with 1(1) 2(1) show ?thesis by (simp add: ttl_case_def require_def Let_def)
qed

lemma delete_passes:
  assumes "answering ops content"
  shows "delete_case ops t = []"
proof -
  let ?k = "kt_Prefix t @ ''delete''" and ?now = "kt_Now t"
  obtain s where s: "kv_Set ops (kt_Store t) ?now ?k ''v'' minute = (None, s)" using answeringD(2)[OF assms] by blast
  obtain s1 where s1: "kv_Delete ops s ?k = (None, s1)" using answeringD(3)[OF assms] by blast
  obtain s2 where s2: "kv_Delete ops s1 ?k = (None, s2)" using answeringD(3)[OF assms] by blast
  have "kv_Get ops s1 ?now ?k = Inr None"
    using delete_law[OF s1] get_gone[OF assms, where s = s1 and k = ?k and now = ?now] by simp
  with s s1 s2 show ?thesis by (simp add: delete_case_def Let_def)
qed

lemma atomic_passes:
  assumes "answering ops content" "tries = 1" "fresh_target content t"
  shows "atomic_case ops t = []"
proof -
  let ?k = "kt_Prefix t @ ''atomic''" and ?now = "kt_Now t"
  have now: "0 \<le> ?now" and absent: "content (kt_Store t) ?k = None" using assms(3) by (auto simp: fresh_target_def)
  obtain s1 e where 1: "kv_Incr ops (kt_Store t) ?now ?k 1 minute = (Inr 1, s1)" "expires_in ?now minute e"
    "content s1 = (content (kt_Store t))(?k \<mapsto> (FormatInt 1, e))"
    by (rule incr_fresh[OF assms(1,2) absent _ _ ttl_ok_suite(1), of 1]) simp_all
  have e: "?now \<le> e" "e \<noteq> 0" by (rule expiry_bounds[OF 1(2) _ now]; simp)+
  obtain s2 where 2: "increments ops ?now ?k 799 s1 = ([], s2)" "content s2 ?k = Some (FormatInt 800, e)"
    using incr_again[OF assms(1,2) _ e, of s1 ?k 1 799] 1(3) by auto
  have "increments ops ?now ?k (Suc 799) (kt_Store t) = ([], s2)" using 1(1) 2(1) by (simp only: increments.simps) simp
  then have i: "increments ops ?now ?k (16 * 50) (kt_Store t) = ([], s2)" by simp
  have p: "ParseInt (FormatInt 800) = Some 800" by (rule ParseInt_FormatInt) simp_all
  show ?thesis using get_found[OF assms(1) 2(2) e(1)] unfolding atomic_case_def Let_def i
    by (simp add: read_counter_def require_def p)
qed

lemma cancelled_passes:
  assumes "fresh_target content t"
  shows "kv_cancelled_case t = []"
  using assms[unfolded fresh_target_def, THEN conjunct2, THEN conjunct2, rule_format, of "kt_Prefix t @ ''cancelled''"]
  by (auto simp: kv_cancelled_case_def require_def split: sum.splits)

lemma suite_passes:
  assumes "answering ops content" "tries = 1" "\<And>n. fresh_target content (newStore n)"
  shows "report_Passed (RunKVStoreSuite ops newStore)"
  using assms missing_passes set_passes incr_passes text_passes ttl_passes delete_passes atomic_passes cancelled_passes
  by (simp add: report_Passed_def RunKVStoreSuite_def case_Passed_def Let_def)

end

section \<open>The two stores\<close>

lemma mem_answering: "answering memkv_ops mem_content"
  unfolding answering_def
  by (auto simp: memkv_ops_def mem_Get_def mem_Set_def mem_Delete_def mem_Incr_def live_mem_content mem_parseInt_def Let_def no_sum_def
      split: option.splits sum.splits if_splits)

text \<open>A Redis that is reached at once and whose only errors are those of \<open>INCRBY\<close>.\<close>

definition redis_healthy :: "'d redis \<Rightarrow> ('d \<Rightarrow> redis_keys) \<Rightarrow> bool" where
  "redis_healthy rd keys =
     ((\<forall>d timeout. fst (rd_link rd d timeout) = (0, None)) \<and>
      (\<forall>d t k. \<exists>r. rd_GET rd d t k = Inr r) \<and>
      (\<forall>d t k v ttl. \<exists>d'. rd_SET rd d t k v ttl = (Inr (), d')) \<and>
      (\<forall>d k. \<exists>d'. rd_DEL rd d k = (Inr (), d')) \<and>
      (\<forall>d t k n. int64 n \<longrightarrow>
         (case fst (rd_INCRBY rd d t k n) of Inr _ \<Rightarrow> True | Inl _ \<Rightarrow> no_sum n (redis_live t (keys d k)))))"

lemma redis_call_healthy:
  assumes "redis_documented rd keys tries" "redis_healthy rd keys"
  obtains d1 where "\<And>cmd. redis_call rd timeout d cmd = (cmd d1 :: (go_error + 'a) \<times> _)" "keys d1 = keys d"
proof -
  obtain p d1 where l: "rd_link rd d timeout = (p, d1)" by fastforce
  moreover have "fst (rd_link rd d timeout) = (0, None)" using assms(2) by (simp add: redis_healthy_def)
  ultimately have l: "rd_link rd d timeout = ((0, None), d1)" by simp
  show ?thesis
    by (rule that[of d1]) (use redis_documentedD(1)[OF assms(1) l] in \<open>simp_all add: redis_call_def l\<close>)
qed

lemma redis_answering:
  assumes doc: "redis_documented (rk_client s) keys tries" and up: "redis_healthy (rk_client s) keys"
  shows "answering (redis_ops s) (redis_content keys)"
  unfolding answering_def
proof (intro conjI allI)
  note h = up[unfolded redis_healthy_def]
  show "\<exists>r. kv_Get (redis_ops s) d now k = Inr r" for d now k
  proof (rule redis_call_healthy[OF doc up, of "rk_timeout s" d])
    fix d1 assume c: "\<And>cmd. redis_call (rk_client s) (rk_timeout s) d cmd = (cmd d1 :: (go_error + string option) \<times> _)"
    obtain r where "rd_GET (rk_client s) d1 (server_ms now) k = Inr r" using h by blast
    then show ?thesis by (simp add: redis_ops_def redis_Get_def c)
  qed
  show "fst (kv_Set (redis_ops s) d now k v ttl) = None" for d now k v ttl
  proof (rule redis_call_healthy[OF doc up, of "rk_timeout s" d])
    fix d1 assume c: "\<And>cmd. redis_call (rk_client s) (rk_timeout s) d cmd = (cmd d1 :: (go_error + unit) \<times> _)"
    obtain d' where "rd_SET (rk_client s) d1 (server_ms now) k v ttl = (Inr (), d')" using h by blast
    then show ?thesis by (simp add: redis_ops_def redis_Set_def c)
  qed
  show "fst (kv_Delete (redis_ops s) d k) = None" for d k
  proof (rule redis_call_healthy[OF doc up, of "rk_timeout s" d])
    fix d1 assume c: "\<And>cmd. redis_call (rk_client s) (rk_timeout s) d cmd = (cmd d1 :: (go_error + unit) \<times> _)"
    obtain d' where "rd_DEL (rk_client s) d1 k = (Inr (), d')" using h by blast
    then show ?thesis by (simp add: redis_ops_def redis_Delete_def c)
  qed
  show "int64 n \<longrightarrow> (case fst (kv_Incr (redis_ops s) d now k n ttl) of Inr _ \<Rightarrow> True
    | Inl _ \<Rightarrow> no_sum n (live now (redis_content keys d k)))" for d now k n ttl
  proof (rule redis_call_healthy[OF doc up, of "rk_timeout s" d], intro impI)
    fix d1 assume c: "\<And>cmd. redis_call (rk_client s) (rk_timeout s) d cmd = (cmd d1 :: (go_error + int) \<times> _)"
      and k: "keys d1 = keys d" and n: "int64 n"
    have "case fst (rd_INCRBY (rk_client s) d1 (server_ms now) k n) of Inr _ \<Rightarrow> True
      | Inl _ \<Rightarrow> no_sum n (redis_live (server_ms now) (keys d k))"
      using h n unfolding k[symmetric] by blast
    then show "case fst (kv_Incr (redis_ops s) d now k n ttl) of Inr _ \<Rightarrow> True
      | Inl _ \<Rightarrow> no_sum n (live now (redis_content keys d k))"
      by (auto simp: redis_ops_def redis_Incr_def c incrWithTTL_def redis_unavailable_def live_redis_content no_sum_def
          split: prod.splits sum.splits option.splits)
  qed
qed

section \<open>Properties\<close>

text \<open>Claim C23. The two stores are interchangeable as far as their battery can tell: the in-process store passes every case
  of \<open>RunKVStoreSuite\<close>, and so does the Redis store over a server that does what is documented and is reached, each on targets
  that start with nothing under their prefix. The battery accepts them for the contract alone, so every other store that keeps
  it and answers passes as well.\<close>

theorem both_stores_pass_the_suite:
  assumes "\<And>n. fresh_target mem_content (mems n)" "\<And>n. fresh_target (redis_content keys) (rediss n)"
    "redis_documented (rk_client s) keys 1" "redis_healthy (rk_client s) keys"
  shows "report_Passed (RunKVStoreSuite memkv_ops mems) \<and> report_Passed (RunKVStoreSuite (redis_ops s) rediss)"
  using mem.suite_passes[OF mem_answering refl, of mems] assms(1)
    kv_store.suite_passes[OF redis_kv_store[OF assms(3)] redis_answering[OF assms(3,4)] refl, of rediss] assms(2)
  by blast

lemma ex_client_healthy: "redis_healthy ex_client map_of"
  unfolding redis_healthy_def
  by (auto simp: ex_client_def ex_INCRBY_def ex_live_def no_sum_def int64_def split: option.splits sum.splits if_splits)

definition ex_mem_target :: "nat \<Rightarrow> mem_store kv_target" where
  "ex_mem_target n = \<lparr>kt_Store = mem_New, kt_Prefix = ''p'', kt_Now = second, kt_GetCancelled = (\<lambda>_. Inr None)\<rparr>"

definition ex_redis_target :: "nat \<Rightarrow> ex_redis kv_target" where
  "ex_redis_target n = \<lparr>kt_Store = [], kt_Prefix = ''p'', kt_Now = second, kt_GetCancelled = (\<lambda>_. Inl ctx_canceled)\<rparr>"

lemma ex_targets_fresh:
  "fresh_target mem_content (ex_mem_target n)" "fresh_target (redis_content map_of) (ex_redis_target n)"
  by (simp_all add: fresh_target_def ex_mem_target_def ex_redis_target_def mem_content_def mem_New_def redis_content_def
      ctx_canceled_def)

theorem both_stores_pass_the_suite_witness:
  "report_Passed (RunKVStoreSuite memkv_ops ex_mem_target) \<and> report_Passed (RunKVStoreSuite (redis_ops ex_store) ex_redis_target)"
  using both_stores_pass_the_suite[of ex_mem_target map_of ex_redis_target ex_store] ex_targets_fresh ex_client_documented ex_client_healthy
  by simp

end
