(* ===== verification/Redis_Stream.thy ===== *)
theory Redis_Stream
  imports Telemetry "HOL-Library.Word"
begin

text \<open>
  \<open>dataplane/internal/adapters/redisstream\<close>: the telemetry sink that encodes events for the accounting consumer and appends
  each to the Redis stream of its kind. The protobuf encoder and the server behind the pipeline are parameters. The sink is
  composed with the emitter: what the streams hold after any run of the emitter in which no batch failed.
\<close>

section \<open>The encoded events\<close>

record pb_stage_timing =
  pbs_Name :: string
  pbs_DurationMs :: "32 word"
  pbs_Outcome :: string

record pb_token_usage =
  pbt_Input :: int
  pbt_CachedInput :: int
  pbt_CacheWrite :: int
  pbt_Output :: int

record pb_usage_event =
  pbu_RequestId :: string
  pbu_TimestampUnixMs :: int
  pbu_Tenant :: string
  pbu_KeyId :: string
  pbu_Tier :: string
  pbu_Deployment :: string
  pbu_BaseModel :: string
  pbu_AdapterId :: string
  pbu_Shadow :: bool
  pbu_Stages :: "pb_stage_timing list"
  pbu_Provider :: string
  pbu_Stream :: bool
  pbu_Usage :: pb_token_usage
  pbu_CostMicroUsd :: int
  pbu_PriceMicroUsd :: int
  pbu_LatencyMs :: int
  pbu_TimeToFirstByteMs :: int
  pbu_Outcome :: string
  pbu_SnapshotVersion :: nat
  pbu_BudgetIds :: "string list"

record pb_audit_event =
  pba_EventId :: string
  pba_RequestId :: string
  pba_TimestampUnixMs :: int
  pba_Tenant :: string
  pba_Actor :: string
  pba_Action :: string
  pba_Resource :: string
  pba_Outcome :: string
  pba_Reason :: message
  pba_SourceIp :: "addr option"
  pba_SnapshotVersion :: nat

datatype pb_event = PbUsage pb_usage_event | PbAudit pb_audit_event

definition UnixMilli :: "gotime \<Rightarrow> int" where
  \<comment> \<open>Milliseconds since 1970, rounded down; 62135596800 seconds separate year 1 from it.\<close>
  "UnixMilli t = t div millisecond - 62135596800000"

definition encode_stage :: "stage_timing \<Rightarrow> pb_stage_timing" where
  "encode_stage stage =
     (let ms = Milliseconds (st_Duration stage);
          ms = (if ms < 0 then 0 else ms);
          ms = (if ms > 2 ^ 32 - 1 then 2 ^ 32 - 1 else ms)
      in \<lparr>pbs_Name = st_Name stage, pbs_DurationMs = word_of_int ms, pbs_Outcome = code_string (st_Outcome stage)\<rparr>)"

definition encodeStages :: "stage_timing list \<Rightarrow> pb_stage_timing list" where
  "encodeStages stages = map encode_stage stages"

definition encode_usage :: "usage_event \<Rightarrow> pb_usage_event" where
  "encode_usage e =
     \<lparr>pbu_RequestId = ue_RequestID e, pbu_TimestampUnixMs = UnixMilli (ue_Timestamp e), pbu_Tenant = ue_Tenant e,
      pbu_KeyId = ue_KeyID e, pbu_Tier = ue_Tier e, pbu_Deployment = ue_Deployment e, pbu_BaseModel = BaseModel (ue_Route e),
      pbu_AdapterId = AdapterID (ue_Route e), pbu_Shadow = ue_Shadow e, pbu_Stages = encodeStages (ue_Stages e),
      pbu_Provider = ue_Provider e, pbu_Stream = ue_Stream e,
      pbu_Usage = \<lparr>pbt_Input = ue_InputTokens e, pbt_CachedInput = ue_CachedInputTokens e,
        pbt_CacheWrite = ue_CacheWriteTokens e, pbt_Output = ue_OutputTokens e\<rparr>,
      pbu_CostMicroUsd = ue_CostMicroUSD e, pbu_PriceMicroUsd = ue_PriceMicroUSD e, pbu_LatencyMs = ue_LatencyMs e,
      pbu_TimeToFirstByteMs = Milliseconds (ue_TimeToFirstByte e), pbu_Outcome = code_string (ue_Outcome e),
      pbu_SnapshotVersion = ue_SnapshotVersion e, pbu_BudgetIds = ue_Budgets e\<rparr>"

definition encodeAudit :: "audit_event \<Rightarrow> pb_audit_event" where
  "encodeAudit e =
     \<lparr>pba_EventId = au_EventID e, pba_RequestId = au_RequestID e, pba_TimestampUnixMs = UnixMilli (au_Timestamp e),
      pba_Tenant = au_Tenant e, pba_Actor = au_Actor e, pba_Action = au_Action e, pba_Resource = au_Resource e,
      pba_Outcome = code_string (au_Outcome e), pba_Reason = au_Reason e, pba_SourceIp = au_SourceIP e,
      pba_SnapshotVersion = au_SnapshotVersion e\<rparr>"

section \<open>The sink\<close>

record stream_sink =
  ss_stream :: string
  ss_auditStream :: string
  ss_maxLen :: int
  ss_auditMaxLen :: int
  ss_timeout :: duration

datatype stream_option = WithStream string | WithAuditStream string | WithMaxLen int

fun apply_stream_option :: "stream_option \<Rightarrow> stream_sink \<Rightarrow> stream_sink" where
  "apply_stream_option (WithStream name) s = (if name \<noteq> '''' then s\<lparr>ss_stream := name\<rparr> else s)"
| "apply_stream_option (WithAuditStream name) s = (if name \<noteq> '''' then s\<lparr>ss_auditStream := name\<rparr> else s)"
| "apply_stream_option (WithMaxLen n) s = (if n > 0 then s\<lparr>ss_maxLen := n\<rparr> else s)"

definition stream_sink_New :: "bool \<Rightarrow> stream_option list \<Rightarrow> go_error + stream_sink" where
  \<comment> \<open>The first argument says whether there is a client.\<close>
  "stream_sink_New client opts =
     (if \<not> client then Inl (err_New CodeInternal ''a usage stream needs a redis client'')
      else Inr (fold apply_stream_option opts
        \<lparr>ss_stream = ''gateway:usage'', ss_auditStream = ''gateway:audit'', ss_maxLen = 1000000, ss_auditMaxLen = 1000000,
         ss_timeout = 2 * second\<rparr>))"

record xadd =
  xa_Stream :: string
  xa_MaxLen :: int
  xa_Payload :: string

type_synonym pb_marshal = "pb_event \<Rightarrow> go_error + string"

text \<open>The pipeline is sent as a whole; the last component is the state of the server.\<close>

type_synonym 'd pipe_exec = "duration \<Rightarrow> 'd \<Rightarrow> xadd list \<Rightarrow> go_error option \<times> 'd"

fun stream_for :: "stream_sink \<Rightarrow> event \<Rightarrow> string \<times> int \<times> pb_event" where
  "stream_for s (UsageEvent e) = (ss_stream s, ss_maxLen s, PbUsage (encode_usage e))"
| "stream_for s (AuditEvent e) = (ss_auditStream s, ss_auditMaxLen s, PbAudit (encodeAudit e))"

fun queue_events :: "pb_marshal \<Rightarrow> stream_sink \<Rightarrow> event list \<Rightarrow> go_error + xadd list" where
  "queue_events marshal s [] = Inr []"
| "queue_events marshal s (ev # evs) =
     (case stream_for s ev of (stream, maxLen, msg) \<Rightarrow>
        (case marshal msg of
           Inl e \<Rightarrow> Inl (GwError CodeInternal (Msg ''encoding an event'' []) False (Some e))
         | Inr payload \<Rightarrow>
             map_sum id (Cons \<lparr>xa_Stream = stream, xa_MaxLen = maxLen, xa_Payload = payload\<rparr>) (queue_events marshal s evs)))"

definition stream_Write :: "pb_marshal \<Rightarrow> 'd pipe_exec \<Rightarrow> stream_sink \<Rightarrow> duration \<Rightarrow> 'd \<Rightarrow> event list \<Rightarrow> go_error option \<times> 'd" where
  \<comment> \<open>The context is the caller's, cut to the sink's own timeout.\<close>
  "stream_Write marshal exec s timeout d evs =
     (case queue_events marshal s evs of
        Inl e \<Rightarrow> (Some e, d)
      | Inr q \<Rightarrow>
          if length q = 0 then (None, d)
          else (case exec (min timeout (ss_timeout s)) d q of
              (err, d') \<Rightarrow> (err_Wrap CodeUnavailable err ''publishing events'', d')))"

definition redis_sink :: "pb_marshal \<Rightarrow> 'd pipe_exec \<Rightarrow> stream_sink \<Rightarrow> 'd \<Rightarrow> 'd sink" where
  "redis_sink marshal exec s d = \<lparr>sk_Name = ''redis-stream'', sk_Write = stream_Write marshal exec s, sk_State = d\<rparr>"

section \<open>What is published\<close>

text \<open>
  \<open>XADD\<close> appends to its stream and trims the oldest entries; with an approximate bound it keeps at least as many as
  asked. A pipeline that succeeds has executed all its commands in order.
\<close>

definition pipe_documented :: "'d pipe_exec \<Rightarrow> ('d \<Rightarrow> string \<Rightarrow> string list) \<Rightarrow> bool" where
  "pipe_documented exec streams =
     (\<forall>timeout d q k. case exec timeout d q of
        (Some _, _) \<Rightarrow> True
      | (None, d') \<Rightarrow> \<exists>trimmed.
          trimmed @ streams d' k = streams d k @ map xa_Payload (filter (\<lambda>x. xa_Stream x = k) q) \<and>
          (trimmed = [] \<or> (\<exists>x \<in> set q. xa_Stream x = k \<and> xa_MaxLen x \<le> int (length (streams d' k)))))"

definition payload_of :: "pb_marshal \<Rightarrow> stream_sink \<Rightarrow> event \<Rightarrow> string" where
  "payload_of marshal s ev = (case marshal (snd (snd (stream_for s ev))) of Inr p \<Rightarrow> p | Inl _ \<Rightarrow> '''')"

definition payloads :: "pb_marshal \<Rightarrow> stream_sink \<Rightarrow> string \<Rightarrow> event list \<Rightarrow> string list" where
  \<comment> \<open>What a list of events puts on one stream.\<close>
  "payloads marshal s k evs = map (payload_of marshal s) (filter (\<lambda>ev. fst (stream_for s ev) = k) evs)"

definition bound_for :: "stream_sink \<Rightarrow> string \<Rightarrow> int" where
  \<comment> \<open>The least number of entries a stream is trimmed to.\<close>
  "bound_for s k =
     (if k = ss_stream s \<and> k = ss_auditStream s then min (ss_maxLen s) (ss_auditMaxLen s)
      else if k = ss_stream s then ss_maxLen s else ss_auditMaxLen s)"

lemma encode_stage_duration:
  "uint (pbs_DurationMs (encode_stage st)) = max 0 (min (Milliseconds (st_Duration st)) (2 ^ 32 - 1))"
  by (auto simp: encode_stage_def Let_def uint_word_of_int take_bit_int_eq_self)

lemma queue_events_Inr:
  "queue_events marshal s evs = Inr q \<Longrightarrow>
     map xa_Payload (filter (\<lambda>x. xa_Stream x = k) q) = payloads marshal s k evs \<and>
     (\<forall>x \<in> set q. xa_Stream x = k \<longrightarrow> bound_for s k \<le> xa_MaxLen x)"
proof (induction evs arbitrary: q)
  case (Cons ev evs)
  obtain st n m where f: "stream_for s ev = (st, n, m)" by (metis prod.exhaust)
  from Cons.prems f obtain p q' where "marshal m = Inr p" "queue_events marshal s evs = Inr q'"
    "q = \<lparr>xa_Stream = st, xa_MaxLen = n, xa_Payload = p\<rparr> # q'"
    by (auto split: sum.splits simp: map_sum_def)
  moreover have "st = k \<Longrightarrow> bound_for s k \<le> n" using f by (cases ev) (auto simp: bound_for_def)
  ultimately show ?case using Cons.IH[of q'] f by (auto simp: payloads_def payload_of_def)
qed (simp add: payloads_def)

definition published :: "pb_marshal \<Rightarrow> stream_sink \<Rightarrow> ('d \<Rightarrow> string \<Rightarrow> string list) \<Rightarrow> 'd \<Rightarrow> 'd \<Rightarrow> event list \<Rightarrow> bool" where
  \<comment> \<open>From the first state to the second the events were appended, and only the oldest entries past the bound are gone.\<close>
  "published marshal s streams d0 d evs =
     (\<forall>k. \<exists>trimmed. trimmed @ streams d k = streams d0 k @ payloads marshal s k evs \<and>
        (trimmed = [] \<or> bound_for s k \<le> int (length (streams d k))))"

lemma published_trans:
  assumes "published marshal s streams d0 d evs" "published marshal s streams d d' evs'"
  shows "published marshal s streams d0 d' (evs @ evs')"
  unfolding published_def
proof
  fix k
  obtain t1 where 1: "t1 @ streams d k = streams d0 k @ payloads marshal s k evs" "t1 = [] \<or> bound_for s k \<le> int (length (streams d k))"
    using assms(1) unfolding published_def by blast
  obtain t2 where 2: "t2 @ streams d' k = streams d k @ payloads marshal s k evs'" "t2 = [] \<or> bound_for s k \<le> int (length (streams d' k))"
    using assms(2) unfolding published_def by blast
  have "(t1 @ t2) @ streams d' k = streams d0 k @ payloads marshal s k (evs @ evs')"
    using 1(1) 2(1) by (simp add: payloads_def)
  moreover have "t1 @ t2 = [] \<or> bound_for s k \<le> int (length (streams d' k))"
    using 1(2) 2 by (cases "t2 = []") auto
  ultimately show "\<exists>trimmed. trimmed @ streams d' k = streams d0 k @ payloads marshal s k (evs @ evs') \<and>
      (trimmed = [] \<or> bound_for s k \<le> int (length (streams d' k)))" by blast
qed

lemma stream_Write_publishes:
  assumes "pipe_documented exec streams" "stream_Write marshal exec s timeout d evs = (None, d')"
  shows "published marshal s streams d d' evs"
  unfolding published_def
proof
  fix k
  from assms(2) obtain q where q: "queue_events marshal s evs = Inr q"
    by (auto simp: stream_Write_def split: sum.splits)
  note f = queue_events_Inr[OF q, of k]
  show "\<exists>trimmed. trimmed @ streams d' k = streams d k @ payloads marshal s k evs \<and>
      (trimmed = [] \<or> bound_for s k \<le> int (length (streams d' k)))"
  proof (cases "q = []")
    case True
    with assms(2) q f show ?thesis by (auto simp: stream_Write_def)
  next
    case False
    with assms(2) q have "exec (min timeout (ss_timeout s)) d q = (None, d')"
      by (auto simp: stream_Write_def err_Wrap_def split: prod.splits option.splits)
    with assms(1)[unfolded pipe_documented_def, rule_format, where timeout = "min timeout (ss_timeout s)" and d = d and q = q and k = k] obtain trimmed
      where "trimmed @ streams d' k = streams d k @ map xa_Payload (filter (\<lambda>x. xa_Stream x = k) q)"
        "trimmed = [] \<or> (\<exists>x \<in> set q. xa_Stream x = k \<and> xa_MaxLen x \<le> int (length (streams d' k)))" by auto
    with f show ?thesis by (intro exI[of _ trimmed]) force
  qed
qed

lemma sink_failures_nonneg: "0 \<le> sink_failures t bs s"
  by (induction t bs s rule: sink_failures.induct) (auto split: prod.splits)

lemma sink_after_publishes:
  assumes "pipe_documented exec streams" "list_all (\<lambda>b. b \<noteq> []) bs" "sink_failures t bs (redis_sink marshal exec s d) = 0"
  shows "\<exists>d'. sink_after t bs (redis_sink marshal exec s d) = redis_sink marshal exec s d' \<and>
     published marshal s streams d d' (concat bs)"
  using assms(2,3)
proof (induction bs rule: rev_induct)
  case Nil
  then show ?case by (auto simp: published_def payloads_def)
next
  case (snoc b bs)
  let ?s = "redis_sink marshal exec s d"
  from snoc.prems have ne: "0 < int (length b)" by simp
  from snoc.prems have z: "sink_failures t bs ?s = 0" and ok: "fst (sk_Write (sink_after t bs ?s) t (sk_State (sink_after t bs ?s)) b) = None"
    using sink_failures_nonneg[of t bs ?s] ne by (auto simp only: sink_failures_snoc split: if_splits)
  with snoc obtain d1 where d1: "sink_after t bs ?s = redis_sink marshal exec s d1" "published marshal s streams d d1 (concat bs)"
    by auto
  obtain d2 where d2: "stream_Write marshal exec s t d1 b = (None, d2)"
    using ok d1(1) by (cases "stream_Write marshal exec s t d1 b") (simp add: redis_sink_def)
  have "sink_after t (bs @ [b]) ?s = redis_sink marshal exec s d2" using d1(1) d2 by (simp add: sink_after_snoc redis_sink_def)
  moreover have "published marshal s streams d d2 (concat bs @ b)"
    by (rule published_trans[OF d1(2) stream_Write_publishes[OF assms(1) d2]])
  ultimately show ?case by auto
qed

section \<open>Properties\<close>

text \<open>Claim C14. Nothing the emitter reports as delivered is missing from the streams: in every state reachable from a new
  emitter with the Redis sink among its sinks and no failure counted, each stream holds what it held before and then the
  encoded events of its kind from all batches written, in order, with only entries trimmed from the old end while at least as
  many as its bound are kept.\<close>

theorem emitted_events_are_published:
  assumes "pipe_documented exec streams" "Some (redis_sink marshal exec s d) \<in> set ss" "NewEmitter ss opts = Inr e0"
    "em_reach e0 (e, M)" "em_failed e = 0"
  shows "\<exists>d'. redis_sink marshal exec s d' \<in> set (em_sinks e) \<and>
     (\<forall>k. \<exists>trimmed. trimmed @ streams d' k = streams d k @ payloads marshal s k (concat (em_written e)) \<and>
        (trimmed = [] \<or> bound_for s k \<le> int (length (streams d' k))))"
proof -
  let ?r = "redis_sink marshal exec s d" and ?sinks = "List.map_filter (\<lambda>s. s) ss"
  have inv: "em_inv ?sinks e M" using em_reach_inv[OF assms(4) NewEmitter_inv[OF assms(3)]] by simp
  have r: "?r \<in> set ?sinks" using assms(2) by (force simp: List.map_filter_def)
  have "(\<Sum>s\<leftarrow>?sinks. sink_failures (em_flushTimeout e) (em_written e) s) = 0"
    using inv assms(5) by (simp add: em_inv_def)
  then have "sink_failures (em_flushTimeout e) (em_written e) ?r = 0"
    using r sum_list_nonneg_eq_0_iff[of "map (sink_failures (em_flushTimeout e) (em_written e)) ?sinks"] sink_failures_nonneg
    by auto
  moreover have "list_all (\<lambda>b. b \<noteq> []) (em_written e)" using inv by (auto simp: em_inv_def list_all_iff)
  ultimately obtain d' where d': "sink_after (em_flushTimeout e) (em_written e) ?r = redis_sink marshal exec s d'"
    "published marshal s streams d d' (concat (em_written e))"
    using sink_after_publishes[OF assms(1)] by blast
  moreover have "em_sinks e = map (sink_after (em_flushTimeout e) (em_written e)) ?sinks" using inv by (simp add: em_inv_def)
  ultimately have "redis_sink marshal exec s d' \<in> set (em_sinks e)" using r by (metis imageI set_map)
  with d'(2) show ?thesis unfolding published_def by blast
qed

definition ex_exec :: "(string \<times> string) list pipe_exec" where
  "ex_exec timeout d q = (None, d @ map (\<lambda>x. (xa_Stream x, xa_Payload x)) q)"

definition ex_streams :: "(string \<times> string) list \<Rightarrow> string \<Rightarrow> string list" where
  "ex_streams d k = map snd (filter (\<lambda>x. fst x = k) d)"

definition ex_stream_sink :: stream_sink where
  "ex_stream_sink = \<lparr>ss_stream = ''u'', ss_auditStream = ''a'', ss_maxLen = 10, ss_auditMaxLen = 10, ss_timeout = second\<rparr>"

definition ex_redis_sink :: "(string \<times> string) list sink" where
  "ex_redis_sink = redis_sink (\<lambda>_. Inr ''p'') ex_exec ex_stream_sink []"

definition ex_stream_emitter :: "(string \<times> string) list emitter" where
  "ex_stream_emitter =
     \<lparr>em_sinks = [ex_redis_sink], em_capacity = DefaultBufferSize, em_buffer = [], em_onError = False,
      em_batchSize = 1, em_flushTimeout = DefaultFlushTimeout, em_received = 0, em_dropped = 0,
      em_failed = 0, em_stop = False, em_batch = [], em_draining = False, em_stopped = False,
      em_errors = [], em_accepted = [], em_lost = [], em_written = []\<rparr>"

lemma ex_exec_documented: "pipe_documented ex_exec ex_streams"
  by (auto simp: pipe_documented_def ex_exec_def ex_streams_def filter_map comp_def)

lemma ex_stream_emitter_new: "NewEmitter [Some ex_redis_sink] [WithBatchSize 1] = Inr ex_stream_emitter"
  by (simp add: NewEmitter_def ex_stream_emitter_def map_filter_simps)

lemma ex_stream_reach:
  "em_reach ex_stream_emitter (em_take (snd (offer (ex_stream_emitter\<lparr>em_received := 1\<rparr>) ex_audit)), {#})"
proof -
  let ?e1 = "ex_stream_emitter\<lparr>em_received := 1\<rparr>" and ?e2 = "snd (offer (ex_stream_emitter\<lparr>em_received := 1\<rparr>) ex_audit)"
  have "em_step (ex_stream_emitter, {#}) (?e1, {#Handed ex_audit#})"
    using em_step.hand[of ex_stream_emitter "{#}" ex_audit] by (simp add: ex_stream_emitter_def)
  moreover have "em_step (?e1, {#Handed ex_audit#}) (?e2, {#})"
    by (rule em_step.offer_ok) (simp add: offer_def ex_stream_emitter_def DefaultBufferSize_def)
  moreover have "em_step (?e2, {#}) (em_take ?e2, {#})"
    by (rule em_step.take) (simp_all add: offer_def ex_stream_emitter_def DefaultBufferSize_def)
  ultimately show ?thesis by (blast intro: em_reach.intros)
qed

theorem emitted_events_witness:
  "\<exists>d'. redis_sink (\<lambda>_. Inr ''p'') ex_exec ex_stream_sink d' \<in>
        set (em_sinks (em_take (snd (offer (ex_stream_emitter\<lparr>em_received := 1\<rparr>) ex_audit)))) \<and>
     (\<exists>trimmed. trimmed @ ex_streams d' ''a'' = [''p''])"
proof -
  let ?e = "em_take (snd (offer (ex_stream_emitter\<lparr>em_received := 1\<rparr>) ex_audit))"
  have f: "em_failed ?e = 0" "em_written ?e = [[ex_audit]]"
    by (simp_all add: em_take_def offer_def em_flush_def em_write_def write_sink_def ex_stream_emitter_def ex_redis_sink_def redis_sink_def
        stream_Write_def ex_exec_def ex_audit_def DefaultBufferSize_def err_Wrap_def)
  have "payloads (\<lambda>_. Inr ''p'') ex_stream_sink ''a'' (concat (em_written ?e)) = [''p'']" "ex_streams [] ''a'' = []"
    unfolding f by (simp_all add: payloads_def payload_of_def ex_audit_def ex_stream_sink_def ex_streams_def)
  with emitted_events_are_published[of ex_exec ex_streams "\<lambda>_. Inr ''p''" ex_stream_sink "[]" "[Some ex_redis_sink]" "[WithBatchSize 1]",
      OF ex_exec_documented _ ex_stream_emitter_new ex_stream_reach f(1)]
  show ?thesis by (metis append_Nil ex_redis_sink_def list.set_intros(1))
qed

end
