(* ===== verification/Sandbox.thy ===== *)
theory Sandbox
  imports Admission
begin

text \<open>
  \<open>dataplane/internal/sandbox\<close>: the command line a component under admission is launched with, waiting for its socket, and
  tearing it down; then \<open>dataplane/cmd/admissionrunner\<close>, which puts the sandbox, the runner and the control-plane client
  together. The container runtime is foreign: a launch is the list of commands handed to it, and what the processes do is
  given in the environment of a run.
\<close>

section \<open>Paths\<close>

text \<open>\<open>filepath.Clean\<close> and \<open>filepath.Join\<close> on Unix.\<close>

fun split_slash :: "string \<Rightarrow> string list" where
  "split_slash [] = [[]]"
| "split_slash (c # s) =
     (if c = CHR ''/'' then [] # split_slash s
      else (case split_slash s of [] \<Rightarrow> [[c]] | p # ps \<Rightarrow> (c # p) # ps))"

fun clean_parts :: "bool \<Rightarrow> string list \<Rightarrow> string list \<Rightarrow> string list" where
  \<comment> \<open>The kept elements, innermost first.\<close>
  "clean_parts rooted acc [] = acc"
| "clean_parts rooted acc (p # ps) =
     (if p = '''' \<or> p = ''.'' then clean_parts rooted acc ps
      else if p = ''..'' then
        (case acc of
           a # as \<Rightarrow> if a = ''..'' then clean_parts rooted (p # acc) ps else clean_parts rooted as ps
         | [] \<Rightarrow> clean_parts rooted (if rooted then [] else [p]) ps)
      else clean_parts rooted (p # acc) ps)"

fun join_slash :: "string list \<Rightarrow> string" where
  "join_slash [] = []"
| "join_slash [p] = p"
| "join_slash (p # q # ps) = p @ ''/'' @ join_slash (q # ps)"

definition filepath_Clean :: "string \<Rightarrow> string" where
  "filepath_Clean path =
     (let rooted = HasPrefix path ''/'';
          body = join_slash (rev (clean_parts rooted [] (split_slash path)))
      in if rooted then ''/'' @ body else if body = '''' then ''.'' else body)"

definition filepath_Join :: "string \<Rightarrow> string \<Rightarrow> string" where
  "filepath_Join a b =
     (if a = '''' \<and> b = '''' then ''''
      else if a = '''' then filepath_Clean b
      else if b = '''' then filepath_Clean a
      else filepath_Clean (a @ ''/'' @ b))"

section \<open>Limits and specifications\<close>

record sandbox_limits =
  sl_MemoryMB :: int
  sl_CPUs :: string
  sl_PidsLimit :: int
  sl_Timeout :: duration

definition sandbox_withDefaults :: "sandbox_limits \<Rightarrow> sandbox_limits" where
  "sandbox_withDefaults l =
     \<lparr>sl_MemoryMB = (if sl_MemoryMB l \<le> 0 then 512 else sl_MemoryMB l),
      sl_CPUs = (if sl_CPUs l = '''' then ''1.0'' else sl_CPUs l),
      sl_PidsLimit = (if sl_PidsLimit l \<le> 0 then 64 else sl_PidsLimit l),
      sl_Timeout = (if sl_Timeout l \<le> 0 then 2 * minute else sl_Timeout l)\<rparr>"

record sandbox_spec =
  sp_Image :: string
  sp_SocketDir :: string
  sp_SocketName :: string
  sp_Limits :: sandbox_limits

definition lower_hex :: "char \<Rightarrow> bool" where
  "lower_hex c = (is_digit c \<or> 97 \<le> (of_char c :: nat) \<and> (of_char c :: nat) \<le> 102)"

definition digestRef :: "string \<Rightarrow> bool" where
  "digestRef s = (HasPrefix s ''sha256:'' \<and> length s = 71 \<and> list_all lower_hex (drop 7 s))"

definition pinnedByDigest :: "string \<Rightarrow> bool" where
  "pinnedByDigest ref =
     (if digestRef ref then True
      else (case Cut ref (CHR ''@'') of (name, digest, found) \<Rightarrow> found \<and> name \<noteq> '''' \<and> digestRef digest))"

definition sandbox_validate :: "sandbox_spec \<Rightarrow> go_error option" where
  "sandbox_validate spec =
     (if sp_Image spec = '''' then Some (err_New CodeInvalidRequest ''a sandbox needs an image'')
      else if \<not> pinnedByDigest (sp_Image spec)
      then Some (err_Newf CodeInvalidRequest ''image %q is not pinned by digest; the sandbox would run whatever the tag points at now''
                   [AStr (sp_Image spec)])
      else if sp_SocketDir spec = '''' \<or> sp_SocketName spec = ''''
      then Some (err_New CodeInvalidRequest ''a sandbox needs a socket directory and name'')
      else if CHR ''/'' \<in> set (sp_SocketName spec) \<or> CHR 0x5C \<in> set (sp_SocketName spec)
      then Some (err_Newf CodeInvalidRequest ''socket name %q must be a file name, not a path'' [AStr (sp_SocketName spec)])
      else None)"

section \<open>The command line\<close>

record container =
  ct_runtime :: string
  ct_user :: string

definition NobodyUser :: string where
  "NobodyUser = ''65534:65534''"

definition componentUser :: "int \<Rightarrow> int \<Rightarrow> string" where
  \<comment> \<open>The user and group of the runner.\<close>
  "componentUser uid gid = (if uid = 0 then NobodyUser else FormatInt uid @ '':'' @ FormatInt gid)"

datatype container_option = WithRuntime string | WithUser string

fun apply_container_option :: "container_option \<Rightarrow> container \<Rightarrow> container" where
  "apply_container_option (WithRuntime command) c = (if command \<noteq> '''' then c\<lparr>ct_runtime := command\<rparr> else c)"
| "apply_container_option (WithUser user) c = (if user \<noteq> '''' then c\<lparr>ct_user := user\<rparr> else c)"

definition container_New :: "int \<Rightarrow> int \<Rightarrow> container_option list \<Rightarrow> container" where
  "container_New uid gid opts =
     fold apply_container_option opts \<lparr>ct_runtime = ''docker'', ct_user = componentUser uid gid\<rparr>"

definition containerSocketDir :: string where
  "containerSocketDir = ''/run/component''"

definition container_Args :: "container \<Rightarrow> sandbox_spec \<Rightarrow> string \<Rightarrow> go_error + string list" where
  "container_Args c spec name =
     (case sandbox_validate spec of
        Some e \<Rightarrow> Inl e
      | None \<Rightarrow>
          (let limits = sandbox_withDefaults (sp_Limits spec) in
           Inr [''run'', ''--rm'', ''--name'', name,
                ''--network=none'',
                ''--read-only'',
                ''--tmpfs'', ''/tmp:rw,noexec,nosuid,size=16m'',
                ''--volume'', sp_SocketDir spec @ '':'' @ containerSocketDir @ '':rw'',
                ''--cap-drop=ALL'',
                ''--security-opt=no-new-privileges'',
                ''--user'', ct_user c,
                ''--memory'', FormatInt (sl_MemoryMB limits) @ ''m'',
                ''--memory-swap'', FormatInt (sl_MemoryMB limits) @ ''m'',
                ''--cpus'', sl_CPUs limits,
                ''--pids-limit'', FormatInt (sl_PidsLimit limits),
                ''--env'', ''COMPONENT_SOCKET='' @ filepath_Join containerSocketDir (sp_SocketName spec),
                sp_Image spec]))"

section \<open>Launching\<close>

text \<open>
  \<open>hd_wait\<close> is the one value the channel of the process holds, or receives within ten seconds of its being killed; a
  receive takes it away.
\<close>

record handle =
  hd_SocketPath :: string
  hd_stop :: "string list"
  hd_stopped :: bool
  hd_wait :: "go_error option option"

definition handle_Close :: "handle \<Rightarrow> go_error option \<times> string list list \<times> handle" where
  \<comment> \<open>The result, the commands run and the handle.\<close>
  "handle_Close h =
     (let cmds = (if hd_stopped h then [] else [hd_stop h]); h1 = h\<lparr>hd_stopped := True\<rparr>
      in case hd_wait h of
           Some err \<Rightarrow> (err, cmds, h1\<lparr>hd_wait := None\<rparr>)
         | None \<Rightarrow> (Some (err_New CodeUnavailable ''the sandbox did not exit''), cmds, h1))"

text \<open>A round of the wait: whether the path is a socket, and what the select then receives.\<close>

datatype wait_event = Exited "go_error option" | CtxDone go_error | Tick

fun awaitSocket :: "(bool \<times> wait_event) list \<Rightarrow> go_error option option" where
  \<comment> \<open>None while it is still waiting.\<close>
  "awaitSocket [] = None"
| "awaitSocket ((bound, ev) # rounds) =
     (if bound then Some None
      else (case ev of
          Exited (Some e) \<Rightarrow> Some (Some (Foreign ''the component exited during startup: %w'' (Some e)))
        | Exited None \<Rightarrow> Some (Some (Foreign ''the component exited during startup'' None))
        | CtxDone e \<Rightarrow> Some (Some e)
        | Tick \<Rightarrow> awaitSocket rounds))"

definition sandbox_truncate :: "string \<Rightarrow> string" where
  "sandbox_truncate s = (let s = TrimSpace s in if length s \<le> 2000 then s else take 2000 s @ ''...'')"

record sandbox_env =
  se_start :: "go_error option"
  se_rounds :: "(bool \<times> wait_event) list"
  se_output :: string
  se_wait :: "go_error option option"

definition sandbox_Start :: "container \<Rightarrow> string \<Rightarrow> sandbox_env \<Rightarrow> sandbox_spec \<Rightarrow> ((go_error + handle) \<times> string list list) option" where
  \<comment> \<open>The name is the one \<open>c.name()\<close> makes up; the second component are the commands run.\<close>
  "sandbox_Start c name env spec =
     (case container_Args c spec name of
        Inl e \<Rightarrow> Some (Inl e, [])
      | Inr args \<Rightarrow>
          (case se_start env of
             Some e \<Rightarrow> Some (Inl (GwError CodeUnavailable (Msg ''starting %s'' [AStr (ct_runtime c)]) False (Some e)), [ct_runtime c # args])
           | None \<Rightarrow>
               (let h = \<lparr>hd_SocketPath = filepath_Join (sp_SocketDir spec) (sp_SocketName spec),
                         hd_stop = [ct_runtime c, ''rm'', ''-f'', name], hd_stopped = False, hd_wait = se_wait env\<rparr>
                in case awaitSocket (se_rounds env) of
                     None \<Rightarrow> None
                   | Some None \<Rightarrow> Some (Inr h, [ct_runtime c # args])
                   | Some (Some e) \<Rightarrow>
                       (case handle_Close h of (_, cmds, _) \<Rightarrow>
                          Some (Inl (GwError CodeUnavailable
                                  (Msg ''the component never bound %s (output: %s)'' [AStr (sp_SocketName spec), AStr (sandbox_truncate (se_output env))])
                                  False (Some e)),
                                (ct_runtime c # args) # cmds)))))"

section \<open>The admission runner\<close>

record runner_options =
  ao_controlPlane :: string
  ao_component :: string
  ao_version :: string
  ao_fixtures :: string
  ao_runtime :: string
  ao_moduleDir :: string
  ao_runnerName :: string
  ao_timeout :: duration
  ao_dryRun :: bool

text \<open>
  What the command meets: files and their JSON, URLs, the control plane, the module directory and the environment of a run.
\<close>

record 'i runner_world =
  rw_read :: "string \<Rightarrow> go_error + string"
  rw_json :: "string \<Rightarrow> go_error + fixtures"
  rw_parseURL :: "string \<Rightarrow> go_error option"
  rw_Manifest :: "string \<Rightarrow> string \<Rightarrow> go_error + manifest"
  rw_modules :: "string \<Rightarrow> go_error + file_reader"
  rw_env :: "'i run_env"
  rw_writeReport :: "admission_verdict \<Rightarrow> go_error option"
  rw_Report :: "admission_verdict \<Rightarrow> go_error option"

definition defaultRunnerName :: "go_error + string \<Rightarrow> string" where
  "defaultRunnerName host =
     ''admissionrunner@'' @ (case host of Inl _ \<Rightarrow> ''unknown'' | Inr h \<Rightarrow> if h = '''' then ''unknown'' else h)"

definition passExit :: "bool \<Rightarrow> int" where
  "passExit passed = (if passed then 0 else 2)"

definition loadFixtures :: "'i runner_world \<Rightarrow> string \<Rightarrow> go_error + fixtures" where
  "loadFixtures w path =
     (if path = ''''
      then Inl (Foreign ''-fixtures is required: the suite needs a payload the component allows, and only the publisher knows what that is'' None)
      else (case rw_read w path of
          Inl e \<Rightarrow> Inl (Foreign ''reading fixtures: %w'' (Some e))
        | Inr raw \<Rightarrow> (case rw_json w raw of Inl e \<Rightarrow> Inl (Foreign ''parsing fixtures: %w'' (Some e)) | Inr fx \<Rightarrow> Inr fx)))"

definition admission_NewClient :: "'i runner_world \<Rightarrow> string \<Rightarrow> go_error option" where
  "admission_NewClient w baseURL =
     (if baseURL = '''' then Some (err_New CodeInvalidRequest ''a control-plane URL is required'')
      else err_Wrap CodeInvalidRequest (rw_parseURL w baseURL) ''parsing the control-plane URL'')"

definition run_reported :: "'i runner_world \<Rightarrow> runner_options \<Rightarrow> admission_verdict \<Rightarrow> int \<times> go_error option \<times> admission_verdict list" where
  \<comment> \<open>From the verdict on: the report file first, so that it survives a failure to post.\<close>
  "run_reported w opts v =
     (case rw_writeReport w v of
        Some e \<Rightarrow> (1, Some e, [])
      | None \<Rightarrow>
          if ao_dryRun opts then (passExit (av_Passed v), None, [])
          else (case rw_Report w v of Some e \<Rightarrow> (1, Some e, [v]) | None \<Rightarrow> (passExit (av_Passed v), None, [v])))"

definition admissionrunner_run :: "'i runner_world \<Rightarrow> runner_options \<Rightarrow> (int \<times> go_error option \<times> admission_verdict list) option" where
  \<comment> \<open>The exit code, the error logged and the verdicts posted.\<close>
  "admissionrunner_run w opts =
     (let fail = (\<lambda>e. Some (1, Some e, [])) in
      if ao_component opts = '''' \<or> ao_version opts = '''' then fail (Foreign ''-component and -version are required'' None)
      else (case loadFixtures w (ao_fixtures opts) of
          Inl e \<Rightarrow> fail e
        | Inr fx \<Rightarrow>
            (case admission_NewClient w (ao_controlPlane opts) of
               Some e \<Rightarrow> fail e
             | None \<Rightarrow>
                 (case rw_Manifest w (ao_component opts) (ao_version opts) of
                    Inl e \<Rightarrow> fail e
                  | Inr m \<Rightarrow>
                      (case (if ao_moduleDir opts = '''' then Inr None else map_sum id Some (rw_modules w (ao_moduleDir opts))) of
                         Inl e \<Rightarrow> fail e
                       | Inr modules \<Rightarrow>
                           (case NewRunner (ao_runnerName opts) True modules of
                              Inl e \<Rightarrow> fail e
                            | Inr r \<Rightarrow>
                                (case admission_Run (rw_env w) r m fx of
                                   None \<Rightarrow> None
                                 | Some (Inl e) \<Rightarrow> fail e
                                 | Some (Inr v) \<Rightarrow> Some (run_reported w opts v))))))))"

section \<open>What the runtime is asked to do\<close>

text \<open>
  A command line read the way a container runtime reads it: options up to the first argument that is none, some of them
  with a value of their own.
\<close>

definition valued_options :: "string list" where
  "valued_options = [''--name'', ''--tmpfs'', ''--volume'', ''--user'', ''--memory'', ''--memory-swap'', ''--cpus'', ''--pids-limit'', ''--env'']"

fun read_options :: "string list \<Rightarrow> (string \<times> string option) list \<times> string list" where
  "read_options [] = ([], [])"
| "read_options [x] = (if HasPrefix x ''-'' then ([(x, None)], []) else ([], [x]))"
| "read_options (x # y # ys) =
     (if x \<in> set valued_options then (case read_options ys of (opts, rest) \<Rightarrow> ((x, Some y) # opts, rest))
      else if HasPrefix x ''-'' then (case read_options (y # ys) of (opts, rest) \<Rightarrow> ((x, None) # opts, rest))
      else ([], x # y # ys))"

definition option_values :: "string \<Rightarrow> (string \<times> string option) list \<Rightarrow> string option list" where
  "option_values f opts = map snd (filter (\<lambda>x. fst x = f) opts)"

definition granting_options :: "string list" where
  \<comment> \<open>The options that could widen what a container may do; all others the command has only restrict it.\<close>
  "granting_options = [''--tmpfs'', ''--volume'', ''--env'']"

definition restricting_options :: "string list" where
  "restricting_options = [''--rm'', ''--name'', ''--network=none'', ''--read-only'', ''--cap-drop=ALL'', ''--security-opt=no-new-privileges'',
     ''--user'', ''--memory'', ''--memory-swap'', ''--cpus'', ''--pids-limit'']"

definition isolated :: "container \<Rightarrow> sandbox_spec \<Rightarrow> string list \<Rightarrow> bool" where
  "isolated c spec cmd =
     (case cmd of
        runtime # verb # args \<Rightarrow>
          (case read_options args of (opts, positional) \<Rightarrow>
             runtime = ct_runtime c \<and> verb = ''run'' \<and> positional = [sp_Image spec] \<and>
             {(''--network=none'', None), (''--read-only'', None), (''--cap-drop=ALL'', None), (''--security-opt=no-new-privileges'', None)}
               \<subseteq> set opts \<and>
             fst ` set opts \<subseteq> set granting_options \<union> set restricting_options \<and>
             option_values ''--tmpfs'' opts = [Some ''/tmp:rw,noexec,nosuid,size=16m''] \<and>
             option_values ''--volume'' opts = [Some (sp_SocketDir spec @ '':/run/component:rw'')] \<and>
             option_values ''--user'' opts = [Some (ct_user c)] \<and>
             (\<exists>n > 0. option_values ''--memory'' opts = [Some (FormatInt n @ ''m'')] \<and>
                option_values ''--memory-swap'' opts = [Some (FormatInt n @ ''m'')]) \<and>
             (\<exists>n > 0. option_values ''--pids-limit'' opts = [Some (FormatInt n)]))
      | _ \<Rightarrow> False)"

lemma container_Args_isolated:
  assumes "container_Args c spec name = Inr args" "\<not> HasPrefix (sp_Image spec) ''-''"
  shows "isolated c spec (ct_runtime c # args)"
proof -
  let ?l = "sandbox_withDefaults (sp_Limits spec)"
  have pos: "0 < sl_MemoryMB ?l" "0 < sl_PidsLimit ?l" by (simp_all add: sandbox_withDefaults_def)
  from assms(1) have args: "args = [''run'', ''--rm'', ''--name'', name, ''--network=none'', ''--read-only'',
      ''--tmpfs'', ''/tmp:rw,noexec,nosuid,size=16m'', ''--volume'', sp_SocketDir spec @ '':/run/component:rw'',
      ''--cap-drop=ALL'', ''--security-opt=no-new-privileges'', ''--user'', ct_user c,
      ''--memory'', FormatInt (sl_MemoryMB ?l) @ ''m'', ''--memory-swap'', FormatInt (sl_MemoryMB ?l) @ ''m'',
      ''--cpus'', sl_CPUs ?l, ''--pids-limit'', FormatInt (sl_PidsLimit ?l),
      ''--env'', ''COMPONENT_SOCKET='' @ filepath_Join containerSocketDir (sp_SocketName spec), sp_Image spec]"
    by (simp add: container_Args_def containerSocketDir_def Let_def split: option.splits)
  show ?thesis
    unfolding isolated_def args list.case
    using pos assms(2)
    by (auto simp: valued_options_def HasPrefix_def option_values_def granting_options_def restricting_options_def)
qed

lemma container_Args_pinned: "container_Args c spec name = Inr args \<Longrightarrow> pinnedByDigest (sp_Image spec)"
  by (auto simp: container_Args_def sandbox_validate_def split: option.splits if_splits)

lemma format_nat_zero:
  assumes "HasPrefix (format_nat n @ '':'' @ s) ''0:''"
  shows "n = 0"
proof -
  have "format_nat n = ''0''"
    using assms format_nat_digits[of n]
    by (cases "format_nat n"; cases "tl (format_nat n)") (auto simp: HasPrefix_def is_digit_def)
  then have "Some n = parse_nat ''0''" by (metis parse_format_nat)
  then show ?thesis by (simp add: parse_nat_def is_digit_def digit_val_def)
qed

lemma componentUser_not_root: "\<not> HasPrefix (componentUser uid gid) ''0:''"
proof (cases "0 < uid")
  case True
  then show ?thesis using format_nat_zero[of "nat uid" "FormatInt gid"] by (auto simp: componentUser_def FormatInt_def)
next
  case False
  then show ?thesis by (auto simp: componentUser_def NobodyUser_def FormatInt_def HasPrefix_def)
qed

lemma sandbox_Start_started:
  assumes "sandbox_Start c name env spec = Some (out, cmds)" "cmds \<noteq> []"
  shows "\<exists>args. container_Args c spec name = Inr args \<and> list_all (\<lambda>cmd. cmd = ct_runtime c # args \<or> cmd = [ct_runtime c, ''rm'', ''-f'', name]) cmds"
  using assms by (auto simp: sandbox_Start_def handle_Close_def Let_def split: sum.splits option.splits prod.splits)

text \<open>The second call of \<open>Close\<close> finds the channel empty: it waits and reports that the sandbox did not exit.\<close>

lemma second_Close_fails:
  assumes "handle_Close h = (r, cmds, h')"
  shows "handle_Close h' = (Some (err_New CodeUnavailable ''the sandbox did not exit''), [], h')"
  using assms by (auto simp: handle_Close_def Let_def split: option.splits)

text \<open>A socket name without a slash stays in the directory unless it is one of the two special names, which \<open>validate\<close> lets pass.\<close>

lemma special_socket_names:
  "sandbox_validate \<lparr>sp_Image = ''sha256:'' @ replicate 64 (CHR ''0''), sp_SocketDir = ''/d/e'', sp_SocketName = ''..'', sp_Limits = l\<rparr> = None"
  "filepath_Join ''/d/e'' ''..'' = ''/d''"
  by (code_simp, code_simp)

lemma sandbox_Start_isolated:
  "case sandbox_Start c name env spec of None \<Rightarrow> True | Some (out, cmds) \<Rightarrow>
     list_all (\<lambda>cmd. cmd = [ct_runtime c, ''rm'', ''-f'', name] \<or> HasPrefix (sp_Image spec) ''-'' \<or> isolated c spec cmd) cmds \<and>
     (cmds = [] \<or> pinnedByDigest (sp_Image spec)) \<and>
     (case out of
        Inr h \<Rightarrow> \<not> hd_stopped h \<and> hd_stop h = [ct_runtime c, ''rm'', ''-f'', name]
      | Inl _ \<Rightarrow> cmds = [] \<or> (case se_start env of Some _ \<Rightarrow> True | None \<Rightarrow> False) \<or> [ct_runtime c, ''rm'', ''-f'', name] \<in> set cmds)"
proof (cases "sandbox_Start c name env spec")
  case (Some r)
  obtain out cmds where r: "r = (out, cmds)" by fastforce
  note s = Some[unfolded r]
  have "list_all (\<lambda>cmd. cmd = [ct_runtime c, ''rm'', ''-f'', name] \<or> HasPrefix (sp_Image spec) ''-'' \<or> isolated c spec cmd) cmds"
    using sandbox_Start_started[OF s] container_Args_isolated[of c spec name] by (cases "cmds = []") (auto simp: list_all_iff)
  moreover have "cmds = [] \<or> pinnedByDigest (sp_Image spec)"
    using sandbox_Start_started[OF s] container_Args_pinned by blast
  moreover have "case out of
        Inr h \<Rightarrow> \<not> hd_stopped h \<and> hd_stop h = [ct_runtime c, ''rm'', ''-f'', name]
      | Inl _ \<Rightarrow> cmds = [] \<or> (case se_start env of Some _ \<Rightarrow> True | None \<Rightarrow> False) \<or> [ct_runtime c, ''rm'', ''-f'', name] \<in> set cmds"
    using s by (auto simp: sandbox_Start_def handle_Close_def Let_def split: sum.splits option.splits prod.splits)
  ultimately show ?thesis by (simp add: Some r)
qed simp

section \<open>Properties\<close>


definition sandboxed_by :: "container \<Rightarrow> string \<Rightarrow> sandbox_env \<Rightarrow> string \<Rightarrow> sandbox_limits \<Rightarrow> 'i run_env \<Rightarrow> bool" where
  \<comment> \<open>The environment of a run starts components in this sandbox, as the call of \<open>Start\<close> in \<open>Run\<close> does.\<close>
  "sandboxed_by c name se dir limits env =
     (\<forall>ref. case en_start env ref of
        Inl _ \<Rightarrow> True
      | Inr path \<Rightarrow> \<exists>h cmds.
          sandbox_Start c name se \<lparr>sp_Image = ref, sp_SocketDir = dir, sp_SocketName = ''component.sock'', sp_Limits = limits\<rparr> = Some (Inr h, cmds) \<and>
          path = hd_SocketPath h)"


definition ex_image :: string where
  "ex_image = ''sha256:'' @ replicate 64 (CHR ''0'')"

definition ex_sandbox_env :: sandbox_env where
  "ex_sandbox_env = \<lparr>se_start = None, se_rounds = [(False, Tick), (True, Tick)], se_output = '''', se_wait = Some None\<rparr>"

definition ex_limits :: sandbox_limits where
  "ex_limits = \<lparr>sl_MemoryMB = 0, sl_CPUs = '''', sl_PidsLimit = 0, sl_Timeout = minute\<rparr>"

definition ex_world :: "string runner_world" where
  "ex_world =
     \<lparr>rw_read = (\<lambda>_. Inr ''{}''), rw_json = (\<lambda>_. Inr ex_fixtures), rw_parseURL = (\<lambda>_. None),
      rw_Manifest = (\<lambda>_ _. Inr (ex_manifest\<lparr>mf_Image := ex_image\<rparr>)), rw_modules = (\<lambda>_. Inl (Foreign ''none'' None)),
      rw_env = ex_run_env\<lparr>en_start := (\<lambda>ref. case sandbox_Start (container_New 1000 1000 []) ''n'' ex_sandbox_env
          \<lparr>sp_Image = ref, sp_SocketDir = ''/s'', sp_SocketName = ''component.sock'', sp_Limits = ex_limits\<rparr> of
            Some (Inr h, _) \<Rightarrow> Inr (hd_SocketPath h) | _ \<Rightarrow> Inl (Foreign ''refused'' None))\<rparr>,
      rw_writeReport = (\<lambda>_. None), rw_Report = (\<lambda>_. None)\<rparr>"

definition ex_options :: runner_options where
  "ex_options = \<lparr>ao_controlPlane = ''http://cp'', ao_component = ''scan'', ao_version = ''1'', ao_fixtures = ''f.json'', ao_runtime = '''',
     ao_moduleDir = '''', ao_runnerName = ''r1'', ao_timeout = minute, ao_dryRun = False\<rparr>"

lemma ex_world_sandboxed: "sandboxed_by (container_New 1000 1000 []) ''n'' ex_sandbox_env ''/s'' ex_limits (rw_env ex_world)"
  by (auto simp: sandboxed_by_def ex_world_def split: option.splits sum.splits prod.splits)

lemma ex_exit: "case admissionrunner_run ex_world ex_options of Some (code, err, sent) \<Rightarrow> code = 0 \<and> length sent = 1 | None \<Rightarrow> False"
  by code_simp


end
