(* ===== verification/Snapshot_Gen.thy ===== *)
theory Snapshot_Gen
  imports Wire Pipeline_Example
begin

text \<open>
  \<open>dataplane/cmd/snapshotgen\<close>: the demo snapshot, from the flags to the bytes of the file and the API key that is printed.
  What the file system and the protobuf encoder do are parameters. It ties the catalogue, the wire format, the digests and
  authentication together: the key printed opens a gateway that runs on the file written.
\<close>

record demo_config =
  dc_out :: string
  dc_pepper :: string
  dc_secret :: string
  dc_endpoint :: string
  dc_model :: string
  dc_credential :: string
  dc_inputCost :: int
  dc_outputCost :: int
  dc_anthropicEndpoint :: string
  dc_anthropicModel :: string
  dc_anthropicCredential :: string

definition demo_key :: "string \<Rightarrow> routing_key" where
  "demo_key model = \<lparr>BaseModel = model, AdapterID = ''''\<rparr>"

definition demo_cost :: "int \<Rightarrow> int \<Rightarrow> cost" where
  "demo_cost i out = \<lparr>InputPer1K = i, OutputPer1K = out, CachedInputPer1K = 0, CacheWritePer1K = 0\<rparr>"

definition demo_echo :: deployment where
  "demo_echo =
     \<lparr>dep_ID = ''echo-1'', dep_Key = demo_key ''echo-model'', dep_Provider = ''echo'', dep_Endpoint = ''in-process'',
      dep_Region = ''local'', dep_TrustTier = TrustInternal, dep_CredentialRef = '''', dep_Weight = 100, dep_ShadowPercent = 0,
      dep_Cost = demo_cost 0 0, dep_Capabilities = [CapabilityStreaming]\<rparr>"

definition demo_upstream :: "demo_config \<Rightarrow> deployment" where
  "demo_upstream cfg =
     \<lparr>dep_ID = ''upstream-1'', dep_Key = demo_key (dc_model cfg), dep_Provider = ''openai-compatible'', dep_Endpoint = dc_endpoint cfg,
      dep_Region = ''cloud'', dep_TrustTier = TrustExternal, dep_CredentialRef = dc_credential cfg, dep_Weight = 100, dep_ShadowPercent = 0,
      dep_Cost = demo_cost (dc_inputCost cfg) (dc_outputCost cfg), dep_Capabilities = [CapabilityStreaming]\<rparr>"

definition demo_anthropic :: "demo_config \<Rightarrow> deployment" where
  "demo_anthropic cfg =
     \<lparr>dep_ID = ''anthropic-1'', dep_Key = demo_key (dc_anthropicModel cfg), dep_Provider = ''anthropic'', dep_Endpoint = dc_anthropicEndpoint cfg,
      dep_Region = ''cloud'', dep_TrustTier = TrustExternal, dep_CredentialRef = dc_anthropicCredential cfg, dep_Weight = 100, dep_ShadowPercent = 0,
      dep_Cost = demo_cost 3000 15000, dep_Capabilities = [CapabilityStreaming]\<rparr>"

definition demo_deployments :: "demo_config \<Rightarrow> deployment list" where
  "demo_deployments cfg =
     [demo_echo] @ (if dc_endpoint cfg \<noteq> '''' then [demo_upstream cfg] else []) @
     (if dc_anthropicEndpoint cfg \<noteq> '''' then [demo_anthropic cfg] else [])"

definition demo_aliases :: "demo_config \<Rightarrow> model_alias list" where
  "demo_aliases cfg =
     [\<lparr>alias_Name = ''fast'', alias_Targets = [demo_key ''echo-model'']\<rparr>] @
     (if dc_endpoint cfg \<noteq> '''' then [\<lparr>alias_Name = ''real'', alias_Targets = [demo_key (dc_model cfg)]\<rparr>] else []) @
     (if dc_anthropicEndpoint cfg \<noteq> '''' then [\<lparr>alias_Name = ''reasoning'', alias_Targets = [demo_key (dc_anthropicModel cfg)]\<rparr>] else [])"

definition demo_global :: "demo_config \<Rightarrow> gotime \<Rightarrow> global_spec" where
  "demo_global cfg now =
     \<lparr>gs_Version = \<lparr>v_Number = 1, v_Digest = ''''\<rparr>, gs_BuiltAt = now, gs_Deployments = demo_deployments cfg, gs_Aliases = demo_aliases cfg,
      gs_TenantPrefixes = [(''demo'', ''demo'')], gs_DefaultPlugins = [], gs_PolicyBundleRef = ''demo'', gs_DefaultGuardrails = [], gs_DefaultPolicy = ''''\<rparr>"

definition demo_principal :: principal where
  "demo_principal =
     \<lparr>p_KeyID = ''demo-key'', p_Tenant = ''demo'', p_Org = ''demo-org'', p_Team = '''', p_User = '''', p_App = '''', p_Roles = [],
      p_Models = \<lparr>AllowAll = True, allow_Names = []\<rparr>, p_Budgets = [\<lparr>ref_ID = ''demo-monthly'', ref_Scope = BudgetScopeOrg\<rparr>],
      p_DefaultClass = DataClassInternal, p_MinTrustTier = TrustUnset,
      p_Limits = \<lparr>RequestsPerMinute = 0, TokensPerMinute = 0, MaxConcurrent = 0\<rparr>, p_Deprecated = False, p_NotAfter = 0\<rparr>"

definition demo_tenant :: "hmac_fun \<Rightarrow> demo_config \<Rightarrow> gotime \<Rightarrow> tenant_spec" where
  "demo_tenant hmac cfg now =
     \<lparr>ts_Tenant = ''demo'', ts_Version = \<lparr>v_Number = 1, v_Digest = ''''\<rparr>, ts_BuiltAt = now, ts_Tier = ''demo'', ts_Principals = [demo_principal],
      ts_Keys = [(ComputeKeyLookup hmac (dc_pepper cfg) (dc_secret cfg), ''demo-key'')], ts_AliasOverrides = [],
      ts_Budgets = [\<lparr>bud_ID = ''demo-monthly'', bud_Scope = BudgetScopeOrg, LimitMicroUSD = 10000000, SpentMicroUSD = 0,
                     bud_Hard = True, HeadroomBasisPoints = 500\<rparr>],
      ts_Plugins = [], ts_Guardrails = [], ts_Policy = '''', ts_MinTrustTier = TrustExternal\<rparr>"

definition modelNames :: "model_alias list \<Rightarrow> deployment list \<Rightarrow> string list" where
  "modelNames aliases deployments = map alias_Name aliases @ map (\<lambda>d. BaseModel (dep_Key d)) deployments"

record demo_output =
  do_file :: string
  do_bytes :: string
  do_apiKey :: string
  do_models :: "string list"

definition snapshotgen_run ::
  "codec \<Rightarrow> (pb_snapshot \<Rightarrow> go_error + string) \<Rightarrow> unmarshal_fun \<Rightarrow> hmac_fun \<Rightarrow> (string \<Rightarrow> string \<Rightarrow> go_error option) \<Rightarrow>
   gotime \<Rightarrow> demo_config \<Rightarrow> go_error + demo_output" where
  \<comment> \<open>\<open>ser\<close> serialises the whole message and \<open>write\<close> writes a file.\<close>
  "snapshotgen_run c ser unmarshal hmac write now cfg =
     (if dc_pepper cfg = '''' then Inl (Foreign ''-pepper is required and must match GATEWAY_KEY_PEPPER'' None)
      else (case SealGlobal (cd_sha c) (cd_global c) (EncodeGlobal unmarshal (demo_global cfg now)) of
          Inl e \<Rightarrow> Inl e
        | Inr global \<Rightarrow>
            (case SealTenant (cd_sha c) (cd_tenant c) (EncodeTenant unmarshal (demo_tenant hmac cfg now)) of
               Inl e \<Rightarrow> Inl e
             | Inr tenant \<Rightarrow>
                 (case wire_Marshal ser \<lparr>psn_global = Some global, psn_tenants = [tenant]\<rparr> of
                    Inl e \<Rightarrow> Inl e
                  | Inr b \<Rightarrow>
                      (case write (dc_out cfg) b of
                         Some e \<Rightarrow> Inl e
                       | None \<Rightarrow> Inr \<lparr>do_file = dc_out cfg, do_bytes = b, do_apiKey = ''gw_demo_'' @ dc_secret cfg,
                                     do_models = modelNames (demo_aliases cfg) (demo_deployments cfg)\<rparr>)))))"

section \<open>The layers can be built\<close>

lemma deployments_accepted:
  assumes "list_all deployment_ok ds" "distinct (map dep_ID ds)" "\<forall>d \<in> set ds. map_of (gl_deployments g) (dep_ID d) = None"
  shows "\<exists>g'. loop_err add_deployment g ds = Inr g'"
  using assms
proof (induction ds arbitrary: g)
  case (Cons d ds)
  then have "add_deployment g d = Inr (index_deployment g d)" by (simp add: add_deployment_Inr)
  moreover have "\<exists>g'. loop_err add_deployment (index_deployment g d) ds = Inr g'"
    using Cons.prems by (intro Cons.IH) (auto simp: index_deployment_def, metis imageI)
  ultimately show ?case by simp
qed simp

lemma aliases_accepted:
  assumes "list_all (\<lambda>a. validateAlias a (gl_byRoute g) = None) as"
  shows "\<exists>g'. loop_err add_alias g as = Inr g'"
  using assms
proof (induction as arbitrary: g)
  case (Cons a as)
  then show ?case using Cons.IH[of "g\<lparr>gl_aliases := AList.update (alias_Name a) a (gl_aliases g)\<rparr>"] by (simp add: add_alias_def)
qed simp

lemma NewGlobalLayer_accepts:
  assumes "v_Number (gs_Version spec) \<noteq> 0" "list_all deployment_ok (gs_Deployments spec)" "distinct (map dep_ID (gs_Deployments spec))"
    "list_all (\<lambda>a. alias_Name a \<noteq> '''' \<and> alias_Targets a \<noteq> [] \<and>
       list_all (\<lambda>t. \<exists>d \<in> set (gs_Deployments spec). dep_Key d = t) (alias_Targets a)) (gs_Aliases spec)"
    "gs_DefaultPlugins spec = []"
  shows "\<exists>g. NewGlobalLayer spec = Inr g"
proof -
  obtain g1 where g1: "loop_err add_deployment (empty_global spec) (gs_Deployments spec) = Inr g1"
    using deployments_accepted[OF assms(2,3), of "empty_global spec"] by (auto simp: empty_global_def)
  have i: "indexes (gs_Deployments spec) g1" using add_deployments_indexes[OF g1] by simp
  have "list_all (\<lambda>a. validateAlias a (gl_byRoute g1) = None) (gs_Aliases spec)"
    using assms(4) indexes_route_nonempty[OF i] by (auto simp: validateAlias_def list_all_iff filter_empty_conv split: list.splits)
  with aliases_accepted obtain g2 where "loop_err add_alias g1 (gs_Aliases spec) = Inr g2" by blast
  with g1 assms(1,5) show ?thesis by (simp add: NewGlobalLayer_def)
qed

definition demo_wf :: "demo_config \<Rightarrow> bool" where
  \<comment> \<open>The upstreams that are registered have a model.\<close>
  "demo_wf cfg = ((dc_endpoint cfg = '''' \<or> dc_model cfg \<noteq> '''') \<and> (dc_anthropicEndpoint cfg = '''' \<or> dc_anthropicModel cfg \<noteq> ''''))"

lemma demo_deployments_ok:
  assumes "demo_wf cfg"
  shows "list_all deployment_ok (demo_deployments cfg)" "distinct (map dep_ID (demo_deployments cfg))"
  using assms
  by (auto simp: demo_wf_def demo_deployments_def demo_echo_def demo_upstream_def demo_anthropic_def demo_key_def deployment_ok_def)

lemma demo_aliases_ok:
  "list_all (\<lambda>a. alias_Name a \<noteq> '''' \<and> alias_Targets a \<noteq> [] \<and>
     list_all (\<lambda>t. \<exists>d \<in> set (demo_deployments cfg). dep_Key d = t) (alias_Targets a)) (demo_aliases cfg)"
  by (auto simp: demo_aliases_def demo_deployments_def demo_echo_def demo_upstream_def demo_anthropic_def)

lemma map_round_trips: "map (\<lambda>d. decodeDeployment (encodeDeployment d)) ds = ds" "map (\<lambda>a. decodeAlias (encodeAlias a)) as = as"
  by (simp_all add: wire_round_trips)

lemma demo_global_decoded:
  "DecodeGlobal marshal ((EncodeGlobal unmarshal (demo_global cfg now))\<lparr>pgl_version := v\<rparr>) =
     (demo_global cfg (fromUnixMillis (toUnixMillis now)))\<lparr>gs_Version := decodeVersion v\<rparr>"
  by (simp add: DecodeGlobal_def EncodeGlobal_def demo_global_def comp_def map_round_trips marshalPolicy_def unmarshalPolicy_def)

lemma demo_tenant_decoded:
  assumes "32 \<le> length (hmac (dc_pepper cfg) (dc_secret cfg))"
  shows "DecodeTenant marshal ((EncodeTenant unmarshal (demo_tenant hmac cfg now))\<lparr>ptl_version := v\<rparr>) =
     (demo_tenant hmac cfg (fromUnixMillis (toUnixMillis now)))\<lparr>ts_Version := decodeVersion v\<rparr>"
proof -
  have "decodePrincipal (encodePrincipal demo_principal) = demo_principal"
    by (rule principal_round_trip) (simp add: demo_principal_def time_ok_def)
  moreover have "length (ComputeKeyLookup hmac (dc_pepper cfg) (dc_secret cfg)) = 32" using assms by (simp add: ComputeKeyLookup_def)
  ultimately show ?thesis
    by (simp add: DecodeTenant_def EncodeTenant_def demo_tenant_def marshalPolicy_def unmarshalPolicy_def wire_round_trips add_key_entry_def)
qed

lemma demo_tenant_built:
  assumes "v_Number v \<noteq> 0"
  shows "\<exists>t. NewTenantLayer ((demo_tenant hmac cfg now)\<lparr>ts_Version := v\<rparr>) = Inr t \<and> tl_tenant t = ''demo'' \<and>
    tl_keys t = [(ComputeKeyLookup hmac (dc_pepper cfg) (dc_secret cfg), ''demo-key'')] \<and>
    tl_principals t = [(''demo-key'', demo_principal)] \<and> tl_aliases t = []"
  using assms
  by (simp add: NewTenantLayer_def demo_tenant_def empty_tenant_def add_budget_def add_principal_def check_keys_def basisPointsPerUnit_def
      demo_principal_def)

section \<open>The file opens\<close>

lemma SealGlobal_verifies:
  assumes "SealGlobal sha ser m = Inr m'" "pgl_version m = Some v"
  obtains d where "m' = m\<lparr>pgl_version := Some (v\<lparr>pbv_digest := d\<rparr>)\<rparr>" "VerifyGlobal sha ser (Some m') = None"
proof -
  obtain d where d: "DigestGlobal sha ser m = Inr d" and m': "m' = m\<lparr>pgl_version := Some (v\<lparr>pbv_digest := d\<rparr>)\<rparr>"
    using assms by (auto simp: SealGlobal_def ensureVersion_def split: sum.splits)
  have "DigestGlobal sha ser m' = Inr d" using d assms(2) by (simp add: DigestGlobal_def m' clearDigest_def)
  then have "VerifyGlobal sha ser (Some m') = None" by (simp add: VerifyGlobal_def m' GetDigest_def Let_def)
  with m' that show ?thesis by blast
qed

lemma SealTenant_verifies:
  assumes "SealTenant sha ser m = Inr m'" "ptl_version m = Some v"
  obtains d where "m' = m\<lparr>ptl_version := Some (v\<lparr>pbv_digest := d\<rparr>)\<rparr>" "VerifyTenant sha ser m' = None"
proof -
  obtain d where d: "DigestTenant sha ser m = Inr d" and m': "m' = m\<lparr>ptl_version := Some (v\<lparr>pbv_digest := d\<rparr>)\<rparr>"
    using assms by (auto simp: SealTenant_def ensureVersion_def split: sum.splits)
  have "DigestTenant sha ser m' = Inr d" using d assms(2) by (simp add: DigestTenant_def m' clearDigest_def)
  then have "VerifyTenant sha ser m' = None" by (simp add: VerifyTenant_def m' GetDigest_def Let_def)
  with m' that show ?thesis by blast
qed

text \<open>What a snapshot composed of the two demo layers answers.\<close>

definition opens_demo :: "hmac_fun \<Rightarrow> demo_config \<Rightarrow> snapshot \<Rightarrow> bool" where
  "opens_demo hmac cfg snap =
     (TenantForPrefix snap ''demo'' = Some ''demo'' \<and>
      snap_Principal snap ''demo'' (ComputeKeyLookup hmac (dc_pepper cfg) (dc_secret cfg)) = Some demo_principal \<and>
      list_all (\<lambda>name. list_ex (\<lambda>k. snap_Deployments snap k \<noteq> []) (ResolveAlias snap ''demo'' name))
        (modelNames (demo_aliases cfg) (demo_deployments cfg)))"

lemma global_names_resolve:
  assumes wf: "global_wf (demo_deployments cfg) (sn_global snap)" and al: "map_of (sn_tenants snap) ''demo'' = Some t" "tl_aliases t = []"
    and g: "\<And>a. a \<in> set (demo_aliases cfg) \<Longrightarrow> map_of (gl_aliases (sn_global snap)) (alias_Name a) \<noteq> None"
  shows "list_all (\<lambda>name. list_ex (\<lambda>k. snap_Deployments snap k \<noteq> []) (ResolveAlias snap ''demo'' name))
      (modelNames (demo_aliases cfg) (demo_deployments cfg))"
proof -
  have i: "indexes (demo_deployments cfg) (sn_global snap)" using wf by (simp add: global_wf_def)
  have via_alias: "list_ex (\<lambda>k. snap_Deployments snap k \<noteq> []) (ResolveAlias snap ''demo'' n)" if "map_of (gl_aliases (sn_global snap)) n = Some a" for n a
  proof -
    from wf that have "alias_Targets a \<noteq> []" "\<forall>t \<in> set (alias_Targets a). \<exists>d \<in> set (demo_deployments cfg). dep_Key d = t"
      by (auto simp: global_wf_def)
    with that al indexes_route_nonempty[OF i] show ?thesis
      by (cases "alias_Targets a") (auto simp: ResolveAlias_def snap_Deployments_def)
  qed
  have model: "list_ex (\<lambda>k. snap_Deployments snap k \<noteq> []) (ResolveAlias snap ''demo'' (BaseModel (dep_Key d)))"
    if d: "d \<in> set (demo_deployments cfg)" for d
  proof (cases "map_of (gl_aliases (sn_global snap)) (BaseModel (dep_Key d))")
    case None
    have "dep_Key d = \<lparr>BaseModel = BaseModel (dep_Key d), AdapterID = ''''\<rparr>"
      using d by (auto simp: demo_deployments_def demo_echo_def demo_upstream_def demo_anthropic_def demo_key_def split: if_splits)
    with None al d indexes_route_nonempty[OF i] show ?thesis by (auto simp: ResolveAlias_def snap_Deployments_def)
  next
    case (Some a)
    then show ?thesis by (rule via_alias)
  qed
  from via_alias model g show ?thesis by (fastforce simp: modelNames_def list_all_iff)
qed

lemma aliases_indexed:
  assumes "loop_err add_alias g as = Inr g'"
  shows "(\<forall>a \<in> set as. map_of (gl_aliases g') (alias_Name a) \<noteq> None) \<and>
     (\<forall>n. map_of (gl_aliases g) n \<noteq> None \<longrightarrow> map_of (gl_aliases g') n \<noteq> None)"
  using assms
proof (induction as arbitrary: g)
  case (Cons a as)
  then obtain g1 where g1: "add_alias g a = Inr g1" "loop_err add_alias g1 as = Inr g'" by (auto split: sum.splits)
  from g1(1) have "gl_aliases g1 = AList.update (alias_Name a) a (gl_aliases g)" by (auto simp: add_alias_def split: option.splits)
  with Cons.IH[OF g1(2)] show ?case by (auto simp: update_conv')
qed simp

lemma NewGlobalLayer_aliases:
  assumes "NewGlobalLayer spec = Inr g" "gs_DefaultPlugins spec = []" "a \<in> set (gs_Aliases spec)"
  shows "map_of (gl_aliases g) (alias_Name a) \<noteq> None"
  using assms aliases_indexed by (auto simp: NewGlobalLayer_def split: if_splits sum.splits)

lemma demo_decodes:
  assumes "demo_wf cfg" "32 \<le> length (hmac (dc_pepper cfg) (dc_secret cfg))" "pbv_number gv \<noteq> 0" "pbv_number tv \<noteq> 0"
  shows "\<exists>snap. DecodeSnapshot marshal (Some \<lparr>
      psn_global = Some ((EncodeGlobal unmarshal (demo_global cfg now))\<lparr>pgl_version := Some gv\<rparr>),
      psn_tenants = [(EncodeTenant unmarshal (demo_tenant hmac cfg now))\<lparr>ptl_version := Some tv\<rparr>]\<rparr>) = Inr snap \<and> opens_demo hmac cfg snap"
proof -
  define gs where "gs = (demo_global cfg (fromUnixMillis (toUnixMillis now)))\<lparr>gs_Version := decodeVersion (Some gv)\<rparr>"
  have "\<exists>g. NewGlobalLayer gs = Inr g"
    using demo_deployments_ok[OF assms(1)] demo_aliases_ok assms(3)
    by (intro NewGlobalLayer_accepts) (simp_all add: gs_def demo_global_def decodeVersion_def)
  then obtain g where g: "NewGlobalLayer gs = Inr g" by blast
  obtain t where t: "NewTenantLayer ((demo_tenant hmac cfg (fromUnixMillis (toUnixMillis now)))\<lparr>ts_Version := decodeVersion (Some tv)\<rparr>) = Inr t"
    "tl_tenant t = ''demo''" "tl_keys t = [(ComputeKeyLookup hmac (dc_pepper cfg) (dc_secret cfg), ''demo-key'')]"
    "tl_principals t = [(''demo-key'', demo_principal)]" "tl_aliases t = []"
    using demo_tenant_built[of "decodeVersion (Some tv)" hmac cfg] assms(4) by (auto simp: decodeVersion_def)
  have gw: "global_wf (demo_deployments cfg) g" "gl_tenantByPrefix g = [(''demo'', ''demo'')]"
    using NewGlobalLayer_wf[OF g] by (auto simp: gs_def demo_global_def)
  define snap where "snap = \<lparr>sn_global = g, sn_tenants = [(''demo'', t)]\<rparr>"
  have c: "Compose (Some g) [Some t] = Inr snap" using t(2) gw(2) by (simp add: Compose_def join_tenant_def snap_def)
  have al: "map_of (gl_aliases g) (alias_Name a) \<noteq> None" if "a \<in> set (demo_aliases cfg)" for a
    using NewGlobalLayer_aliases[OF g, of a] that by (simp add: gs_def demo_global_def)
  have "opens_demo hmac cfg snap"
    using global_names_resolve[of cfg snap t] gw t(3-5) al
    by (simp add: opens_demo_def snap_def TenantForPrefix_def snap_Principal_def)
  moreover have "DecodeSnapshot marshal (Some \<lparr>
      psn_global = Some ((EncodeGlobal unmarshal (demo_global cfg now))\<lparr>pgl_version := Some gv\<rparr>),
      psn_tenants = [(EncodeTenant unmarshal (demo_tenant hmac cfg now))\<lparr>ptl_version := Some tv\<rparr>]\<rparr>) = Inr snap"
    using g t(1) c
    by (simp add: DecodeSnapshot_def demo_global_decoded demo_tenant_decoded[where hmac = hmac and cfg = cfg, OF assms(2)] gs_def[symmetric])
  ultimately show ?thesis by blast
qed

lemma demo_key_parses: "s \<noteq> '''' \<Longrightarrow> ParseAPIKey (''gw_demo_'' @ s) = Inr (''demo'', s)"
  by (simp add: ParseAPIKey_Inr)

text \<open>Claim C12. The API key that \<open>snapshotgen\<close> prints opens a gateway that runs on the file it wrote. When the run ends without
  an error, the key is not empty, every upstream that was named has a model, and the protobuf decoder reads back what the encoder
  wrote, the bytes pass the gateway's digest verification and decode to a snapshot; the printed key authenticates against it under
  the same pepper as the demo key of tenant \<open>demo\<close>; and every model name printed resolves to a route that has a deployment.\<close>

theorem demo_key_is_accepted:
  assumes run: "snapshotgen_run c ser unmarshal hmac write now cfg = Inr out"
    and secret: "dc_secret cfg \<noteq> ''''" and wf: "demo_wf cfg"
    and sha256: "32 \<le> length (hmac (dc_pepper cfg) (dc_secret cfg))"
    and parse: "\<And>m b. ser m = Inr b \<Longrightarrow> cd_parse c b = Inr m"
    and pl: "pl_hmac pl = hmac" "pl_pepper pl = dc_pepper cfg" and key: "rq_APIKey req = do_apiKey out"
  shows "\<exists>snap digest p. decodeAndVerify c (do_bytes out) = Inr (snap, digest) \<and>
     authenticate pl snap req t = Inr p \<and> p_KeyID p = ''demo-key'' \<and> p_Tenant p = ''demo'' \<and>
     list_all (\<lambda>name. list_ex (\<lambda>k. snap_Deployments snap k \<noteq> []) (ResolveAlias snap ''demo'' name)) (do_models out)"
proof -
  let ?G = "EncodeGlobal unmarshal (demo_global cfg now)" and ?T = "EncodeTenant unmarshal (demo_tenant hmac cfg now)"
  have v: "pgl_version ?G = Some \<lparr>pbv_number = 1, pbv_digest = ''''\<rparr>" "ptl_version ?T = Some \<lparr>pbv_number = 1, pbv_digest = ''''\<rparr>"
    by (simp_all add: EncodeGlobal_def EncodeTenant_def demo_global_def demo_tenant_def encodeVersion_def)
  from run obtain g tn b where sg: "SealGlobal (cd_sha c) (cd_global c) ?G = Inr g" and st: "SealTenant (cd_sha c) (cd_tenant c) ?T = Inr tn"
    and b: "ser \<lparr>psn_global = Some g, psn_tenants = [tn]\<rparr> = Inr b" "do_bytes out = b"
    and out: "do_apiKey out = ''gw_demo_'' @ dc_secret cfg" "do_models out = modelNames (demo_aliases cfg) (demo_deployments cfg)"
    by (auto simp: snapshotgen_run_def wire_Marshal_def split: if_splits sum.splits option.splits)
  obtain d where g: "g = ?G\<lparr>pgl_version := Some \<lparr>pbv_number = 1, pbv_digest = d\<rparr>\<rparr>" and vg: "VerifyGlobal (cd_sha c) (cd_global c) (Some g) = None"
    using SealGlobal_verifies[OF sg v(1)] by auto
  obtain e where tn: "tn = ?T\<lparr>ptl_version := Some \<lparr>pbv_number = 1, pbv_digest = e\<rparr>\<rparr>" and vt: "VerifyTenant (cd_sha c) (cd_tenant c) tn = None"
    using SealTenant_verifies[OF st v(2)] by auto
  obtain snap where s: "DecodeSnapshot (cd_policy c) (Some \<lparr>psn_global = Some g, psn_tenants = [tn]\<rparr>) = Inr snap" and o: "opens_demo hmac cfg snap"
    unfolding g tn using demo_decodes[where hmac = hmac and cfg = cfg, OF wf sha256] by force
  have "decodeAndVerify c (do_bytes out) = Inr (snap, d)"
    using parse[OF b(1)] b(2) vg vt s by (simp add: decodeAndVerify_def UnmarshalSnapshot_def map_filter_simps g GetDigest_def)
  moreover have "authenticate pl snap req t = Inr demo_principal"
    using o pl demo_key_parses[OF secret, folded out(1)] key by (simp add: authenticate_def opens_demo_def Validate_def demo_principal_def)
  ultimately show ?thesis using o out(2) by (simp add: opens_demo_def demo_principal_def)
qed

definition ex_demo :: demo_config where
  "ex_demo = \<lparr>dc_out = ''snapshot.pb'', dc_pepper = ''pep'', dc_secret = ''s3cret'', dc_endpoint = ''https://up'', dc_model = ''big'',
     dc_credential = ''env:KEY'', dc_inputCost = 1, dc_outputCost = 2, dc_anthropicEndpoint = '''', dc_anthropicModel = '''',
     dc_anthropicCredential = ''''\<rparr>"

definition ex_hmac :: hmac_fun where
  "ex_hmac pepper m = take 32 (m @ replicate 32 (CHR ''0''))"

definition ex_no_bundle :: unmarshal_fun where
  "ex_no_bundle _ = Inl (err_New CodeInternal '''')"

definition ex_demo_message :: pb_snapshot where
  "ex_demo_message = \<lparr>
     psn_global = Some ((EncodeGlobal ex_no_bundle (demo_global ex_demo 0))\<lparr>pgl_version := Some \<lparr>pbv_number = 1, pbv_digest = ''sha256:67''\<rparr>\<rparr>),
     psn_tenants = [(EncodeTenant ex_no_bundle (demo_tenant ex_hmac ex_demo 0))\<lparr>ptl_version := Some \<lparr>pbv_number = 1, pbv_digest = ''sha256:74''\<rparr>\<rparr>]\<rparr>"

definition ex_demo_codec :: codec where
  "ex_demo_codec = \<lparr>cd_sha = (\<lambda>s. s), cd_global = (\<lambda>_. Inr ''g''), cd_tenant = (\<lambda>_. Inr ''t''), cd_parse = (\<lambda>_. Inr ex_demo_message),
     cd_policy = (\<lambda>_. Inr '''')\<rparr>"

definition ex_demo_ser :: "pb_snapshot \<Rightarrow> go_error + string" where
  "ex_demo_ser m = (if m = ex_demo_message then Inr ''file'' else Inl (err_New CodeInternal ''''))"

lemma ex_hex: "hex_encode ''g'' = ''67''" "hex_encode ''t'' = ''74''"
  by code_simp+

lemma ex_demo_run:
  "snapshotgen_run ex_demo_codec ex_demo_ser ex_no_bundle ex_hmac (\<lambda>_ _. None) 0 ex_demo =
     Inr \<lparr>do_file = ''snapshot.pb'', do_bytes = ''file'', do_apiKey = ''gw_demo_s3cret'', do_models = [''fast'', ''real'', ''echo-model'', ''big'']\<rparr>"
  by (simp add: snapshotgen_run_def SealGlobal_def SealTenant_def DigestGlobal_def DigestTenant_def digestOf_def wire_Marshal_def
      ex_demo_codec_def ex_demo_ser_def ex_demo_message_def ex_demo_def EncodeGlobal_def EncodeTenant_def encodeVersion_def
      ensureVersion_def demo_global_def demo_tenant_def modelNames_def demo_aliases_def demo_deployments_def demo_echo_def demo_upstream_def
      demo_key_def ex_hex)

theorem demo_key_is_accepted_witness:
  "\<exists>snap digest p. decodeAndVerify ex_demo_codec ''file'' = Inr (snap, digest) \<and>
     authenticate (ex_pipeline\<lparr>pl_hmac := ex_hmac\<rparr>) snap (ex_request\<lparr>rq_APIKey := ''gw_demo_s3cret''\<rparr>) 0 = Inr p \<and> p_KeyID p = ''demo-key'' \<and>
     list_all (\<lambda>name. list_ex (\<lambda>k. snap_Deployments snap k \<noteq> []) (ResolveAlias snap ''demo'' name)) [''fast'', ''real'', ''echo-model'', ''big'']"
proof -
  have "ex_demo_ser m = Inr b \<Longrightarrow> cd_parse ex_demo_codec b = Inr m" for m b
    by (simp add: ex_demo_ser_def ex_demo_codec_def split: if_splits)
  from demo_key_is_accepted[OF ex_demo_run _ _ _ this, of "ex_pipeline\<lparr>pl_hmac := ex_hmac\<rparr>" "ex_request\<lparr>rq_APIKey := ''gw_demo_s3cret''\<rparr>" 0]
  show ?thesis by (auto simp: ex_demo_def demo_wf_def ex_hmac_def ex_pipeline_def)
qed

end
