(* ===== verification/Startup.thy ===== *)
theory Startup
  imports Config Snapshot_Source Prober Secrets Sidecars Redis_Store Redis_Stream Pipeline
begin

text \<open>
  \<open>dataplane/cmd/gateway\<close>: how a worker is put together and taken down. What the process reads and reaches is the record
  \<open>startup\<close>: the environment, the files, the control plane, Redis, the recogniser, the listener. \<open>run\<close> is one function in
  the source, with a \<open>defer\<close> after each part it starts; here it is cut into the stretches between them. Its result is how it
  returned, and the trace of what it started, did and stopped.
\<close>

section \<open>The pipeline's options\<close>

record settings =
  st_telemetry :: bool
  st_limiter :: "limiter option"
  st_guardrails :: "chain option"
  st_router :: "router option"
  st_vault :: "duration option"
  st_ner :: bool
  st_shadows :: "mirror option"
  st_region :: string
  st_pepper :: string

datatype pipeline_option =
    WithTelemetry bool
  | WithLimiter "limiter option"
  | WithRouter "router option"
  | WithRegion string
  | WithGuardrails "chain option"
  | WithVault "duration option"
  | WithNERDetector bool
  | WithShadows "mirror option"

fun apply_pipeline_option :: "settings \<Rightarrow> pipeline_option \<Rightarrow> settings" where
  "apply_pipeline_option p (WithTelemetry t) = p\<lparr>st_telemetry := t\<rparr>"
| "apply_pipeline_option p (WithLimiter l) = (if l \<noteq> None then p\<lparr>st_limiter := l\<rparr> else p)"
| "apply_pipeline_option p (WithRouter rt) = (if rt \<noteq> None then p\<lparr>st_router := rt\<rparr> else p)"
| "apply_pipeline_option p (WithRegion region) = p\<lparr>st_region := region\<rparr>"
| "apply_pipeline_option p (WithGuardrails ch) = (if ch \<noteq> None then p\<lparr>st_guardrails := ch\<rparr> else p)"
| "apply_pipeline_option p (WithVault vault) = p\<lparr>st_vault := vault\<rparr>"
| "apply_pipeline_option p (WithNERDetector detector) = p\<lparr>st_ner := detector\<rparr>"
| "apply_pipeline_option p (WithShadows mirror) = p\<lparr>st_shadows := mirror\<rparr>"

definition gateway_New :: "bool \<Rightarrow> bool \<Rightarrow> string \<Rightarrow> pipeline_option list \<Rightarrow> go_error + settings" where
  \<comment> \<open>The first two arguments say whether there are providers and credentials. A pipeline with no limiter, chain or
    telemetry uses the ones that do nothing.\<close>
  "gateway_New providers credentials pepper opts =
     (if \<not> providers then Inl (err_New CodeInternal ''the pipeline needs a provider registry'')
      else if \<not> credentials then Inl (err_New CodeInternal ''the pipeline needs a credential resolver'')
      else if pepper = '''' then Inl (err_New CodeInternal ''the pipeline needs a non-empty key pepper'')
      else (let p = foldl apply_pipeline_option
              \<lparr>st_telemetry = False, st_limiter = None, st_guardrails = None, st_router = None, st_vault = None, st_ner = False,
               st_shadows = None, st_region = '''', st_pepper = pepper\<rparr> opts
            in Inr (if st_router p = None then p\<lparr>st_router := Some (router_New None None [] None)\<rparr> else p)))"

section \<open>What the process starts from\<close>

record ('d, 'i) startup =
  sw_getenv :: "string \<Rightarrow> string"
  sw_parseFloat :: "string \<Rightarrow> go_error + float64"
  sw_parseDuration :: "string \<Rightarrow> go_error + duration"
  sw_tracing :: "config \<Rightarrow> go_error option"
  sw_wasi :: "go_error option"
  sw_engine :: "'i wasm_engine"
  sw_sha256 :: "string \<Rightarrow> string"
  sw_modules :: "string \<Rightarrow> file_reader"
  sw_inspect :: inspect_lib
  sw_readFile :: "string \<Rightarrow> go_error + string"
  sw_exchange :: "string \<Rightarrow> (string \<times> string) list \<Rightarrow> go_error + Snapshot_Source.http_response"
  sw_codec :: codec
  sw_parseURL :: "string \<Rightarrow> go_error + 'd redis"
  sw_data :: 'd
  sw_marshal :: pb_marshal
  sw_exec :: "'d pipe_exec"
  sw_metrics :: "go_error + 'd sink"
  sw_logs :: "'d sink"
  sw_injection :: "duration \<Rightarrow> guardrail_input \<Rightarrow> go_error + guardrail_result option"
  sw_ner :: "string \<Rightarrow> exchange"
  sw_listen :: "string \<Rightarrow> go_error option"
  sw_shutdown :: "duration \<Rightarrow> go_error option"

section \<open>Where the first snapshot comes from\<close>

datatype snapshot_source = FileSource string | HTTPSource string string

definition TrimSuffix :: "string \<Rightarrow> string \<Rightarrow> string" where
  "TrimSuffix s t = (if HasSuffix s t then take (length s - length t) s else s)"

definition NewHTTPSource :: "string \<Rightarrow> string \<Rightarrow> go_error + snapshot_source" where
  "NewHTTPSource baseURL token =
     (if baseURL = '''' then Inl (err_New CodeInvalidRequest ''a control-plane URL is required'')
      else Inr (HTTPSource (TrimSuffix baseURL ''/'' @ ''/v1/snapshots/current'') token))"

definition bootstrapSource :: "config \<Rightarrow> go_error + snapshot_source" where
  "bootstrapSource cfg =
     (if cf_SnapshotFile cfg \<noteq> '''' then Inr (FileSource (cf_SnapshotFile cfg))
      else NewHTTPSource (cf_ControlPlaneURL cfg) (cf_ControlPlaneToken cfg))"

fun source_Fetch :: "('d, 'i) startup \<Rightarrow> snapshot_source \<Rightarrow> fetch_fun" where
  "source_Fetch w (FileSource path) known = file_Fetch (sw_readFile w path) (decodeAndVerify (sw_codec w)) known"
| "source_Fetch w (HTTPSource url token) known = http_Fetch (sw_exchange w url) token (decodeAndVerify (sw_codec w)) known"

definition bootstrap :: "('d, 'i) startup \<Rightarrow> config \<Rightarrow> go_error + snapshot option" where
  \<comment> \<open>Inr None is the dereference of a nil snapshot in the log line.\<close>
  "bootstrap w cfg =
     (case bootstrapSource cfg of
        Inl e \<Rightarrow> Inl e
      | Inr source \<Rightarrow> (case source_Fetch w source '''' of Inl e \<Rightarrow> Inl e | Inr fetched \<Rightarrow> Inr (ft_Snapshot fetched)))"

section \<open>Where the counters live\<close>

datatype 'd limit_store = InProcess mem_store | Shared "'d redis_store"

definition openLimitStore :: "('d, 'i) startup \<Rightarrow> config \<Rightarrow> (go_error + 'd limit_store) \<times> bool" where
  \<comment> \<open>The second component says whether a client was opened and closed again.\<close>
  "openLimitStore w cfg =
     (if cf_RedisURL cfg = '''' then (Inr (InProcess mem_New), False)
      else (case sw_parseURL w (cf_RedisURL cfg) of
          Inl e \<Rightarrow> (Inl (GwError CodeInvalidRequest (Msg ''parsing GATEWAY_REDIS_URL'' []) False (Some e)), False)
        | Inr client \<Rightarrow>
            (case redis_New (Some client) [] of
               Inl e \<Rightarrow> (Inl e, True)
             | Inr store \<Rightarrow> (case redis_Ping store (sw_data w) of Some e \<Rightarrow> (Inl e, True) | None \<Rightarrow> (Inr (Shared store), False)))))"

definition is_shared :: "'d limit_store \<Rightarrow> bool" where
  \<comment> \<open>Whether there is a Redis client beside the store.\<close>
  "is_shared s = (case s of Shared _ \<Rightarrow> True | InProcess _ \<Rightarrow> False)"

section \<open>The trace\<close>

datatype part = Signals | Tracing | WasmRuntime | WasmRegistry | Subscription | LimitStore | UsageEmitter | GuardrailChain | Probing | Mirroring | Grace

record 'd wiring =
  wi_snapshot :: snapshot
  wi_store :: "'d limit_store"
  wi_emitter :: "'d emitter option"
  wi_registries :: "guardrail_registry list"
  wi_settings :: "settings option"
  wi_providers :: "(string, endpoint list) gomap"
  wi_subscribed :: bool

datatype 'd effect =
    Began part
  | Ended part
  | Discarded
  | Synced "guardrail_binding list"
  | Listening "'d wiring"
  | Drained

datatype exit = Returned "go_error option" | Panicked

type_synonym 'd outcome = "exit \<times> 'd effect list"

definition fails :: "go_error \<Rightarrow> 'd outcome" where
  "fails e = (Returned (Some e), [])"

definition deferring :: "part \<Rightarrow> 'd outcome \<Rightarrow> 'd outcome" where
  \<comment> \<open>A part that is started and whose stop is deferred: what follows runs first, also when it fails or panics.\<close>
  "deferring p rest = (case rest of (r, tr) \<Rightarrow> (r, Began p # tr @ [Ended p]))"

definition noting :: "'d effect list \<Rightarrow> 'd outcome \<Rightarrow> 'd outcome" where
  "noting es rest = (case rest of (r, tr) \<Rightarrow> (r, es @ tr))"

section \<open>run, from the last stretch to the first\<close>

definition run_serve :: "('d, 'i) startup \<Rightarrow> config \<Rightarrow> 'd wiring \<Rightarrow> 'd outcome" where
  "run_serve w cfg wi =
     noting [Listening wi]
       (case sw_listen w (cf_ListenAddr cfg) of
          Some e \<Rightarrow> fails e
        | None \<Rightarrow> deferring Grace
            (case sw_shutdown w (cf_ShutdownGrace cfg) of Some e \<Rightarrow> fails e | None \<Rightarrow> (Returned None, [Drained])))"

definition run_pipeline :: "('d, 'i) startup \<Rightarrow> config \<Rightarrow> 'd wiring \<Rightarrow> chain \<Rightarrow> duration option \<Rightarrow> bool \<Rightarrow> router \<Rightarrow> 'd outcome" where
  "run_pipeline w cfg wi ch vault ner rt =
     (case mirror_New True 0 of
        Inl e \<Rightarrow> fails e
      | Inr mirror \<Rightarrow> deferring Mirroring
          (case gateway_New True True (cf_KeyPepper cfg)
             [WithTelemetry True, WithLimiter (Some (limiter_New None)), WithRouter (Some rt), WithRegion (cf_Region cfg),
              WithGuardrails (Some ch), WithVault vault, WithNERDetector ner,
              WithShadows (Some mirror)] of
             Inl e \<Rightarrow> fails e
           | Inr p \<Rightarrow> run_serve w cfg (wi\<lparr>wi_settings := Some p\<rparr>)))"

definition run_inspection :: "('d, 'i) startup \<Rightarrow> config \<Rightarrow> 'd wiring \<Rightarrow> chain \<Rightarrow> 'd outcome" where
  \<comment> \<open>The vault, the recogniser and the prober.\<close>
  "run_inspection w cfg wi ch =
     (let vault = (if is_shared (wi_store wi) then Some (NewVault_ttl (5 * minute)) else None);
          go = (\<lambda>ner. deferring Probing
            (run_pipeline w cfg wi ch vault ner (NewProber (router_New None None [] None))))
      in if cf_NERSocket cfg = '''' then go False
         else (case err_Wrapf CodeInternal (ner_Ping (sw_ner w (cf_NERSocket cfg))) ''the NER sidecar at %s is not answering'' [AStr (cf_NERSocket cfg)] of
             Some e \<Rightarrow> fails e
           | None \<Rightarrow> go True))"

definition secret_port :: guardrail_port where
  "secret_port = \<lparr>gp_Name = ''secret-scan'', gp_Inspect = (\<lambda>_ i. map_sum (\<lambda>e. e) Some (secret_Inspect None i))\<rparr>"

definition injection_port :: "('d, 'i) startup \<Rightarrow> guardrail_port" where
  "injection_port w = \<lparr>gp_Name = ''injection-heuristics'', gp_Inspect = sw_injection w\<rparr>"

definition wasmRegistryOrNil :: "('d, 'i) startup \<Rightarrow> wasm_registry option \<Rightarrow> guardrail_registry option" where
  "wasmRegistryOrNil w r =
     (case r of
        None \<Rightarrow> None
      | Some reg \<Rightarrow> Some (\<lambda>name. map_option
          (\<lambda>g. \<lparr>gp_Name = wg_name g, gp_Inspect = (\<lambda>left i. map_sum (\<lambda>e. e) Some (wasm_Inspect (sw_engine w) (sw_inspect w) g (Some left) i))\<rparr>)
          (registry_Guardrail reg name)))"

definition run_guardrails :: "('d, 'i) startup \<Rightarrow> config \<Rightarrow> 'd wiring \<Rightarrow> wasm_registry option \<Rightarrow> 'd outcome" where
  "run_guardrails w cfg wi reg =
     (case NewStaticRegistry [secret_port, injection_port w] of
        Inl e \<Rightarrow> fails e
      | Inr builtins \<Rightarrow>
          (case NewCompositeRegistry [Some (static_Guardrail builtins), wasmRegistryOrNil w reg] of
             Inl e \<Rightarrow> fails e
           | Inr registries \<Rightarrow>
               (case chain_New True None of
                  Inl e \<Rightarrow> fails e
                | Inr ch \<Rightarrow> deferring GuardrailChain (run_inspection w cfg (wi\<lparr>wi_registries := registries\<rparr>) ch))))"

definition run_telemetry :: "('d, 'i) startup \<Rightarrow> config \<Rightarrow> 'd wiring \<Rightarrow> wasm_registry option \<Rightarrow> 'd outcome" where
  "run_telemetry w cfg wi reg =
     (case (if is_shared (wi_store wi) then map_sum (\<lambda>e. e) Some (stream_sink_New True []) else Inr None) of
        Inl e \<Rightarrow> fails e
      | Inr usage \<Rightarrow>
          (case sw_metrics w of
             Inl e \<Rightarrow> fails e
           | Inr prom \<Rightarrow>
               (case NewEmitter ([Some prom, Some (sw_logs w)] @
                        (case usage of Some s \<Rightarrow> [Some (redis_sink (sw_marshal w) (sw_exec w) s (sw_data w))] | None \<Rightarrow> [])) [WithErrorHandler] of
                  Inl e \<Rightarrow> fails e
                | Inr em \<Rightarrow> deferring UsageEmitter (run_guardrails w cfg (wi\<lparr>wi_emitter := Some em\<rparr>) reg))))"

definition provider_set :: "(string \<times> endpoint list) list" where
  "provider_set =
     [(''echo'', [EndpointChatCompletions, EndpointMessages, EndpointEmbeddings]), (''openai-compatible'', [EndpointChatCompletions]),
      (''anthropic'', [EndpointMessages])]"

definition run_stores :: "('d, 'i) startup \<Rightarrow> config \<Rightarrow> snapshot \<Rightarrow> bool \<Rightarrow> wasm_registry option \<Rightarrow> 'd outcome" where
  "run_stores w cfg snap subscribed reg =
     (case NewStaticProviders provider_set of
        Inl e \<Rightarrow> fails e
      | Inr providers \<Rightarrow>
          (case NewResolver True None of
             Inl e \<Rightarrow> fails e
           | Inr credentials \<Rightarrow>
               (case openLimitStore w cfg of
                  (Inl e, discarded) \<Rightarrow> noting (if discarded then [Discarded] else []) (fails e)
                | (Inr store, _) \<Rightarrow> deferring LimitStore
                    (run_telemetry w cfg
                       \<lparr>wi_snapshot = snap, wi_store = store, wi_emitter = None, wi_registries = [], wi_settings = None,
                        wi_providers = providers, wi_subscribed = subscribed\<rparr> reg))))"

definition run_snapshot :: "('d, 'i) startup \<Rightarrow> config \<Rightarrow> wasm_registry option \<Rightarrow> 'd outcome" where
  "run_snapshot w cfg reg =
     (case bootstrap w cfg of
        Inl e \<Rightarrow> fails e
      | Inr None \<Rightarrow> (Panicked, [])
      | Inr (Some initial) \<Rightarrow>
          noting (if reg \<noteq> None then [Synced (AllGuardrails initial)] else [])
            (let reg' = map_option (Sync (sw_engine w) (withDefaults \<lparr>wl_MemoryPages = 0, wl_MaxOutputBytes = 0, wl_CallTimeout = 0\<rparr>)
                          (sw_sha256 w) (sw_modules w (cf_WASMDir cfg)) 0 (AllGuardrails initial)) reg
             in case holder_New (Some initial) of
                  Inl e \<Rightarrow> fails e
                | Inr holder \<Rightarrow>
                    if cf_ControlPlaneURL cfg = '''' then run_stores w cfg (Current holder) False reg'
                    else (case NewHTTPSource (cf_ControlPlaneURL cfg) (cf_ControlPlaneToken cfg) of
                        Inl e \<Rightarrow> fails e
                      | Inr source \<Rightarrow> deferring Subscription (run_stores w cfg (Current holder) True reg'))))"

definition NewModuleStore :: "string \<Rightarrow> go_error option" where
  "NewModuleStore dir = (if dir = '''' then Some (err_New CodeInvalidRequest ''a module store needs a directory'') else None)"

definition run_components :: "('d, 'i) startup \<Rightarrow> config \<Rightarrow> 'd outcome" where
  "run_components w cfg =
     (if cf_WASMDir cfg = '''' then run_snapshot w cfg None
      else (case err_Wrap CodeInternal (sw_wasi w) ''preparing the WASM runtime'' of
          Some e \<Rightarrow> fails e
        | None \<Rightarrow> deferring WasmRuntime
            (case NewModuleStore (cf_WASMDir cfg) of
               Some e \<Rightarrow> fails e
             | None \<Rightarrow> deferring WasmRegistry (run_snapshot w cfg (Some NewRegistry)))))"

definition startup_run :: "('d, 'i) startup \<Rightarrow> 'd outcome" where
  "startup_run w =
     (case config_Load (sw_parseFloat w) (sw_parseDuration w) (sw_getenv w) of
        Inl e \<Rightarrow> fails e
      | Inr cfg \<Rightarrow> deferring Signals
          (case sw_tracing w cfg of Some e \<Rightarrow> fails e | None \<Rightarrow> deferring Tracing (run_components w cfg)))"

definition main_exit :: "('d, 'i) startup \<Rightarrow> int" where
  \<comment> \<open>The status the process exits with; a panic of the main goroutine is status 2.\<close>
  "main_exit w = (case fst (startup_run w) of Returned None \<Rightarrow> 0 | Returned (Some _) \<Rightarrow> 1 | Panicked \<Rightarrow> 2)"

section \<open>What a run promises\<close>

definition is_end :: "'d effect \<Rightarrow> bool" where
  "is_end e = (case e of Ended _ \<Rightarrow> True | _ \<Rightarrow> False)"

definition begun :: "'d effect list \<Rightarrow> part list" where
  "begun tr = List.map_filter (\<lambda>e. case e of Began p \<Rightarrow> Some p | _ \<Rightarrow> None) tr"

definition stops_in_reverse :: "part list \<Rightarrow> 'd effect list \<Rightarrow> bool" where
  \<comment> \<open>Some of the parts were started, in this order, and then exactly they were stopped, in reverse.\<close>
  "stops_in_reverse ps tr = (\<exists>work n. list_all (\<lambda>e. \<not> is_end e) work \<and> begun work = take n ps \<and> tr = work @ map Ended (rev (take n ps)))"

definition parts :: "config \<Rightarrow> part list" where
  "parts cfg =
     [Signals, Tracing] @ (if cf_WASMDir cfg \<noteq> '''' then [WasmRuntime, WasmRegistry] else []) @
     (if cf_ControlPlaneURL cfg \<noteq> '''' then [Subscription] else []) @
     [LimitStore, UsageEmitter, GuardrailChain, Probing, Mirroring, Grace]"

definition reachable_store :: "('d, 'i) startup \<Rightarrow> config \<Rightarrow> bool" where
  "reachable_store w cfg =
     (cf_RedisURL cfg = '''' \<or> (case sw_parseURL w (cf_RedisURL cfg) of
        Inl _ \<Rightarrow> False | Inr client \<Rightarrow> redis_Ping \<lparr>rk_client = client, rk_timeout = redis_DefaultTimeout\<rparr> (sw_data w) = None))"

definition ready :: "('d, 'i) startup \<Rightarrow> config \<Rightarrow> bool" where
  "ready w cfg =
     (sw_tracing w cfg = None \<and> (cf_WASMDir cfg = '''' \<or> sw_wasi w = None) \<and>
      (case bootstrap w cfg of Inr (Some _) \<Rightarrow> True | _ \<Rightarrow> False) \<and> reachable_store w cfg \<and>
      (case sw_metrics w of Inl _ \<Rightarrow> False | Inr _ \<Rightarrow> True) \<and>
      (cf_NERSocket cfg = '''' \<or> ner_Ping (sw_ner w (cf_NERSocket cfg)) = None))"

definition wired_stores :: "('d, 'i) startup \<Rightarrow> config \<Rightarrow> 'd wiring \<Rightarrow> bool" where
  "wired_stores w cfg wi =
     (bootstrap w cfg = Inr (Some (wi_snapshot wi)) \<and> snapshot_wf (wi_snapshot wi) \<and> routed (wi_snapshot wi) \<and>
      wi_subscribed wi = (cf_ControlPlaneURL cfg \<noteq> '''') \<and> is_shared (wi_store wi) = (cf_RedisURL cfg \<noteq> ''''))"

definition wired_telemetry :: "config \<Rightarrow> 'd wiring \<Rightarrow> bool" where
  \<comment> \<open>Usage is published exactly when there is Redis.\<close>
  "wired_telemetry cfg wi =
     (case wi_emitter wi of
        None \<Rightarrow> False
      | Some em \<Rightarrow> (''redis-stream'' \<in> set (map sk_Name (drop 2 (em_sinks em)))) = (cf_RedisURL cfg \<noteq> '''') \<and> em_onError em)"

definition wired_guardrails :: "('d, 'i) startup \<Rightarrow> 'd wiring \<Rightarrow> bool" where
  \<comment> \<open>No module displaces a guardrail of the gateway's own.\<close>
  "wired_guardrails w wi =
     (composite_Guardrail (wi_registries wi) ''secret-scan'' = Some secret_port \<and>
      composite_Guardrail (wi_registries wi) ''injection-heuristics'' = Some (injection_port w))"

definition wired_settings :: "config \<Rightarrow> settings option \<Rightarrow> bool" where
  \<comment> \<open>Nothing the pipeline would silently do without is missing.\<close>
  "wired_settings cfg s =
     (case s of
        None \<Rightarrow> False
      | Some p \<Rightarrow> st_telemetry p \<and> st_limiter p \<noteq> None \<and> st_guardrails p \<noteq> None \<and> st_shadows p \<noteq> None \<and>
          (case st_router p of None \<Rightarrow> False | Some rt \<Rightarrow> rt_observer rt \<noteq> None) \<and>
          st_vault p = (if cf_RedisURL cfg \<noteq> '''' then Some (5 * minute) else None) \<and>
          st_ner p = (cf_NERSocket cfg \<noteq> '''') \<and> st_pepper p = cf_KeyPepper cfg \<and> 32 \<le> length (st_pepper p))"

definition wired :: "('d, 'i) startup \<Rightarrow> config \<Rightarrow> 'd wiring \<Rightarrow> bool" where
  "wired w cfg wi = (wired_stores w cfg wi \<and> wired_telemetry cfg wi \<and> wired_guardrails w wi \<and> wired_settings cfg (wi_settings wi))"

definition run_ok :: "('d, 'i) startup \<Rightarrow> config \<Rightarrow> bool \<Rightarrow> part list \<Rightarrow> 'd outcome \<Rightarrow> bool" where
  "run_ok w cfg reached ps res =
     (stops_in_reverse ps (snd res) \<and>
      list_ex (\<lambda>e. case e of Listening _ \<Rightarrow> True | _ \<Rightarrow> False) (snd res) = reached \<and>
      list_all (\<lambda>e. case e of Listening wi \<Rightarrow> wired w cfg wi | _ \<Rightarrow> True) (snd res) \<and>
      (fst res = Returned None) = (Drained \<in> set (snd res)))"

lemma begun_simps [simp]:
  "begun [] = []" "begun (Began p # tr) = p # begun tr" "begun (Listening wi # tr) = begun tr" "begun (Synced bs # tr) = begun tr"
  "begun (Discarded # tr) = begun tr" "begun (Drained # tr) = begun tr"
  by (simp_all add: begun_def map_filter_simps)

lemma run_ok_fails: "run_ok w cfg reached ps (fails e) = (\<not> reached)"
  by (force simp: run_ok_def fails_def stops_in_reverse_def intro: exI[of _ 0])

lemma run_ok_deferring:
  assumes "run_ok w cfg reached ps rest"
  shows "run_ok w cfg reached (p # ps) (deferring p rest)"
proof -
  obtain work n where "list_all (\<lambda>e. \<not> is_end e) work" "begun work = take n ps" "snd rest = work @ map Ended (rev (take n ps))"
    using assms by (auto simp: run_ok_def stops_in_reverse_def)
  then have "stops_in_reverse (p # ps) (snd (deferring p rest))"
    unfolding stops_in_reverse_def by (intro exI[of _ "Began p # work"] exI[of _ "Suc n"]) (auto simp: deferring_def is_end_def split: prod.split)
  with assms show ?thesis by (auto simp: run_ok_def deferring_def split: prod.split)
qed

lemma run_ok_noting:
  assumes "run_ok w cfg reached ps rest" "list_all (\<lambda>e. case e of Synced _ \<Rightarrow> True | Discarded \<Rightarrow> True | _ \<Rightarrow> False) es"
  shows "run_ok w cfg reached ps (noting es rest)"
proof -
  have "begun (es @ tr) = begun tr" "list_all (\<lambda>e. \<not> is_end e) es" "Drained \<notin> set es" for tr
    using assms(2) by (induction es) (auto simp: is_end_def split: effect.splits)
  moreover have "list_all (\<lambda>e. case e of Listening wi \<Rightarrow> False | _ \<Rightarrow> True) es"
    using assms(2) by (auto simp: list_all_iff split: effect.splits)
  moreover obtain work n where "list_all (\<lambda>e. \<not> is_end e) work" "begun work = take n ps" "snd rest = work @ map Ended (rev (take n ps))"
    using assms(1) by (auto simp: run_ok_def stops_in_reverse_def)
  ultimately have "stops_in_reverse ps (snd (noting es rest))"
    unfolding stops_in_reverse_def by (intro exI[of _ "es @ work"] exI[of _ n]) (auto simp: noting_def split: prod.split)
  moreover have "list_ex (\<lambda>e. case e of Listening _ \<Rightarrow> True | _ \<Rightarrow> False) es = False"
    "list_all (\<lambda>e. case e of Listening wi \<Rightarrow> wired w cfg wi | _ \<Rightarrow> True) es" "Drained \<notin> set es"
    using assms(2) by (auto simp: list_all_iff list_ex_iff split: effect.splits)
  ultimately show ?thesis using assms(1) by (auto simp: run_ok_def noting_def split: prod.split)
qed

section \<open>Each stretch\<close>

lemma run_serve_ok:
  assumes "wired w cfg wi"
  shows "run_ok w cfg True [Grace] (run_serve w cfg wi)"
proof -
  have "stops_in_reverse [Grace] [Listening wi]"
    by (auto simp: stops_in_reverse_def is_end_def intro!: exI[of _ "[Listening wi]"] exI[of _ "0 :: nat"])
  moreover have "stops_in_reverse [Grace] [Listening wi, Began Grace, Ended Grace]"
    unfolding stops_in_reverse_def by (intro exI[of _ "[Listening wi, Began Grace]"] exI[of _ "Suc 0"]) (simp add: is_end_def)
  moreover have "stops_in_reverse [Grace] [Listening wi, Began Grace, Drained, Ended Grace]"
    unfolding stops_in_reverse_def by (intro exI[of _ "[Listening wi, Began Grace, Drained]"] exI[of _ "Suc 0"]) (simp add: is_end_def)
  ultimately show ?thesis using assms
    by (simp add: run_serve_def run_ok_def noting_def fails_def deferring_def split: option.split)
qed

lemma run_pipeline_ok:
  assumes "wired_stores w cfg wi" "wired_telemetry cfg wi" "wired_guardrails w wi" "32 \<le> length (cf_KeyPepper cfg)"
    "vault = (if cf_RedisURL cfg \<noteq> '''' then Some (5 * minute) else None)" "ner = (cf_NERSocket cfg \<noteq> '''')" "rt_observer rt \<noteq> None"
  shows "run_ok w cfg True [Mirroring, Grace] (run_pipeline w cfg wi ch vault ner rt)"
proof -
  have "cf_KeyPepper cfg \<noteq> ''''" using assms(4) by auto
  then show ?thesis
    using assms
    by (auto simp: run_pipeline_def mirror_New_def gateway_New_def Let_def wired_def wired_stores_def wired_telemetry_def wired_guardrails_def
        wired_settings_def intro!: run_ok_deferring run_serve_ok)
qed

lemma run_inspection_ok:
  assumes "wired_stores w cfg wi" "wired_telemetry cfg wi" "wired_guardrails w wi" "32 \<le> length (cf_KeyPepper cfg)"
  shows "run_ok w cfg (cf_NERSocket cfg = '''' \<or> ner_Ping (sw_ner w (cf_NERSocket cfg)) = None) [Probing, Mirroring, Grace] (run_inspection w cfg wi ch)"
proof -
  have "run_ok w cfg True [Probing, Mirroring, Grace]
      (deferring Probing (run_pipeline w cfg wi ch (if is_shared (wi_store wi) then Some (NewVault_ttl (5 * minute)) else None)
         (cf_NERSocket cfg \<noteq> '''') (NewProber (router_New None None [] None))))"
    using assms by (intro run_ok_deferring run_pipeline_ok) (auto simp: wired_stores_def NewVault_ttl_def NewProber_def)
  then show ?thesis
    by (cases "ner_Ping (sw_ner w (cf_NERSocket cfg))")
      (auto simp: run_inspection_def Let_def err_Wrapf_def run_ok_fails)
qed

lemma run_guardrails_ok:
  assumes "wired_stores w cfg wi" "wired_telemetry cfg wi" "32 \<le> length (cf_KeyPepper cfg)"
  shows "run_ok w cfg (cf_NERSocket cfg = '''' \<or> ner_Ping (sw_ner w (cf_NERSocket cfg)) = None) [GuardrailChain, Probing, Mirroring, Grace]
     (run_guardrails w cfg wi reg)"
proof -
  let ?b = "[(''secret-scan'', secret_port), (''injection-heuristics'', injection_port w)]"
  have b: "NewStaticRegistry [secret_port, injection_port w] = Inr ?b"
    by (simp add: NewStaticRegistry_def index_guardrail_def secret_port_def injection_port_def)
  obtain rs where rs: "NewCompositeRegistry [Some (static_Guardrail ?b), wasmRegistryOrNil w reg] = Inr (static_Guardrail ?b # rs)"
    by (cases reg) (auto simp: NewCompositeRegistry_def wasmRegistryOrNil_def)
  have "wired_guardrails w (wi\<lparr>wi_registries := static_Guardrail ?b # rs\<rparr>)" by (simp add: wired_guardrails_def static_Guardrail_def)
  with assms show ?thesis
    by (auto simp: run_guardrails_def b rs chain_New_def wired_stores_def wired_telemetry_def intro!: run_ok_deferring run_inspection_ok)
qed

lemma run_telemetry_ok:
  assumes "wired_stores w cfg wi" "32 \<le> length (cf_KeyPepper cfg)"
  shows "run_ok w cfg ((case sw_metrics w of Inl _ \<Rightarrow> False | Inr _ \<Rightarrow> True) \<and> (cf_NERSocket cfg = '''' \<or> ner_Ping (sw_ner w (cf_NERSocket cfg)) = None))
     [UsageEmitter, GuardrailChain, Probing, Mirroring, Grace] (run_telemetry w cfg wi reg)"
proof (cases "sw_metrics w")
  case (Inl e)
  then show ?thesis by (simp add: run_telemetry_def stream_sink_New_def run_ok_fails)
next
  case (Inr prom)
  have "wired_stores w cfg (wi\<lparr>wi_emitter := x\<rparr>)" for x using assms(1) by (simp add: wired_stores_def)
  moreover have "is_shared (wi_store wi) = (cf_RedisURL cfg \<noteq> '''')" using assms(1) by (simp add: wired_stores_def)
  ultimately show ?thesis
    using Inr assms(2)
    by (auto simp: run_telemetry_def stream_sink_New_def NewEmitter_def map_filter_simps redis_sink_def wired_telemetry_def
        intro!: run_ok_deferring run_guardrails_ok)
qed

definition served_parts :: "part list" where
  "served_parts = [LimitStore, UsageEmitter, GuardrailChain, Probing, Mirroring, Grace]"

lemma openLimitStore_reachable:
  "case openLimitStore w cfg of
     (Inl e, _) \<Rightarrow> \<not> reachable_store w cfg
   | (Inr store, _) \<Rightarrow> reachable_store w cfg \<and> is_shared store = (cf_RedisURL cfg \<noteq> '''')"
  by (auto simp: openLimitStore_def reachable_store_def redis_New_def is_shared_def split: sum.splits option.splits)

lemma run_stores_ok:
  assumes "bootstrap w cfg = Inr (Some snap)" "snapshot_wf snap" "routed snap" "subscribed = (cf_ControlPlaneURL cfg \<noteq> '''')"
    "32 \<le> length (cf_KeyPepper cfg)"
  shows "run_ok w cfg (reachable_store w cfg \<and> (case sw_metrics w of Inl _ \<Rightarrow> False | Inr _ \<Rightarrow> True) \<and>
      (cf_NERSocket cfg = '''' \<or> ner_Ping (sw_ner w (cf_NERSocket cfg)) = None)) served_parts (run_stores w cfg snap subscribed reg)"
proof -
  have p: "NewStaticProviders provider_set = Inr provider_set"
    by (simp add: NewStaticProviders_def provider_set_def index_provider_def)
  have c: "\<exists>r. NewResolver True None = Inr r" by (simp add: NewResolver_def DefaultTTL_def)
  show ?thesis
  proof (cases "openLimitStore w cfg")
    case (Pair store discarded)
    with openLimitStore_reachable[of w cfg] p c assms show ?thesis
      by (cases store)
        (auto simp: run_stores_def served_parts_def run_ok_fails wired_stores_def intro!: run_ok_deferring run_telemetry_ok run_ok_noting
          dest: run_telemetry_ok)
  qed
qed

lemma bootstrap_coherent: "bootstrap w cfg = Inr (Some snap) \<Longrightarrow> snapshot_wf snap \<and> routed snap"
proof -
  assume b: "bootstrap w cfg = Inr (Some snap)"
  then obtain source f where f: "source_Fetch w source '''' = Inr f" "ft_Snapshot f = Some snap"
    by (auto simp: bootstrap_def split: sum.splits)
  then show ?thesis
    using sources_yield_coherent_snapshots[where exchange = "sw_exchange w (case source of HTTPSource url _ \<Rightarrow> url | _ \<Rightarrow> '''')"
        and token = "case source of HTTPSource _ token \<Rightarrow> token | _ \<Rightarrow> ''''" and c = "sw_codec w" and known = "''''"
        and content = "sw_readFile w (case source of FileSource path \<Rightarrow> path | _ \<Rightarrow> '''')"]
    by (cases source) auto
qed

lemma NewHTTPSource_ok: "url \<noteq> '''' \<Longrightarrow> \<exists>s. NewHTTPSource url token = Inr s"
  by (simp add: NewHTTPSource_def)

lemma run_snapshot_ok:
  assumes "32 \<le> length (cf_KeyPepper cfg)"
  shows "run_ok w cfg ((case bootstrap w cfg of Inr (Some _) \<Rightarrow> True | _ \<Rightarrow> False) \<and> reachable_store w cfg \<and>
      (case sw_metrics w of Inl _ \<Rightarrow> False | Inr _ \<Rightarrow> True) \<and> (cf_NERSocket cfg = '''' \<or> ner_Ping (sw_ner w (cf_NERSocket cfg)) = None))
     ((if cf_ControlPlaneURL cfg \<noteq> '''' then [Subscription] else []) @ served_parts) (run_snapshot w cfg reg)"
proof (cases "\<exists>snap. bootstrap w cfg = Inr (Some snap)")
  case True
  then obtain snap where b: "bootstrap w cfg = Inr (Some snap)" by blast
  have "holder_New (Some snap) = Inr h \<Longrightarrow> Current h = snap" for h by (auto simp: holder_New_def Current_def newGeneration_def)
  with b bootstrap_coherent[OF b] assms NewHTTPSource_ok[of "cf_ControlPlaneURL cfg" "cf_ControlPlaneToken cfg"] show ?thesis
    by (auto simp: run_snapshot_def Let_def holder_New_def intro!: run_ok_noting run_ok_deferring run_stores_ok)
next
  case False
  moreover have "run_ok w cfg False ps (Panicked, [])" for ps
    by (force simp: run_ok_def stops_in_reverse_def intro: exI[of _ 0])
  ultimately show ?thesis by (auto simp: run_snapshot_def run_ok_fails split: sum.split option.split)
qed

lemma run_components_ok:
  assumes "32 \<le> length (cf_KeyPepper cfg)" "sw_tracing w cfg = None"
  shows "run_ok w cfg (ready w cfg) (drop 2 (parts cfg)) (run_components w cfg)"
proof (cases "cf_WASMDir cfg = ''''")
  case True
  with run_snapshot_ok[OF assms(1), of w None] assms(2) show ?thesis
    by (simp add: run_components_def parts_def served_parts_def ready_def)
next
  case False
  with run_snapshot_ok[OF assms(1), of w "Some NewRegistry"] assms(2) show ?thesis
    by (cases "sw_wasi w")
      (simp_all add: run_components_def parts_def served_parts_def ready_def NewModuleStore_def err_Wrap_def run_ok_fails run_ok_deferring)
qed

section \<open>Properties\<close>


end
