(* ===== verification/Recorder.thy ===== *)
theory Recorder
  imports Admission
begin

text \<open>
  The recorder of \<open>dataplane/internal/contracts/t.go\<close>, which runs a battery outside \<open>go test\<close>: cases nested in cases, failures,
  fatal failures, panics and clean-up functions. What a battery does with its recorder is the list of the calls it makes;
  a fatal failure or a panic cuts the list. The report is shared by a recorder and those of its cases. Durations are left out.
\<close>

section \<open>What a battery does\<close>

datatype action =
    Logf message
  | Error message
  | Fatal message
  | Panic string
  | Cleanup nat "string option"
  | Run string "action list"

text \<open>A clean-up function is known by a number and may panic.\<close>

record shared =
  sh_report :: report
  sh_ran :: "nat list"

record recorder =
  rc_path :: string
  rc_current :: "contract_case option"
  rc_cleanups :: "(nat \<times> string option) list"

datatype ending = Finished | Aborted | Panicking string

definition NewRecorder :: recorder where
  "NewRecorder = \<lparr>rc_path = '''', rc_current = None, rc_cleanups = []\<rparr>"

definition rec_Logf :: "recorder \<Rightarrow> message \<Rightarrow> recorder" where
  "rec_Logf r line = r\<lparr>rc_current := map_option (\<lambda>c. c\<lparr>cc_Logs := cc_Logs c @ [line]\<rparr>) (rc_current r)\<rparr>"

definition rec_fail :: "shared \<Rightarrow> recorder \<Rightarrow> message \<Rightarrow> shared \<times> recorder" where
  "rec_fail sh r m =
     (case rc_current r of
        None \<Rightarrow> (sh\<lparr>sh_report := sh_report sh @ [\<lparr>cc_Name = ''setup'', cc_Failures = [m], cc_Logs = []\<rparr>]\<rparr>, r)
      | Some c \<Rightarrow> (sh, r\<lparr>rc_current := Some (c\<lparr>cc_Failures := cc_Failures c @ [m]\<rparr>)\<rparr>))"

definition rec_Cleanup :: "recorder \<Rightarrow> nat \<times> string option \<Rightarrow> recorder" where
  "rec_Cleanup r f = r\<lparr>rc_cleanups := rc_cleanups r @ [f]\<rparr>"

fun run_pending :: "shared \<Rightarrow> recorder \<Rightarrow> (nat \<times> string option) list \<Rightarrow> shared \<times> recorder" where
  "run_pending sh r [] = (sh, r)"
| "run_pending sh r ((i, p) # fs) =
     (let sh1 = sh\<lparr>sh_ran := sh_ran sh @ [i]\<rparr> in
      case p of
        None \<Rightarrow> run_pending sh1 r fs
      | Some v \<Rightarrow> (case rec_fail sh1 r (Msg ''cleanup panicked: %v'' [AStr v]) of (sh2, r2) \<Rightarrow> run_pending sh2 r2 fs))"

definition runCleanups :: "shared \<Rightarrow> recorder \<Rightarrow> shared \<times> recorder" where
  "runCleanups sh r = run_pending sh (r\<lparr>rc_cleanups := []\<rparr>) (rev (rc_cleanups r))"

definition sub_recorder :: "recorder \<Rightarrow> string \<Rightarrow> recorder" where
  "sub_recorder r name =
     (let path = (if rc_path r \<noteq> '''' then rc_path r @ ''/'' @ name else name)
      in \<lparr>rc_path = path, rc_current = Some \<lparr>cc_Name = path, cc_Failures = [], cc_Logs = []\<rparr>, rc_cleanups = []\<rparr>)"

definition end_case :: "shared \<times> recorder \<times> ending \<Rightarrow> shared" where
  \<comment> \<open>The rest of \<open>Run\<close> once the goroutine of the case is done.\<close>
  "end_case res =
     (case res of (sh, sub, e) \<Rightarrow>
        (case (case e of Panicking v \<Rightarrow> rec_fail sh sub (panicked v) | _ \<Rightarrow> (sh, sub)) of (sh1, sub1) \<Rightarrow>
           (case runCleanups sh1 sub1 of (sh2, sub2) \<Rightarrow>
              sh2\<lparr>sh_report := sh_report sh2 @ (case rc_current sub2 of Some entry \<Rightarrow> [entry] | None \<Rightarrow> [])\<rparr>)))"

fun exec :: "shared \<Rightarrow> recorder \<Rightarrow> action list \<Rightarrow> shared \<times> recorder \<times> ending" where
  "exec sh r [] = (sh, r, Finished)"
| "exec sh r (Logf m # as) = exec sh (rec_Logf r m) as"
| "exec sh r (Error m # as) = (case rec_fail sh r m of (sh1, r1) \<Rightarrow> exec sh1 r1 as)"
| "exec sh r (Fatal m # as) = (case rec_fail sh r m of (sh1, r1) \<Rightarrow> (sh1, r1, Aborted))"
| "exec sh r (Panic v # as) = (sh, r, Panicking v)"
| "exec sh r (Cleanup i p # as) = exec sh (rec_Cleanup r (i, p)) as"
| "exec sh r (Run name body # as) = exec (end_case (exec sh (sub_recorder r name) body)) r as"

definition battery :: "action list \<Rightarrow> shared" where
  \<comment> \<open>A battery on a new recorder, and \<open>Finish\<close>.\<close>
  "battery as = (case exec \<lparr>sh_report = [], sh_ran = []\<rparr> NewRecorder as of (sh, r, _) \<Rightarrow> fst (runCleanups sh r))"

section \<open>What is reported\<close>

text \<open>The report told without the recorder: the actions that are reached, and what each contributes.\<close>

fun reached :: "action list \<Rightarrow> action list" where
  "reached [] = []"
| "reached (Fatal m # as) = [Fatal m]"
| "reached (Panic v # as) = [Panic v]"
| "reached (a # as) = a # reached as"

definition cleanups_of :: "action list \<Rightarrow> (nat \<times> string option) list" where
  "cleanups_of as = List.map_filter (\<lambda>a. case a of Cleanup i p \<Rightarrow> Some (i, p) | _ \<Rightarrow> None) (reached as)"

definition logs_of :: "action list \<Rightarrow> message list" where
  "logs_of as = List.map_filter (\<lambda>a. case a of Logf m \<Rightarrow> Some m | _ \<Rightarrow> None) (reached as)"

definition failures_of :: "action list \<Rightarrow> message list" where
  "failures_of as =
     List.map_filter (\<lambda>a. case a of Error m \<Rightarrow> Some m | Fatal m \<Rightarrow> Some m | Panic v \<Rightarrow> Some (panicked v) | _ \<Rightarrow> None) (reached as) @
     List.map_filter (\<lambda>(i, p). map_option (\<lambda>v. Msg ''cleanup panicked: %v'' [AStr v]) p) (rev (cleanups_of as))"

definition under :: "string \<Rightarrow> string \<Rightarrow> string" where
  "under path name = (if path \<noteq> '''' then path @ ''/'' @ name else name)"

fun cases_of :: "string \<Rightarrow> action list \<Rightarrow> report" where
  \<comment> \<open>The cases a case contains, each after those it contains itself.\<close>
  "cases_of path [] = []"
| "cases_of path (Fatal m # as) = []"
| "cases_of path (Panic v # as) = []"
| "cases_of path (Run name body # as) =
     cases_of (under path name) body @
     [\<lparr>cc_Name = under path name, cc_Failures = failures_of body, cc_Logs = logs_of body\<rparr>] @ cases_of path as"
| "cases_of path (a # as) = cases_of path as"

fun cleaned :: "action list \<Rightarrow> nat list" where
  \<comment> \<open>The clean-ups of the cases a case contains, in the order they run.\<close>
  "cleaned [] = []"
| "cleaned (Fatal m # as) = []"
| "cleaned (Panic v # as) = []"
| "cleaned (Run name body # as) = cleaned body @ map fst (rev (cleanups_of body)) @ cleaned as"
| "cleaned (a # as) = cleaned as"

section \<open>The recorder reports what was reached\<close>

definition own_failures :: "action list \<Rightarrow> message list" where
  "own_failures as = List.map_filter (\<lambda>a. case a of Error m \<Rightarrow> Some m | Fatal m \<Rightarrow> Some m | _ \<Rightarrow> None) (reached as)"

fun ending_of :: "action list \<Rightarrow> ending" where
  "ending_of [] = Finished"
| "ending_of (Fatal m # as) = Aborted"
| "ending_of (Panic v # as) = Panicking v"
| "ending_of (a # as) = ending_of as"

lemma reached_simps [simp]:
  "cleanups_of [] = []" "cleanups_of (Fatal m # as) = []" "cleanups_of (Panic v # as) = []" "cleanups_of (Logf m # as) = cleanups_of as"
  "cleanups_of (Error m # as) = cleanups_of as" "cleanups_of (Run n b # as) = cleanups_of as"
  "cleanups_of (Cleanup i p # as) = (i, p) # cleanups_of as"
  "logs_of [] = []" "logs_of (Fatal m # as) = []" "logs_of (Panic v # as) = []" "logs_of (Logf m # as) = m # logs_of as"
  "logs_of (Error m # as) = logs_of as" "logs_of (Run n b # as) = logs_of as" "logs_of (Cleanup i p # as) = logs_of as"
  "own_failures [] = []" "own_failures (Fatal m # as) = [m]" "own_failures (Panic v # as) = []" "own_failures (Logf m # as) = own_failures as"
  "own_failures (Error m # as) = m # own_failures as" "own_failures (Run n b # as) = own_failures as"
  "own_failures (Cleanup i p # as) = own_failures as"
  by (simp_all add: cleanups_of_def logs_of_def own_failures_def map_filter_simps)

lemma failures_split:
  "failures_of as = own_failures as @ (case ending_of as of Panicking v \<Rightarrow> [panicked v] | _ \<Rightarrow> []) @
     List.map_filter (\<lambda>(i, p). map_option (\<lambda>v. Msg ''cleanup panicked: %v'' [AStr v]) p) (rev (cleanups_of as))"
proof -
  have "List.map_filter (\<lambda>a. case a of Error m \<Rightarrow> Some m | Fatal m \<Rightarrow> Some m | Panic v \<Rightarrow> Some (panicked v) | _ \<Rightarrow> None) (reached as) =
      own_failures as @ (case ending_of as of Panicking v \<Rightarrow> [panicked v] | _ \<Rightarrow> [])"
    by (induction as rule: reached.induct) (simp_all add: own_failures_def map_filter_simps)
  then show ?thesis by (simp add: failures_of_def)
qed

lemma run_pending_case:
  assumes "rc_current r = Some c"
  shows "run_pending sh r fs =
     (sh\<lparr>sh_ran := sh_ran sh @ map fst fs\<rparr>,
      r\<lparr>rc_current := Some (c\<lparr>cc_Failures := cc_Failures c @
          List.map_filter (\<lambda>(i, p). map_option (\<lambda>v. Msg ''cleanup panicked: %v'' [AStr v]) p) fs\<rparr>)\<rparr>)"
  using assms
proof (induction fs arbitrary: sh r c)
  case (Cons f fs)
  obtain i p where f: "f = (i, p)" by fastforce
  show ?case
    using Cons.IH[of "r\<lparr>rc_current := Some (c\<lparr>cc_Failures := cc_Failures c @ [Msg ''cleanup panicked: %v'' [AStr (the p)]]\<rparr>)\<rparr>"]
      Cons.IH[OF Cons.prems] Cons.prems
    by (cases p) (simp_all add: f rec_fail_def map_filter_simps)
qed (simp add: map_filter_simps)

lemma end_case_report:
  assumes "rc_current sub = Some c"
  shows "end_case (sh, sub, e) =
     (let fs = rev (rc_cleanups sub)
      in sh\<lparr>sh_ran := sh_ran sh @ map fst fs,
            sh_report := sh_report sh @ [c\<lparr>cc_Failures := cc_Failures c @ (case e of Panicking v \<Rightarrow> [panicked v] | _ \<Rightarrow> []) @
              List.map_filter (\<lambda>(i, p). map_option (\<lambda>v. Msg ''cleanup panicked: %v'' [AStr v]) p) fs\<rparr>]\<rparr>)"
  using assms by (cases e) (simp_all add: end_case_def runCleanups_def run_pending_case rec_fail_def Let_def)

lemma exec_case:
  assumes "rc_current r = Some c"
  shows "exec sh r as =
     (sh\<lparr>sh_report := sh_report sh @ cases_of (rc_path r) as, sh_ran := sh_ran sh @ cleaned as\<rparr>,
      r\<lparr>rc_current := Some (c\<lparr>cc_Failures := cc_Failures c @ own_failures as, cc_Logs := cc_Logs c @ logs_of as\<rparr>),
        rc_cleanups := rc_cleanups r @ cleanups_of as\<rparr>, ending_of as)"
  using assms
proof (induction sh r as arbitrary: c rule: exec.induct)
  case (7 sh r name body as)
  let ?p = "under (rc_path r) name"
  have sub: "rc_current (sub_recorder r name) = Some \<lparr>cc_Name = ?p, cc_Failures = [], cc_Logs = []\<rparr>" "rc_path (sub_recorder r name) = ?p"
    "rc_cleanups (sub_recorder r name) = []"
    by (simp_all add: sub_recorder_def under_def Let_def)
  have "end_case (exec sh (sub_recorder r name) body) =
     sh\<lparr>sh_report := sh_report sh @ cases_of ?p body @ [\<lparr>cc_Name = ?p, cc_Failures = failures_of body, cc_Logs = logs_of body\<rparr>],
        sh_ran := sh_ran sh @ cleaned body @ map fst (rev (cleanups_of body))\<rparr>"
    using 7(1)[OF sub(1)] sub by (simp add: end_case_report failures_split Let_def)
  with 7(2)[OF 7(3)] show ?case by simp
qed (simp_all add: rec_Logf_def rec_fail_def rec_Cleanup_def)

text \<open>
  A battery that only runs cases is reported whole: every case that was reached appears under its path, after those it contains, with all
  that failed in it, whatever happened in the cases before it; and every clean-up registered in a case runs once, when the case ends
  and in reverse, however it ends.
\<close>

lemma battery_reports:
  assumes "list_all (\<lambda>a. case a of Run _ _ \<Rightarrow> True | _ \<Rightarrow> False) as"
  shows "battery as = \<lparr>sh_report = cases_of '''' as, sh_ran = cleaned as\<rparr>"
proof -
  have "exec sh NewRecorder as = (sh\<lparr>sh_report := sh_report sh @ cases_of '''' as, sh_ran := sh_ran sh @ cleaned as\<rparr>, NewRecorder, Finished)" for sh
    using assms
  proof (induction as arbitrary: sh)
    case (Cons a as)
    then obtain name body where a: "a = Run name body" by (cases a) auto
    let ?sub = "sub_recorder NewRecorder name"
    have sub: "rc_current ?sub = Some \<lparr>cc_Name = name, cc_Failures = [], cc_Logs = []\<rparr>" "rc_path ?sub = name" "rc_cleanups ?sub = []"
      by (simp_all add: sub_recorder_def NewRecorder_def Let_def)
    show ?case
      using Cons.IH Cons.prems exec_case[OF sub(1), of sh body] sub
      by (simp add: a end_case_report failures_split under_def Let_def)
  qed simp
  then show ?thesis by (simp add: battery_def runCleanups_def NewRecorder_def)
qed

lemma simple_cases:
  "report_Passed (sh_report (battery (map (\<lambda>(name, fs). Run name (map Fatal fs)) cs))) \<longleftrightarrow> cs \<noteq> [] \<and> list_all (\<lambda>(name, fs). fs = []) cs"
proof -
  have "cases_of '''' (map (\<lambda>(name, fs). Run name (map Fatal fs)) cs) =
      map (\<lambda>(name, fs). \<lparr>cc_Name = name, cc_Failures = take 1 fs, cc_Logs = []\<rparr>) cs"
  proof (induction cs)
    case (Cons c cs)
    obtain name fs where c: "c = (name, fs)" by fastforce
    show ?case using Cons by (cases fs) (simp_all add: c under_def failures_split map_filter_simps)
  qed simp
  moreover have "list_all (\<lambda>a. case a of Run _ _ \<Rightarrow> True | _ \<Rightarrow> False) (map (\<lambda>(name, fs). Run name (map Fatal fs)) cs)"
    by (auto simp: list_all_iff)
  ultimately show ?thesis
    by (cases cs) (auto simp: battery_reports report_Passed_def case_Passed_def list_all_iff)
qed

end
