(* ===== verification/Provider_Suite.thy ===== *)
theory Provider_Suite
  imports Recorder
begin

text \<open>
  The battery every provider adapter has to pass, \<open>RunProviderSuite\<close> of \<open>dataplane/internal/contracts/provider.go\<close>, as the cases it
  runs on a recorder, and for which calls the echo adapter passes it. The time a call takes is part of what a port answers.
\<close>

section \<open>The battery\<close>

datatype next_end = Ended_EOF | Ended_error go_error

text \<open>A factory builds a new port for each case; \<open>pp_Name\<close> is what the n-th question for the name answers.\<close>

record 'c provider_port =
  pp_Name :: "nat \<Rightarrow> string"
  pp_Endpoints :: "endpoint list"
  pp_Probe :: "deployment \<Rightarrow> credential \<Rightarrow> duration"
  pp_Invoke :: "call_context \<Rightarrow> provider_call \<Rightarrow> duration \<times> (go_error + provider_response option)"
  pp_Stream :: "provider_call \<Rightarrow> go_error + 'c"
  pp_Next :: "'c \<Rightarrow> chunk \<times> next_end option \<times> 'c"
  pp_Close :: "'c \<Rightarrow> go_error option \<times> 'c"

definition port_name_case :: "'c provider_port \<Rightarrow> message list" where
  "port_name_case p =
     (if pp_Name p 0 = '''' then [Msg ''Name must be non-empty: it is the key a snapshot binds the port by'' []]
      else require (pp_Name p 1 = pp_Name p 2) ''Name must be stable across calls: got %q then %q'')"

definition endpoints_case :: "'c provider_port \<Rightarrow> message list" where
  "endpoints_case p =
     (if pp_Endpoints p = [] then [Msg ''Endpoints must name at least one API surface'' []]
      else require ('''' \<notin> set (pp_Endpoints p)) ''Endpoints contains an empty surface'')"

definition probe_case :: "'c provider_port \<Rightarrow> provider_call \<Rightarrow> message list" where
  "probe_case p call =
     require (pp_Probe p (call_Deployment call) (call_Credential call) \<le> 10 * second) ''Probe did not answer; a health check must be cheap''"

definition invoke_case :: "'c provider_port \<Rightarrow> provider_call \<Rightarrow> message list" where
  "invoke_case p call =
     (case snd (pp_Invoke p Live call) of
        Inl e \<Rightarrow> [Msg ''Invoke: %v'' []]
      | Inr r \<Rightarrow> require (r \<noteq> None) ''Invoke returned a nil response and a nil error'')"

definition maxChunks :: nat where "maxChunks = 10000"

fun read_stream :: "('c \<Rightarrow> chunk \<times> next_end option \<times> 'c) \<Rightarrow> nat \<Rightarrow> 'c \<Rightarrow> bool \<Rightarrow> message list" where
  \<comment> \<open>The second argument is how many calls of \<open>Next\<close> are left.\<close>
  "read_stream nxt 0 c sawFinal = [Msg ''stream produced %d chunks without reaching io.EOF'' [AInt (int maxChunks)]]"
| "read_stream nxt (Suc n) c sawFinal =
     (case nxt c of
        (x, Some Ended_EOF, _) \<Rightarrow>
          if chunk_Body x \<noteq> '''' \<or> chunk_Final x \<or> chunk_Usage x \<noteq> no_usage
          then [Msg ''Next returned a chunk together with io.EOF; the terminating chunk must come first, with a nil error'' []]
          else require sawFinal ''no chunk was marked Final: the response leg cannot tell where usage is reported''
      | (_, Some (Ended_error e), _) \<Rightarrow> [Msg ''Next: %v'' []]
      | (x, None, c') \<Rightarrow> read_stream nxt n c' (sawFinal \<or> chunk_Final x))"

definition stream_case :: "'c provider_port \<Rightarrow> provider_call \<Rightarrow> message list" where
  "stream_case p call =
     (case pp_Stream p call of Inl e \<Rightarrow> [Msg ''Stream: %v'' []] | Inr c \<Rightarrow> read_stream (pp_Next p) maxChunks c False)"

definition close_case :: "'c provider_port \<Rightarrow> provider_call \<Rightarrow> message list" where
  "close_case p call =
     (case pp_Stream p call of
        Inl e \<Rightarrow> [Msg ''Stream: %v'' []]
      | Inr c \<Rightarrow>
          (case pp_Close p c of
             (Some e, _) \<Rightarrow> [Msg ''first Close: %v'' []]
           | (None, c') \<Rightarrow> require (fst (pp_Close p c') = None) ''second Close: %v''))"

definition port_cancelled_case :: "'c provider_port \<Rightarrow> provider_call \<Rightarrow> message list" where
  "port_cancelled_case p call =
     (case snd (pp_Invoke p Cancelled call) of
        Inr _ \<Rightarrow> [Msg ''Invoke with a cancelled context returned %v, want context.Canceled'' []]
      | Inl e \<Rightarrow> require (errors_Is e ctx_canceled) ''Invoke with a cancelled context returned %v, want context.Canceled'')"

definition port_deadline_case :: "'c provider_port \<Rightarrow> provider_call \<Rightarrow> message list" where
  "port_deadline_case p call =
     require (fst (pp_Invoke p (Deadline (2 * second)) call) \<le> 5 * second) ''Invoke outlived its context deadline''"

definition RunProviderSuite :: "'c provider_port \<Rightarrow> provider_call \<Rightarrow> action list" where
  "RunProviderSuite p call =
     map (\<lambda>(name, fs). Run name (map Fatal fs))
       [(''reports a stable non-empty name'', port_name_case p),
        (''declares at least one endpoint'', endpoints_case p),
        (''probe does not consume tokens'', probe_case p call),
        (''invoke returns a response'', invoke_case p call),
        (''stream terminates with io.EOF'', stream_case p call),
        (''close is idempotent'', close_case p call),
        (''respects a cancelled context'', port_cancelled_case p call),
        (''does not exceed a short deadline'', port_deadline_case p call)]"

section \<open>The echo adapter under it\<close>

definition context_error :: "call_context \<Rightarrow> go_error option" where
  "context_error ctx = (case ctx of Cancelled \<Rightarrow> Some ctx_canceled | _ \<Rightarrow> None)"

definition echo_port :: "echo_cursor provider_port" where
  \<comment> \<open>It waits for nothing, so its calls take no time.\<close>
  "echo_port =
     \<lparr>pp_Name = (\<lambda>_. ''echo''), pp_Endpoints = [EndpointChatCompletions, EndpointMessages, EndpointEmbeddings],
      pp_Probe = (\<lambda>_ _. 0), pp_Invoke = (\<lambda>ctx call. (0, map_sum (\<lambda>e. e) Some (echo_Invoke (context_error ctx) call))),
      pp_Stream = echo_Stream None,
      pp_Next = (\<lambda>c. case echo_Next None c of
        (Item x, c') \<Rightarrow> (x, None, c')
      | (EOF, c') \<Rightarrow> (data_chunk '''', Some Ended_EOF, c')
      | (Stop e, c') \<Rightarrow> (data_chunk '''', Some (Ended_error e), c')),
      pp_Close = (\<lambda>c. (None, echo_Close c))\<rparr>"

lemma echo_read_stream:
  assumes "\<not> ec_closed st"
  shows "read_stream (pp_Next echo_port) n st saw = [] \<longleftrightarrow>
     length (ec_body st) - ec_offset st + ChunkSize \<le> ChunkSize * n \<and> (saw \<or> ec_offset st < length (ec_body st))"
  using assms
proof (induction n arbitrary: st saw)
  case 0
  then show ?case by (simp add: ChunkSize_def)
next
  case (Suc n)
  show ?case
  proof (cases "length (ec_body st) \<le> ec_offset st")
    case True
    with Suc.prems show ?thesis by (simp add: echo_port_def echo_Next_def data_chunk_def require_def)
  next
    case False
    let ?stop = "min (ec_offset st + ChunkSize) (length (ec_body st))"
    have "read_stream (pp_Next echo_port) (Suc n) st saw =
        read_stream (pp_Next echo_port) n (st\<lparr>ec_offset := ?stop\<rparr>) (saw \<or> length (ec_body st) \<le> ?stop)"
      using Suc.prems False by (simp add: echo_port_def echo_Next_def Let_def)
    with Suc.IH[of "st\<lparr>ec_offset := ?stop\<rparr>"] Suc.prems False show ?thesis
      by (auto simp: ChunkSize_def min_def)
  qed
qed

text \<open>
  The echo adapter keeps the contract of a provider for bodies that are not empty and fit in the battery's bound: an empty body has no
  chunk that could be marked final.
\<close>

lemma echo_passes_the_suite:
  "report_Passed (sh_report (battery (RunProviderSuite echo_port call))) \<longleftrightarrow> 0 < length (call_Body call) \<and> length (call_Body call) \<le> 159984"
proof -
  have "stream_case echo_port call = [] \<longleftrightarrow> 0 < length (call_Body call) \<and> length (call_Body call) \<le> 159984"
  proof -
    have "stream_case echo_port call = read_stream (pp_Next echo_port) maxChunks
        \<lparr>ec_body = call_Body call, ec_offset = 0, ec_usage = estimateUsage (call_Body call), ec_closed = False\<rparr> False"
      by (simp add: stream_case_def echo_port_def echo_Stream_def)
    then show ?thesis by (simp add: echo_read_stream maxChunks_def ChunkSize_def) linarith
  qed
  moreover have "port_name_case echo_port = []" "endpoints_case echo_port = []" "probe_case echo_port call = []" "invoke_case echo_port call = []"
    "close_case echo_port call = []" "port_cancelled_case echo_port call = []" "port_deadline_case echo_port call = []"
    by (simp_all add: port_name_case_def endpoints_case_def probe_case_def invoke_case_def close_case_def port_cancelled_case_def
        port_deadline_case_def echo_port_def require_def echo_Invoke_def echo_Stream_def context_error_def ctx_canceled_def)
  ultimately show ?thesis unfolding RunProviderSuite_def simple_cases by simp
qed

end
