(* ===== verification/Background.thy ===== *)
theory Background
  imports Snapshot_Holder Prober Shadow "HOL-Library.Multiset"
begin

text \<open>
  The goroutines a worker runs beside its requests, and how they are ended: the polling loop of the subscriber
  (\<open>snapshot/subscriber.go\<close>), the prober's ticker loop (\<open>router/prober.go\<close>) and the mirror's pool of workers (\<open>shadow/shadow.go\<close>). A wait
  in a loop ends because its timer fired or because the loop was stopped; which, and what a fetch then answers, is given for each round.
\<close>

section \<open>The subscriber's loop\<close>

record polling =
  po_interval :: duration
  po_minBackoff :: duration
  po_maxBackoff :: duration
  po_jitter :: "duration \<Rightarrow> duration"

datatype polling_option = WithInterval duration | WithBackoff duration duration | WithJitter "(duration \<Rightarrow> duration) option"

fun apply_polling_option :: "polling \<Rightarrow> polling_option \<Rightarrow> polling" where
  "apply_polling_option s (WithInterval d) = (if d > 0 then s\<lparr>po_interval := d\<rparr> else s)"
| "apply_polling_option s (WithBackoff minB maxB) =
     (let s1 = (if minB > 0 then s\<lparr>po_minBackoff := minB\<rparr> else s) in if maxB > 0 then s1\<lparr>po_maxBackoff := maxB\<rparr> else s1)"
| "apply_polling_option s (WithJitter fn) = (case fn of Some f \<Rightarrow> s\<lparr>po_jitter := f\<rparr> | None \<Rightarrow> s)"

definition polling_New :: "real \<Rightarrow> polling_option list \<Rightarrow> polling" where
  \<comment> \<open>The first argument is the random number of the jitter.\<close>
  "polling_New u opts = foldl apply_polling_option
     \<lparr>po_interval = 15 * second, po_minBackoff = second, po_maxBackoff = 2 * minute, po_jitter = jitterUpTo (1 / 5) u\<rparr> opts"

record subscriber_stats =
  sbs_Digest :: string
  sbs_Applied :: nat
  sbs_Unchanged :: nat
  sbs_Failed :: nat
  sbs_Rejected :: nat
  sbs_LastError :: "go_error option"

definition subscriber_Stats :: "subscriber \<Rightarrow> subscriber_stats" where
  "subscriber_Stats s =
     \<lparr>sbs_Digest = (case sub_digest s of Some d \<Rightarrow> d | None \<Rightarrow> ''''), sbs_Applied = sub_applied s, sbs_Unchanged = sub_unchanged s,
      sbs_Failed = sub_failed s, sbs_Rejected = sub_rejected s, sbs_LastError = sub_lastError s\<rparr>"

datatype wake = Fired | Stopped

record poll_round =
  pr_wait :: wake
  pr_fetch :: fetch_fun
  pr_retry :: wake

text \<open>The loop over the given rounds: whether it returned, how long it waited each time, and what it left.\<close>

fun subscriber_run ::
  "polling \<Rightarrow> poll_round list \<Rightarrow> duration \<Rightarrow> subscriber \<Rightarrow> holder \<Rightarrow> bool \<times> duration list \<times> subscriber \<times> holder" where
  "subscriber_run po [] backoff s h = (False, [], s, h)"
| "subscriber_run po (r # rs) backoff s h =
     (if pr_wait r = Stopped then (True, [po_jitter po (po_interval po)], s, h)
      else (case Refresh (pr_fetch r) s h of
          (Some e, s', h') \<Rightarrow>
            if pr_retry r = Stopped then (True, [po_jitter po (po_interval po), po_jitter po backoff], s', h')
            else (case subscriber_run po rs (next_backoff (po_minBackoff po) (po_maxBackoff po) backoff (Some e)) s' h' of
                (ret, ws, s2, h2) \<Rightarrow> (ret, po_jitter po (po_interval po) # po_jitter po backoff # ws, s2, h2))
        | (None, s', h') \<Rightarrow>
            (case subscriber_run po rs (po_minBackoff po) s' h' of
               (ret, ws, s2, h2) \<Rightarrow> (ret, po_jitter po (po_interval po) # ws, s2, h2))))"

definition stopping :: "poll_round \<Rightarrow> bool" where
  "stopping r = (pr_wait r = Stopped)"

text \<open>Stopping ends the loop: it returns at the latest in the first round whose timer is not the one that fires.\<close>

lemma subscriber_run_returns:
  "list_ex stopping rs \<Longrightarrow> \<exists>ws s' h'. subscriber_run po rs backoff s h = (True, ws, s', h')"
proof (induction rs arbitrary: backoff s h)
  case (Cons r rs)
  show ?case
  proof (cases "pr_wait r = Stopped")
    case False
    then have rs: "list_ex stopping rs" using Cons.prems by (simp add: stopping_def[of r])
    obtain err s' h' where f: "Refresh (pr_fetch r) s h = (err, s', h')" by (metis prod_cases3)
    show ?thesis
      using Cons.IH[OF rs, of "next_backoff (po_minBackoff po) (po_maxBackoff po) backoff err" s' h']
        Cons.IH[OF rs, of "po_minBackoff po" s' h'] False f
      by (cases err) (auto split: prod.split)
  qed simp
qed simp

text \<open>
  Until it is stopped the loop makes one fetch per round, whatever failed before, and what it leaves is what the fetches one after the
  other leave.
\<close>

lemma subscriber_run_refreshes:
  assumes "list_all (\<lambda>r. pr_wait r = Fired \<and> pr_retry r = Fired) rs"
  shows "\<exists>ws. subscriber_run po rs backoff s h =
     (False, ws, snd (refresh_all (po_minBackoff po) (po_maxBackoff po) (map pr_fetch rs) backoff s h))"
  using assms
proof (induction rs arbitrary: backoff s h)
  case (Cons r rs)
  obtain err s' h' where f: "Refresh (pr_fetch r) s h = (err, s', h')" by (metis prod_cases3)
  have nb: "next_backoff (po_minBackoff po) (po_maxBackoff po) backoff None = po_minBackoff po" by (simp add: next_backoff_def)
  from Cons.prems have r: "pr_wait r = Fired" "pr_retry r = Fired" "list_all (\<lambda>r. pr_wait r = Fired \<and> pr_retry r = Fired) rs" by simp_all
  obtain ws where "subscriber_run po rs (next_backoff (po_minBackoff po) (po_maxBackoff po) backoff err) s' h' =
      (False, ws, snd (refresh_all (po_minBackoff po) (po_maxBackoff po) (map pr_fetch rs)
        (next_backoff (po_minBackoff po) (po_maxBackoff po) backoff err) s' h'))"
    using Cons.IH[OF r(3)] by blast
  with f r nb show ?case by (cases err) (auto split: prod.splits)
qed simp

text \<open>
  A failing source is retried for ever and never hammered: with sane settings every wait is at least the smaller of the interval and
  the least back-off, and at most the larger of the interval and the greatest, as the jitter spreads them.
\<close>

lemma subscriber_run_waits:
  assumes "subscriber_run po rs backoff s h = (ret, ws, s', h')" "0 < po_minBackoff po" "po_minBackoff po \<le> po_maxBackoff po"
    "2 * po_maxBackoff po < 2 ^ 63" "po_minBackoff po \<le> backoff" "backoff \<le> po_maxBackoff po" "w \<in> set ws"
  shows "w = po_jitter po (po_interval po) \<or> (\<exists>b. po_minBackoff po \<le> b \<and> b \<le> po_maxBackoff po \<and> w = po_jitter po b)"
  using assms(1,5-7)
proof (induction rs arbitrary: backoff s h ret ws)
  case (Cons r rs)
  have nb: "po_minBackoff po \<le> next_backoff (po_minBackoff po) (po_maxBackoff po) backoff e \<and>
      next_backoff (po_minBackoff po) (po_maxBackoff po) backoff e \<le> po_maxBackoff po" for e
  proof -
    have "i64 (backoff * 2) = backoff * 2" using assms(2,4) Cons.prems by (intro i64_id_nonneg) linarith+
    then show ?thesis using assms(2,3) Cons.prems by (auto simp: next_backoff_def split: option.split)
  qed
  obtain err s1 h1 where f: "Refresh (pr_fetch r) s h = (err, s1, h1)" by (metis prod_cases3)
  show ?case
    using Cons.prems f Cons.IH[OF _ conjunct1[OF nb] conjunct2[OF nb]] Cons.IH[of "po_minBackoff po"] assms(3)
    by (auto split: if_splits option.splits prod.splits)
qed simp

section \<open>The prober's loop\<close>

fun prober_run :: "((router \<Rightarrow> nat \<times> router) \<times> wake) list \<Rightarrow> router \<Rightarrow> bool \<times> router" where
  \<comment> \<open>For each tick what \<open>RunOnce\<close> does, and whether it is the tick that is taken.\<close>
  "prober_run [] r = (False, r)"
| "prober_run ((once, w) # es) r = (if w = Stopped then (True, r) else prober_run es (snd (once r)))"

lemma prober_run_returns: "list_ex (\<lambda>(_, w). w = Stopped) es \<Longrightarrow> fst (prober_run es r)"
  by (induction es r rule: prober_run.induct) auto

lemma prober_run_rounds:
  "prober_run es r = (list_ex (\<lambda>(_, w). w = Stopped) es, foldl (\<lambda>r once. snd (once r)) r (map fst (takeWhile (\<lambda>(_, w). w = Fired) es)))"
proof (induction es r rule: prober_run.induct)
  case (2 once w es r)
  then show ?case by (cases w) auto
qed simp

section \<open>The mirror's pool\<close>

text \<open>
  The pool around a mirror: its workers, the copies they are at, whether \<open>Wait\<close> has closed the queue. \<open>mp_accepted\<close> and \<open>mp_called\<close>
  are what was ever queued and what was ever called; \<open>mp_panics\<close> counts sends on the closed queue, which panic in the goroutine
  of the request.
\<close>

record mirror_pool =
  mp_mirror :: mirror
  mp_workers :: nat
  mp_running :: "shadow_job list"
  mp_closed :: bool
  mp_accepted :: "shadow_job list"
  mp_called :: "shadow_job list"
  mp_panics :: nat

definition mirror_capacity :: "int \<Rightarrow> nat" where
  \<comment> \<open>The number of workers, from the argument of \<open>WithCapacity\<close>.\<close>
  "mirror_capacity workers = (if workers > 0 then nat workers else 8)"

definition pool_start :: "mirror \<Rightarrow> int \<Rightarrow> mirror_pool" where
  "pool_start m workers =
     \<lparr>mp_mirror = m, mp_workers = mirror_capacity workers, mp_running = [], mp_closed = False, mp_accepted = [], mp_called = [], mp_panics = 0\<rparr>"

definition shadow_targets :: "(nat \<Rightarrow> real) \<Rightarrow> snapshot \<Rightarrow> deployment \<Rightarrow> deployment list" where
  "shadow_targets draw snap served =
     (if IsAdapter (dep_Key served) then [] else sampled draw 0 (snap_Shadows snap (BaseModel (dep_Key served))))"

definition pool_Send :: "mirror_pool \<Rightarrow> (nat \<Rightarrow> real) \<Rightarrow> snapshot \<Rightarrow> deployment \<Rightarrow> shadow_request \<Rightarrow> mirror_pool" where
  "pool_Send p draw snap served req =
     (if mp_closed p then (if shadow_targets draw snap served = [] then p else p\<lparr>mp_panics := mp_panics p + 1\<rparr>)
      else (let m = Send (mp_mirror p) draw (Some snap) served (Some req)
            in p\<lparr>mp_mirror := m, mp_accepted := mp_accepted p @ drop (length (mi_queue (mp_mirror p))) (mi_queue m)\<rparr>))"

inductive pool_step :: "mirror_pool \<Rightarrow> mirror_pool \<Rightarrow> bool" where
  send: "pool_step p (pool_Send p draw snap served req)"
| pool_take: "mi_queue (mp_mirror p) = j # js \<Longrightarrow> length (mp_running p) < mp_workers p \<Longrightarrow>
    pool_step p (p\<lparr>mp_mirror := (mp_mirror p)\<lparr>mi_queue := js\<rparr>, mp_running := mp_running p @ [j]\<rparr>)"
| finish: "mp_running p = before @ j # after \<Longrightarrow>
    pool_step p (p\<lparr>mp_mirror := mirror_run (mp_mirror p) err, mp_running := before @ after, mp_called := mp_called p @ [j]\<rparr>)"
| close: "pool_step p (p\<lparr>mp_closed := True\<rparr>)"

inductive pool_reach :: "mirror_pool \<Rightarrow> mirror_pool \<Rightarrow> bool" for p0 where
  pool_refl: "pool_reach p0 p0"
| pool_next: "pool_reach p0 p \<Longrightarrow> pool_step p p' \<Longrightarrow> pool_reach p0 p'"

definition Wait_returns :: "mirror_pool \<Rightarrow> bool" where
  \<comment> \<open>The queue is closed and every worker has left its loop.\<close>
  "Wait_returns p = (mp_closed p \<and> mi_queue (mp_mirror p) = [] \<and> mp_running p = [])"

definition pool_inv :: "mirror_pool \<Rightarrow> bool" where
  "pool_inv p =
     (mset (mp_accepted p) = mset (mi_queue (mp_mirror p)) + mset (mp_running p) + mset (mp_called p) \<and>
      mirror_wf (mp_mirror p) \<and> length (mp_running p) \<le> mp_workers p \<and> 0 < mp_workers p \<and>
      mi_mirrored (mp_mirror p) + mi_failed (mp_mirror p) = int (length (mp_called p)))"

lemma Send_queue: "\<exists>new. mi_queue (Send m draw snap served req) = mi_queue m @ new"
  unfolding Send_def using enqueue_all by (auto simp: send_each_sampled split: option.split prod.split)

lemma Send_counters:
  "mi_mirrored (Send m draw snap served req) = mi_mirrored m \<and> mi_failed (Send m draw snap served req) = mi_failed m"
proof -
  have "mi_mirrored (send_each m draw n r ds) = mi_mirrored m \<and> mi_failed (send_each m draw n r ds) = mi_failed m" for m n r ds
    by (induction ds arbitrary: m n) (auto simp: enqueue_def)
  then show ?thesis by (auto simp: Send_def split: option.split prod.split)
qed

lemma Send_wf: "mirror_wf m \<Longrightarrow> mirror_wf (Send m draw snap served req)"
  by (auto simp: Send_def send_each_facts split: option.split prod.split)

lemma pool_step_inv: "pool_step p p' \<Longrightarrow> pool_inv p \<Longrightarrow> pool_inv p'"
proof (induction rule: pool_step.induct)
  case (send p draw snap served req)
  obtain new where n: "mi_queue (Send (mp_mirror p) draw (Some snap) served (Some req)) = mi_queue (mp_mirror p) @ new"
    using Send_queue by blast
  with send show ?case by (auto simp: pool_inv_def pool_Send_def Let_def Send_wf Send_counters)
next
  case (pool_take p j js)
  then show ?case by (auto simp: pool_inv_def mirror_wf_def)
next
  case (finish p before j after err)
  then show ?case by (auto simp: pool_inv_def mirror_run_def mirror_wf_def split: option.split)
next
  case (close p)
  then show ?case by (simp add: pool_inv_def)
qed

lemma pool_reach_inv: "pool_reach p0 p \<Longrightarrow> pool_inv p0 \<Longrightarrow> pool_inv p"
  by (induction rule: pool_reach.induct) (auto intro: pool_step_inv)

lemma pool_start_inv: "mirror_New True queue = Inr m \<Longrightarrow> pool_inv (pool_start m workers)"
  by (auto simp: pool_inv_def pool_start_def mirror_New_def mirror_wf_def mirror_capacity_def)

text \<open>
  \<open>Wait\<close> drains: when it returns, every copy that was ever accepted has been called and counted, as mirrored or as failed. It does
  return: as long as it has not, a worker can take a copy or finish one, and each such step brings the end nearer.
\<close>

lemma Wait_drains:
  assumes "mirror_New True queue = Inr m" "pool_reach (pool_start m workers) p" "Wait_returns p"
  shows "mset (mp_called p) = mset (mp_accepted p)"
    "mi_mirrored (mp_mirror p) + mi_failed (mp_mirror p) = int (length (mp_accepted p))"
proof -
  have "pool_inv p" using assms pool_reach_inv pool_start_inv by blast
  with assms(3) show 1: "mset (mp_called p) = mset (mp_accepted p)" by (simp add: pool_inv_def Wait_returns_def)
  from mset_eq_length[OF 1] \<open>pool_inv p\<close>
  show "mi_mirrored (mp_mirror p) + mi_failed (mp_mirror p) = int (length (mp_accepted p))" by (simp add: pool_inv_def)
qed

definition pool_left :: "mirror_pool \<Rightarrow> nat" where
  "pool_left p = 2 * length (mi_queue (mp_mirror p)) + length (mp_running p)"

lemma Wait_progress:
  assumes "pool_inv p" "mp_closed p" "\<not> Wait_returns p"
  shows "\<exists>p'. pool_step p p' \<and> mp_closed p' \<and> pool_left p' < pool_left p"
proof (cases "mp_running p")
  case (Cons j js)
  with pool_step.finish[of p "[]" j js None] assms(2) show ?thesis
    by (intro exI[of _ "p\<lparr>mp_mirror := mirror_run (mp_mirror p) None, mp_running := js, mp_called := mp_called p @ [j]\<rparr>"])
      (simp add: pool_left_def mirror_run_def)
next
  case Nil
  with assms obtain j js where q: "mi_queue (mp_mirror p) = j # js" by (cases "mi_queue (mp_mirror p)") (auto simp: Wait_returns_def)
  with pool_step.pool_take[OF q] assms(1,2) Nil show ?thesis
    by (intro exI[of _ "p\<lparr>mp_mirror := (mp_mirror p)\<lparr>mi_queue := js\<rparr>, mp_running := [j]\<rparr>"]) (simp add: pool_inv_def pool_left_def)
qed

lemma closed_left_never_grows:
  "pool_step p p' \<Longrightarrow> mp_closed p \<Longrightarrow> mp_closed p' \<and> pool_left p' \<le> pool_left p"
  by (induction rule: pool_step.induct) (auto simp: pool_Send_def pool_left_def mirror_run_def split: option.split)

text \<open>A request that outlives the drain and would be mirrored panics: once the queue is closed, a send is not refused but crashes.\<close>

lemma late_send_panics:
  "mp_closed p \<Longrightarrow> shadow_targets draw snap served \<noteq> [] \<Longrightarrow> mp_panics (pool_Send p draw snap served req) = mp_panics p + 1"
  by (simp add: pool_Send_def)

end
