(* ===== verification/Http_Routes.thy ===== *)
theory Http_Routes
  imports Http_Api
begin

text \<open>
  The routed and wrapped handler of \<open>dataplane/internal/httpapi/server.go\<close>: which requests reach which handler, behind the
  cross-origin grant. Paths are as \<open>net/http\<close> hands them to its mux, cleaned; a pattern for GET also answers HEAD, and a path
  that is known under another method is 405.
\<close>

record server =
  sv_lib :: http_lib
  sv_origins :: "string list"
  sv_metrics :: "string option"
  sv_json :: "json \<Rightarrow> string"

datatype route = Healthz | Readyz | Completion endpoint | MetricsPage | Unrouted int

definition mux :: "bool \<Rightarrow> string \<Rightarrow> string \<Rightarrow> route" where
  \<comment> \<open>Whether there are metrics, the method and the path.\<close>
  "mux metrics meth path =
     (let get = (\<lambda>r. if meth = ''GET'' \<or> meth = ''HEAD'' then r else Unrouted 405);
          completion = (\<lambda>ep. if meth = ''POST'' then Completion ep else Unrouted 405)
      in if path = ''/healthz'' then get Healthz
         else if path = ''/readyz'' then get Readyz
         else if path = ''/v1/chat/completions'' then completion EndpointChatCompletions
         else if path = ''/v1/messages'' then completion EndpointMessages
         else if metrics \<and> path = ''/metrics'' then get MetricsPage
         else Unrouted 404)"

definition handleHealth :: reply where
  "handleHealth = \<lparr>re_Status = 200, re_Headers = [], re_Body = Payload ''ok\<newline>''\<rparr>"

fun serve_route ::
  "server \<Rightarrow> ready_inputs \<Rightarrow> transport \<Rightarrow> 's pipeline \<Rightarrow> http_in \<Rightarrow> route \<Rightarrow> holder \<Rightarrow> 's worker \<Rightarrow> reply \<times> holder \<times> 's worker" where
  "serve_route sv ry tr pl ht Healthz h w = (handleHealth, h, w)"
| "serve_route sv ry tr pl ht Readyz h w =
     (case handleReady (sv_lib sv) (holder_Stats h) ry of (status, body) \<Rightarrow>
        (\<lparr>re_Status = status, re_Headers = [(''Content-Type'', ''application/json'')], re_Body = Payload (sv_json sv body)\<rparr>, h, w))"
| "serve_route sv ry tr pl ht (Completion ep) h w = serveCompletion (sv_lib sv) tr pl ht ep h w"
| "serve_route sv ry tr pl ht MetricsPage h w =
     (\<lparr>re_Status = 200, re_Headers = [], re_Body = Payload (case sv_metrics sv of Some page \<Rightarrow> page | None \<Rightarrow> '''')\<rparr>, h, w)"
| "serve_route sv ry tr pl ht (Unrouted status) h w = (\<lparr>re_Status = status, re_Headers = [], re_Body = NoContent\<rparr>, h, w)"

definition granted :: "server \<Rightarrow> string \<Rightarrow> bool" where
  "granted sv orig = (orig \<noteq> '''' \<and> orig \<in> set (sv_origins sv))"

definition Handler ::
  "server \<Rightarrow> ready_inputs \<Rightarrow> transport \<Rightarrow> 's pipeline \<Rightarrow> string \<Rightarrow> string \<Rightarrow> string \<Rightarrow> http_in \<Rightarrow> holder \<Rightarrow> 's worker \<Rightarrow>
   (panic + reply) \<times> holder \<times> 's worker" where
  \<comment> \<open>The method, the path and the origin of the request. A granted preflight is answered before the mux.\<close>
  "Handler sv ry tr pl meth path orig ht h w =
     (case (if granted sv orig \<and> meth = ''OPTIONS'' then (\<lparr>re_Status = 204, re_Headers = [], re_Body = NoContent\<rparr>, h, w)
            else serve_route sv ry tr pl ht (mux (sv_metrics sv \<noteq> None) meth path) h w) of
        (rep, h', w') \<Rightarrow>
          (recoverPanics (sv_lib sv) (ht_newID ht) (Inr (withCORS (sv_origins sv) meth orig rep)), h', w'))"

section \<open>Laws\<close>

lemma mux_completion:
  "mux metrics meth path = Completion ep \<longleftrightarrow>
   meth = ''POST'' \<and> (path = ''/v1/chat/completions'' \<and> ep = EndpointChatCompletions \<or> path = ''/v1/messages'' \<and> ep = EndpointMessages)"
  by (auto simp: mux_def Let_def)

text \<open>
  The pipeline, the holder and the worker's state are reached by the two completion routes and by nothing else: a probe, a scrape, a
  preflight and a request for anything unknown change nothing.
\<close>

lemma Handler_touches_only_completions:
  assumes "mux (sv_metrics sv \<noteq> None) meth path \<noteq> Completion EndpointChatCompletions"
    "mux (sv_metrics sv \<noteq> None) meth path \<noteq> Completion EndpointMessages"
  shows "snd (Handler sv ry tr pl meth path orig ht h w) = (h, w)"
proof -
  have "\<nexists>ep. mux (sv_metrics sv \<noteq> None) meth path = Completion ep" using assms by (auto simp: mux_completion)
  then show ?thesis by (cases "mux (sv_metrics sv \<noteq> None) meth path") (auto simp: Handler_def handleReady_def)
qed

lemma Handler_serves:
  assumes "mux (sv_metrics sv \<noteq> None) meth path = Completion ep"
  shows "Handler sv ry tr pl meth path orig ht h w =
     (case serveCompletion (sv_lib sv) tr pl ht ep h w of (rep, h', w') \<Rightarrow> (Inr (withCORS (sv_origins sv) meth orig rep), h', w'))"
proof -
  have "meth = ''POST''" using assms mux_completion by blast
  then show ?thesis using assms by (simp add: Handler_def recoverPanics_def split: prod.split)
qed

text \<open>No request takes a snapshot away: after each, every generation has the references it had, whatever the route.\<close>

lemma Handler_keeps_the_holder:
  assumes "holder_inv h"
  shows "case Handler sv ry tr pl meth path orig ht h w of (_, h', _) \<Rightarrow> h_gens h' = h_gens h \<and> h_current h' = h_current h"
proof (cases "\<exists>ep. mux (sv_metrics sv \<noteq> None) meth path = Completion ep")
  case True
  then obtain ep where r: "mux (sv_metrics sv \<noteq> None) meth path = Completion ep" by blast
  obtain ok h1 where a: "Acquire h = (ok, h1)" by fastforce
  show ?thesis
    using Acquire_release(2-4)[OF assms a] by (simp add: Handler_serves[OF r] serveCompletion_def a Let_def split: prod.split)
next
  case False
  then have "snd (Handler sv ry tr pl meth path orig ht h w) = (h, w)" by (intro Handler_touches_only_completions) auto
  then show ?thesis by (cases "Handler sv ry tr pl meth path orig ht h w") auto
qed

text \<open>An origin that is not on the list gets no grant of any kind: the reply is the one a request without an origin gets.\<close>

lemma no_grant_for_strangers:
  "orig \<notin> set (sv_origins sv) \<Longrightarrow> Handler sv ry tr pl meth path orig ht h w = Handler sv ry tr pl meth path '''' ht h w"
  by (simp add: Handler_def granted_def withCORS_def)

end
