(* ===== verification/Spec2Isabelle.thy ===== *)
theory Spec2Isabelle
  imports Stream_Laws Gateway_Example Prober Snapshot_Source Telemetry Secrets Http_Api Admission Config
    Redis_Store KV_Suite Redis_Stream Sandbox Snapshot_Gen Startup Provider_Suite Background Http_Routes
begin

text \<open>
  A model of the data plane of the model gateway: the worker that stands between the callers of an organisation and the
  providers of language models, authenticates and limits each request, hides personal data from providers that may not see it,
  chooses a deployment, relays the answer and records what happened. Paths below are relative to \<open>src/dataplane/internal\<close>.

  \<^bold>\<open>How the parts work together.\<close> A worker holds a configuration snapshot (\<open>core/snapshot.go\<close>) in a reference-counted holder
  (\<open>snapshot/holder.go\<close>); a subscriber replaces it by fetching, verifying and decoding new ones (\<open>snapshot\<close>, \<open>wire\<close>). A request
  enters by \<open>httpapi\<close>, which leases the snapshot and calls the pipeline (\<open>gateway/pipeline.go\<close>): authentication, policy,
  rate limits, guardrails, selection and execution over the candidates, protection of the body for each attempt, the call
  of a provider adapter, restoration of the answer, and one record of the outcome, given to the telemetry emitter, which publishes it
  to Redis. Components from outside the organisation take part as sidecars or WebAssembly modules once the admission runner has
  passed them in its sandbox. \<open>cmd/gateway\<close> puts the parts together and takes them down.

  \<^bold>\<open>Conventions.\<close> Operations are functions of the same name as in the source; a method takes its receiver first and returns the
  new one. Errors are values of \<^typ>\<open>go_error\<close> in a sum type. A Go map is an association list, a time an integer number
  of nanoseconds, an \<open>int64\<close> an integer with every arithmetic step wrapped by \<open>i64\<close>, a byte slice or string a list of
  characters, \<open>float64\<close> a real number; 32 and 64 bit values of the WebAssembly boundary and addresses are words. Where goroutines
  share state, each critical section or atomic operation is a step and the theorems hold for every interleaving: the
  holder, the emitter, the fleet of rate-limited workers, the off-path guardrails, the secret resolver and the module registry. Code of
  other packages (SHA-256, HMAC, protobuf, JSON, HTTP exchanges, the WebAssembly engine, the Redis server, the container runtime, clocks and random
  draws) is an argument; what a theorem needs of it is written in its assumptions.

  \<^bold>\<open>Theories.\<close>
  \<^item> \<open>Gateway_Prelude\<close>: maps, loops that may fail, wrapped integers, strings and times.
  \<^item> \<open>Core_Errors\<close>, \<open>Core_Catalog\<close>, \<open>Core_Identity\<close>, \<open>Core_Snapshot\<close>, \<open>Core_Events\<close>: package \<open>core\<close>. Error chains and codes; trust
    tiers, prices and budgets, exact below \<open>2 ^ 63\<close>; keys, principals and ports; the validating constructors of both layers and their
    invariant; the two kinds of record.
  \<^item> \<open>Policy\<close>: first-match evaluation and the cache of compiled policies.
  \<^item> \<open>KV_Store\<close>, \<open>Rate_Limits\<close>: the store port as the locale \<open>kv_store\<close>, its in-memory implementation, and leased buckets over any store that
    keeps the contract: a fleet stays within its limit.
  \<^item> \<open>Redis_Store\<close>, \<open>KV_Suite\<close>, \<open>Redis_Stream\<close>: the Redis store over the commands it sends, with lost replies and retries, which keeps the same
    contract, so that the fleet's limit holds through Redis; the suite both stores pass; the streams usage and audit events are published to.
  \<^item> \<open>Breaker\<close>, \<open>Router\<close>, \<open>Prober\<close>: breakers and health scores, selection and its order, the execution loop and what it records.
  \<^item> \<open>PII_Detect\<close>, \<open>PII_Transform\<close>: detectors as regular expressions with Go's matching rule, checksums, overlaps; tokens, their
    restoration in a whole body and in a stream cut anywhere, and the vault.
  \<^item> \<open>Guardrails\<close>, \<open>Shadow\<close>: the chain with budgets and failure modes; the bounded mirror.
  \<^item> \<open>Snapshot_Holder\<close>, \<open>Wire\<close>, \<open>Snapshot_Source\<close>: leases and generations, versions that only move forward, the subscriber's refresh; both
    directions of the wire format and layer digests; the sources.
  \<^item> \<open>Pipeline\<close>, \<open>Pipeline_Laws\<close>, \<open>Stream_Laws\<close>: the request path, buffered and streamed. What reaches which provider, what comes
    back, that each request is recorded once, and what becomes of its concurrency slot.
  \<^item> \<open>Telemetry\<close>, \<open>Secrets\<close>: the drop-oldest emitter and its sinks; the credential cache.
  \<^item> \<open>Http_Text\<close>, \<open>Http_Api\<close>, \<open>Http_Routes\<close>: UTF-8 text at the boundary; both completion surfaces, the event relay, errors, readiness; which
    request reaches which handler.
  \<^item> \<open>Providers\<close>: the OpenAI-compatible, Anthropic and echo adapters; the locale \<open>chunk_stream\<close> is the contract of their cursors.
  \<^item> \<open>Wasm\<close>, \<open>Sidecars\<close>, \<open>Admission\<close>: modules in the worker and their registry; the secret scanner, guardrail and entity sidecars; the
    contract suite and the runner.
  \<^item> \<open>Recorder\<close>, \<open>Provider_Suite\<close>: the recorder the suites run on, which reports every case that was reached whatever fails, and the battery
    for provider adapters.
  \<^item> \<open>Sandbox\<close>: the container a component is run in, its command line read as the runtime reads it, and the runner's command
    (\<open>cmd/admissionrunner\<close>).
  \<^item> \<open>Background\<close>: the loops beside the requests. The subscriber keeps fetching with bounded waits until it is stopped, and the mirror's
    pool has called every copy it accepted when \<open>Wait\<close> returns.
  \<^item> \<open>Config\<close>, \<open>Startup\<close>: the worker's settings; \<open>cmd/gateway\<close>, every constructor in order, when the worker listens, and in which order the parts
    are stopped.
  \<^item> \<open>Snapshot_Gen\<close>: \<open>cmd/snapshotgen\<close>; the key it prints opens a worker on the file it writes.
  \<^item> \<open>Gateway_Example\<close>, \<open>Pipeline_Example\<close>: a small configuration and a worker at which properties are evaluated.

  \<^bold>\<open>Bounds.\<close> No definition runs on fuel except \<open>drain\<close>, which reads a cursor a given number of times: \<open>streams_end\<close> shows that one call
  for each line and one more are enough. Every other loop is a recursion with a termination proof. Loops of the source that never
  end (the subscriber, the prober, the emitter's flusher, the mirror's workers) are modelled over a given number of rounds, or as steps
  of a relation. The bound \<open>2 ^ 63\<close> in the theorems on limits and money is that of \<open>int64\<close>.

  \<^bold>\<open>Not modelled.\<close> Log lines, tracing spans and metric registration have no effect on what is modelled; \<open>tracing\<close> configures an
  exporter. Parsing of command-line flags is the library's. \<open>adapters/injectionheuristics\<close> matches with Unicode case folding, whose
  tables are not in the repository. \<open>cmd/nercheck\<close> and \<open>cmd/devredis\<close> are development tools. The
  control plane and the sidecars are separate Python programs, and the \<open>pb\<close> packages are generated.
\<close>

section \<open>Properties that span components\<close>


definition ex_echo_call :: provider_call where
  "ex_echo_call = \<lparr>call_Deployment = ex_internal, call_Meta = rq_Meta ex_request, call_Body = ''mail to [[EMAIL_1]]'', call_Credential = \<lparr>cred_Ref = '''', cred_Secret = ''''\<rparr>\<rparr>"

lemma ex_tokens:
  "Transform (\<lambda>k m. m) ''mail to ana@ex.io'' StrategyTokenize ''p'' =
     Some \<lparr>res_Payload = ''mail to [[EMAIL_1]]'', res_Replacements = [(''[[EMAIL_1]]'', ''ana@ex.io'')], res_Count = 1\<rparr>"
  by code_simp

lemma ex_echo_chunks:
  "case echo_Stream None ex_echo_call of Inl e \<Rightarrow> False
   | Inr st \<Rightarrow> map chunk_Body (fst (drain (echo_Next None) (length (call_Body ex_echo_call) + 1) st)) = [''mail to [[EMAIL_'', ''1]]'']"
  by code_simp


end
